(* ===== verification/Prelude.thy ===== *)
theory Prelude
  imports
    Main
    "HOL-Library.Char_ord"
    "HOL-Library.List_Lexorder"
    "HOL-Library.Finite_Map"
    "HOL-Library.Signed_Division"
begin

text \<open>
  What the components share: the integer widths of Go, instants and durations of package
  \<open>time\<close>, error values, and the collections of simplification rules. The string functions are in
  theory GoStrings, the interfaces that several components provide in theory Interfaces.

  A Go string is a sequence of bytes and so is a \<^typ>\<open>string\<close> here; the order on strings is
  the bytewise lexicographic one that Go's comparison uses. A Go map is a finite map; a nil
  map is the empty one.
\<close>

named_theorems go_simps \<open>evaluation of the modelled parts of the Go standard library\<close>

named_theorems reg_simps \<open>what each registry operation does to the lookup of a pod\<close>

named_theorems hist_simps \<open>what the steps of the history store do to its fields\<close>

named_theorems wp_simps \<open>unfolding of the reconciler's helpers\<close>

section \<open>Integers\<close>

text \<open>
  \<open>int\<close> and \<open>int64\<close> values are integers of the range of 64 bits; the conversions wrap as Go's
  do.
\<close>

definition i32 :: "int \<Rightarrow> int" where
  "i32 x = signed_take_bit 31 x"

definition i64 :: "int \<Rightarrow> int" where
  "i64 x = signed_take_bit 63 x"

definition in_i32 :: "int \<Rightarrow> bool" where
  "in_i32 x \<longleftrightarrow> - (2 ^ 31) \<le> x \<and> x < 2 ^ 31"

definition in_i64 :: "int \<Rightarrow> bool" where
  "in_i64 x \<longleftrightarrow> - (2 ^ 63) \<le> x \<and> x < 2 ^ 63"

lemma i32_id [simp]: "in_i32 x \<Longrightarrow> i32 x = x"
  by (simp add: i32_def in_i32_def signed_take_bit_int_eq_self)

lemma i64_id [simp]: "in_i64 x \<Longrightarrow> i64 x = x"
  by (simp add: i64_def in_i64_def signed_take_bit_int_eq_self)

lemma in_i32_i32 [simp]: "in_i32 (i32 x)"
  unfolding i32_def in_i32_def
  using signed_take_bit_int_greater_eq_minus_exp [of 31 x]
    signed_take_bit_int_less_exp [of 31 x] by simp

lemma in_i64_i64 [simp]: "in_i64 (i64 x)"
  unfolding i64_def in_i64_def
  using signed_take_bit_int_greater_eq_minus_exp [of 63 x]
    signed_take_bit_int_less_exp [of 63 x] by simp

section \<open>Time\<close>

text \<open>
  An instant is a number of nanoseconds since the zero \<open>time.Time\<close>; \<open>IsZero\<close> is equality
  with 0. A duration is an \<open>int64\<close> of nanoseconds: \<open>Sub\<close> saturates, \<open>Milliseconds\<close> truncates
  towards zero.
\<close>

type_synonym instant = int

type_synonym duration = int

definition time_is_zero :: "instant \<Rightarrow> bool" where
  "time_is_zero t \<longleftrightarrow> t = 0"

definition max_duration :: duration where
  "max_duration = 2 ^ 63 - 1"

definition min_duration :: duration where
  "min_duration = - (2 ^ 63)"

definition time_sub :: "instant \<Rightarrow> instant \<Rightarrow> duration" where
  "time_sub t u = max min_duration (min max_duration (t - u))"

definition milliseconds :: "duration \<Rightarrow> int" where
  "milliseconds d = d sdiv 1000000"

definition second :: duration where
  "second = 1000000000"

definition minute :: duration where
  "minute = 60 * second"

lemma time_sub_exact: "min_duration \<le> t - u \<Longrightarrow> t - u \<le> max_duration \<Longrightarrow> time_sub t u = t - u"
  by (simp add: time_sub_def)

lemma time_sub_nonneg [simp]: "u \<le> t \<Longrightarrow> 0 \<le> time_sub t u"
  by (simp add: time_sub_def max_duration_def)

lemma time_sub_same [simp]: "time_sub t t = 0"
  by (simp add: time_sub_def max_duration_def min_duration_def)

lemma time_sub_split:
  "s \<le> t \<Longrightarrow> t \<le> u \<Longrightarrow> u - s \<le> max_duration \<Longrightarrow> time_sub t s + time_sub u t = time_sub u s"
  by (simp add: time_sub_exact min_duration_def)

lemma milliseconds_pos: "0 \<le> d \<Longrightarrow> milliseconds d = d div 1000000"
  by (cases "d = 0") (simp_all add: milliseconds_def signed_divide_int_def)

lemma milliseconds_nonneg [simp]: "0 \<le> d \<Longrightarrow> 0 \<le> milliseconds d"
  by (simp add: milliseconds_pos)

lemma milliseconds_zero [simp]: "milliseconds 0 = 0"
  by (simp add: milliseconds_def)

text \<open>Truncation loses: the milliseconds of consecutive spans never exceed those of the whole.\<close>

lemma milliseconds_add_le:
  "0 \<le> d \<Longrightarrow> 0 \<le> e \<Longrightarrow> milliseconds d + milliseconds e \<le> milliseconds (d + e)"
  by (simp add: milliseconds_pos)

section \<open>Errors\<close>

text \<open>
  An error value, seen through the predicates \<open>apierrors.IsNotFound\<close>, \<open>IsConflict\<close> and
  \<open>IsAlreadyExists\<close> of the Kubernetes library and through its text. Those predicates unwrap,
  so \<open>fmt.Errorf\<close> with \<open>%w\<close> changes the text only.
\<close>

datatype err_kind = NotFound | Conflict | AlreadyExists | Other

datatype go_err = GoErr (kind_of: err_kind) (text_of: string)

definition wrap_err :: "string \<Rightarrow> go_err \<Rightarrow> go_err" where
  "wrap_err pre e = GoErr (kind_of e) (pre @ '': '' @ text_of e)"

definition errorf :: "string \<Rightarrow> go_err" where
  "errorf msg = GoErr Other msg"

definition is_not_found :: "go_err \<Rightarrow> bool" where
  "is_not_found e \<longleftrightarrow> kind_of e = NotFound"

definition is_conflict :: "go_err \<Rightarrow> bool" where
  "is_conflict e \<longleftrightarrow> kind_of e = Conflict"

definition is_already_exists :: "go_err \<Rightarrow> bool" where
  "is_already_exists e \<longleftrightarrow> kind_of e = AlreadyExists"

definition ignore_not_found :: "go_err \<Rightarrow> go_err option" where
  "ignore_not_found e = (if is_not_found e then None else Some e)"

lemma wrap_err_kind [simp]: "kind_of (wrap_err pre e) = kind_of e"
  by (simp add: wrap_err_def)

lemmas err_simps =
  wrap_err_def errorf_def is_not_found_def is_conflict_def is_already_exists_def
  ignore_not_found_def

end
