(* ===== verification/GoStrings.thy ===== *)
theory GoStrings
  imports Prelude
begin

text \<open>
  The functions of the packages \<open>strings\<close>, \<open>strconv\<close> and \<open>fmt\<close> that the program calls, on
  byte strings: decimal numbers (\<open>strconv.Itoa\<close>, \<open>strconv.Atoi\<close>, \<open>%d\<close>), quoting (\<open>%q\<close>),
  prefixes, splitting and trimming.
\<close>

section \<open>Decimal numbers\<close>

definition digit :: "nat \<Rightarrow> char" where
  "digit d = char_of (48 + d)"

definition is_digit :: "char \<Rightarrow> bool" where
  "is_digit c \<longleftrightarrow> 48 \<le> (of_char c :: nat) \<and> (of_char c :: nat) \<le> 57"

definition digit_val :: "char \<Rightarrow> nat" where
  "digit_val c = of_char c - 48"

fun nat_digits :: "nat \<Rightarrow> string" where
  "nat_digits n = (if n < 10 then [digit n] else nat_digits (n div 10) @ [digit (n mod 10)])"

declare nat_digits.simps [simp del]

definition itoa :: "int \<Rightarrow> string" where
  "itoa i = (if i < 0 then CHR ''-'' # nat_digits (nat (- i)) else nat_digits (nat i))"

fun digits_val :: "nat \<Rightarrow> string \<Rightarrow> nat" where
  "digits_val acc [] = acc"
| "digits_val acc (c # cs) = digits_val (10 * acc + digit_val c) cs"

text \<open>
  \<open>strconv.Atoi\<close>: an optional sign and at least one decimal digit, nothing else, and a value
  that fits \<open>int\<close>; \<open>None\<close> is the error.
\<close>

definition atoi_digits :: "string \<Rightarrow> int option" where
  "atoi_digits s =
     (if s \<noteq> [] \<and> list_all is_digit s then Some (int (digits_val 0 s)) else None)"

definition atoi :: "string \<Rightarrow> int option" where
  "atoi s =
     (case (case s of
              [] \<Rightarrow> None
            | c # cs \<Rightarrow> if c = CHR ''-'' then map_option uminus (atoi_digits cs)
                        else if c = CHR ''+'' then atoi_digits cs
                        else atoi_digits s) of
        None \<Rightarrow> None
      | Some v \<Rightarrow> if in_i64 v then Some v else None)"

lemma of_char_digit: "d < 10 \<Longrightarrow> of_char (digit d) = (48 + d :: nat)"
  by (simp add: digit_def)

lemma is_digit_digit [simp]: "d < 10 \<Longrightarrow> is_digit (digit d)"
  by (simp add: is_digit_def of_char_digit)

lemma digit_val_digit [simp]: "d < 10 \<Longrightarrow> digit_val (digit d) = d"
  by (simp add: digit_val_def of_char_digit)

lemma digits_val_snoc: "digits_val acc (s @ [c]) = 10 * digits_val acc s + digit_val c"
  by (induction s arbitrary: acc) simp_all

lemma nat_digits_not_Nil [simp]: "nat_digits n \<noteq> []"
  by (subst nat_digits.simps) simp

lemma nat_digits_all_digits: "list_all is_digit (nat_digits n)"
proof (induction n rule: nat_digits.induct)
  case (1 n)
  then show ?case by (subst nat_digits.simps) simp
qed

lemma nat_digits_val: "digits_val 0 (nat_digits n) = n"
proof (induction n rule: nat_digits.induct)
  case (1 n)
  then show ?case by (subst nat_digits.simps) (simp add: digits_val_snoc)
qed

lemma atoi_digits_nat_digits [simp]: "atoi_digits (nat_digits n) = Some (int n)"
  by (simp add: atoi_digits_def nat_digits_all_digits nat_digits_val)

lemma is_digit_not [simp]:
  "\<not> is_digit (CHR ''-'')" "\<not> is_digit (CHR ''+'')" "\<not> is_digit (CHR '':'')"
  "\<not> is_digit (CHR ''['')" "\<not> is_digit (CHR '']'')" "\<not> is_digit (CHR ''/'')"
  by (simp_all add: is_digit_def)

lemma nat_digits_subset: "c \<in> set (nat_digits n) \<Longrightarrow> is_digit c"
  using nat_digits_all_digits [of n] by (auto simp: list_all_iff)

lemma hd_nat_digits: "is_digit (hd (nat_digits n))"
  by (rule nat_digits_subset [of _ n]) simp

lemma nat_digits_Cons:
  obtains c cs where "nat_digits n = c # cs" and "is_digit c"
  using hd_nat_digits [of n] nat_digits_not_Nil [of n] by (cases "nat_digits n") auto

text \<open>Printing and parsing a number of the range of \<open>int\<close> round-trips.\<close>

lemma atoi_itoa: "in_i64 i \<Longrightarrow> atoi (itoa i) = Some i"
proof (cases "i < 0")
  case True
  assume "in_i64 i"
  with True show ?thesis by (simp add: itoa_def atoi_def)
next
  case False
  assume i: "in_i64 i"
  obtain c cs where d: "nat_digits (nat i) = c # cs" and c: "is_digit c"
    by (rule nat_digits_Cons)
  have "c \<noteq> CHR ''-''" and "c \<noteq> CHR ''+''" using c by auto
  then show ?thesis
    using False i atoi_digits_nat_digits [of "nat i"] by (simp add: itoa_def atoi_def d)
qed

lemma set_itoa: "c \<in> set (itoa i) \<Longrightarrow> is_digit c \<or> c = CHR ''-''"
  by (auto simp: itoa_def dest: nat_digits_subset split: if_splits)

lemma itoa_free [simp]:
  "CHR '':'' \<notin> set (itoa i)" "CHR ''['' \<notin> set (itoa i)" "CHR '']'' \<notin> set (itoa i)"
  "CHR ''/'' \<notin> set (itoa i)"
  by (auto dest: set_itoa)

lemma itoa_inj: "in_i64 i \<Longrightarrow> in_i64 j \<Longrightarrow> itoa i = itoa j \<longleftrightarrow> i = j"
  by (metis atoi_itoa option.inject)

section \<open>Prefixes, splitting, trimming\<close>

text \<open>\<open>strings.HasPrefix\<close>.\<close>

definition has_prefix :: "string \<Rightarrow> string \<Rightarrow> bool" where
  "has_prefix s p \<longleftrightarrow> take (length p) s = p"

lemma has_prefix_iff: "has_prefix s p \<longleftrightarrow> (\<exists>t. s = p @ t)"
  by (auto simp: has_prefix_def intro: exI [of _ "drop (length p) s"])
     (metis append_take_drop_id)

text \<open>\<open>strings.SplitN(s, sep, 2)\<close> for a one-byte separator: one or two parts.\<close>

definition split_n2 :: "char \<Rightarrow> string \<Rightarrow> string list" where
  "split_n2 sep s =
     (if sep \<in> set s
      then [takeWhile (\<lambda>c. c \<noteq> sep) s, tl (dropWhile (\<lambda>c. c \<noteq> sep) s)]
      else [s])"

text \<open>\<open>strings.TrimRight\<close> with a one-byte cutset.\<close>

definition trim_right :: "'a \<Rightarrow> 'a list \<Rightarrow> 'a list" where
  "trim_right z s = rev (dropWhile (\<lambda>c. c = z) (rev s))"

lemma trim_right_replicate: "trim_right z (s @ replicate n z) = trim_right z s"
  by (induction n) (simp_all add: trim_right_def replicate_app_Cons_same)

lemma trim_right_id: "s = [] \<or> last s \<noteq> z \<Longrightarrow> trim_right z s = s"
  by (cases s rule: rev_cases) (simp_all add: trim_right_def)

section \<open>Quoting\<close>

text \<open>
  \<open>%q\<close>, that is \<open>strconv.Quote\<close>, on a byte string: the two escapes of the quotation mark and
  the backslash, the named control characters, \<open>\xNN\<close> for the others; bytes from 128 on (the
  bytes of printable non-ASCII characters) are copied.
\<close>

definition hex_digit :: "nat \<Rightarrow> char" where
  "hex_digit d = (if d < 10 then char_of (48 + d) else char_of (87 + d))"

definition quote_char :: "char \<Rightarrow> string" where
  "quote_char c =
     (let n = (of_char c :: nat) in
      if c = CHR 0x22 \<or> c = CHR 0x5C then [CHR 0x5C, c]
      else if n = 7 then [CHR 0x5C, CHR ''a'']
      else if n = 8 then [CHR 0x5C, CHR ''b'']
      else if n = 9 then [CHR 0x5C, CHR ''t'']
      else if n = 10 then [CHR 0x5C, CHR ''n'']
      else if n = 11 then [CHR 0x5C, CHR ''v'']
      else if n = 12 then [CHR 0x5C, CHR ''f'']
      else if n = 13 then [CHR 0x5C, CHR ''r'']
      else if n < 32 \<or> n = 127 then [CHR 0x5C, CHR ''x'', hex_digit (n div 16), hex_digit (n mod 16)]
      else [c])"

definition quote :: "string \<Rightarrow> string" where
  "quote s = CHR 0x22 # concat (map quote_char s) @ [CHR 0x22]"

end
