(* ===== verification/ApiTypes.thy ===== *)
theory ApiTypes
  imports GoStrings
begin

text \<open>
  The custom resources (\<open>operator/api/v1alpha1\<close>): Migration and MigratableWorkload with their
  spec and status, the phases of a migration, and the defaults of a workload's spec. Of the
  object metadata the model keeps what the program reads or writes. The status field
  \<open>Conditions\<close> is neither read nor written anywhere and is left out.
\<close>

section \<open>Phases\<close>

text \<open>
  \<open>MigrationPhase\<close> is a string; an object may carry one that is not a constant of the code
  (\<open>OtherPhase\<close>).
\<close>

datatype phase =
    NoPhase
  | Pending
  | Syncing
  | Checkpointing
  | Transferring
  | Restoring
  | Completed
  | Failed
  | OtherPhase string

fun phase_string :: "phase \<Rightarrow> string" where
  "phase_string NoPhase = []"
| "phase_string Pending = ''Pending''"
| "phase_string Syncing = ''Syncing''"
| "phase_string Checkpointing = ''Checkpointing''"
| "phase_string Transferring = ''Transferring''"
| "phase_string Restoring = ''Restoring''"
| "phase_string Completed = ''Completed''"
| "phase_string Failed = ''Failed''"
| "phase_string (OtherPhase s) = s"

definition phase_of_string :: "string \<Rightarrow> phase" where
  "phase_of_string s =
     (if s = [] then NoPhase
      else if s = ''Pending'' then Pending
      else if s = ''Syncing'' then Syncing
      else if s = ''Checkpointing'' then Checkpointing
      else if s = ''Transferring'' then Transferring
      else if s = ''Restoring'' then Restoring
      else if s = ''Completed'' then Completed
      else if s = ''Failed'' then Failed
      else OtherPhase s)"

lemma phase_string_of_string [simp]: "phase_string (phase_of_string s) = s"
  by (simp add: phase_of_string_def)

text \<open>
  The order of the lifecycle: the phases of a successful migration in turn, an unknown phase
  before the terminal ones, \<open>Failed\<close> last.
\<close>

fun phase_rank :: "phase \<Rightarrow> nat" where
  "phase_rank NoPhase = 0"
| "phase_rank Pending = 1"
| "phase_rank Syncing = 2"
| "phase_rank Checkpointing = 3"
| "phase_rank Transferring = 4"
| "phase_rank Restoring = 5"
| "phase_rank (OtherPhase _) = 6"
| "phase_rank Completed = 7"
| "phase_rank Failed = 8"

lemma phase_rank_inj: "phase_rank p = phase_rank q \<Longrightarrow> phase_string p = phase_string q \<Longrightarrow> p = q"
  by (cases p; cases q) simp_all

instantiation phase :: linorder
begin

definition less_eq_phase :: "phase \<Rightarrow> phase \<Rightarrow> bool" where
  "p \<le> q \<longleftrightarrow>
     phase_rank p < phase_rank q \<or> phase_rank p = phase_rank q \<and> phase_string p \<le> phase_string q"

definition less_phase :: "phase \<Rightarrow> phase \<Rightarrow> bool" where
  "p < q \<longleftrightarrow>
     phase_rank p < phase_rank q \<or> phase_rank p = phase_rank q \<and> phase_string p < phase_string q"

instance
proof
  fix p q r :: phase
  show "p < q \<longleftrightarrow> p \<le> q \<and> \<not> q \<le> p" by (auto simp: less_eq_phase_def less_phase_def)
  show "p \<le> p" by (simp add: less_eq_phase_def)
  show "p \<le> q \<Longrightarrow> q \<le> r \<Longrightarrow> p \<le> r" by (auto simp: less_eq_phase_def)
  show "p \<le> q \<Longrightarrow> q \<le> p \<Longrightarrow> p = q" by (auto simp: less_eq_phase_def intro: phase_rank_inj)
  show "p \<le> q \<or> q \<le> p" by (auto simp: less_eq_phase_def)
qed

end

section \<open>Migration\<close>

record migration_spec =
  ms_workload_name :: string
  ms_pod_name :: string
  ms_source_node :: string
  ms_target_node :: string

record migration_status =
  mst_phase :: phase
  mst_message :: string
  mst_source_pod :: string
  mst_destination_pod :: string
  mst_checkpoint_dir :: string
  mst_process_migration :: bool
  mst_volume_migration :: bool
  mst_sync_rounds :: int
  mst_sync_round :: int
  mst_scaled_up :: bool
  mst_start_time :: "instant option"
  mst_completion_time :: "instant option"
  mst_last_transition_time :: "instant option"

definition zero_migration_status :: migration_status where
  "zero_migration_status =
     \<lparr>mst_phase = NoPhase, mst_message = [], mst_source_pod = [], mst_destination_pod = [],
      mst_checkpoint_dir = [], mst_process_migration = False, mst_volume_migration = False,
      mst_sync_rounds = 0, mst_sync_round = 0, mst_scaled_up = False, mst_start_time = None,
      mst_completion_time = None, mst_last_transition_time = None\<rparr>"

record migration =
  mg_namespace :: string
  mg_name :: string
  mg_generate_name :: string
  mg_resource_version :: nat
  mg_creation :: instant
  mg_deletion :: "instant option"
  mg_finalizers :: "string list"
  mg_spec :: migration_spec
  mg_status :: migration_status

definition is_terminal :: "migration_status \<Rightarrow> bool" where
  "is_terminal s \<longleftrightarrow> mst_phase s = Completed \<or> mst_phase s = Failed"

section \<open>MigratableWorkload\<close>

definition workload_kind_stateful_set :: string where
  "workload_kind_stateful_set = ''StatefulSet''"

definition workload_kind_deployment :: string where
  "workload_kind_deployment = ''Deployment''"

definition default_placement_label_key :: string where
  "default_placement_label_key = ''mig-ready''"

definition default_placement_label_value :: string where
  "default_placement_label_value = ''true''"

definition default_checkpoint_dir :: string where
  "default_checkpoint_dir = ''/dmtcp/checkpoints''"

definition default_pre_sync_rounds :: int where
  "default_pre_sync_rounds = 0"

record workload_reference =
  wr_kind :: string
  wr_name :: string

record placement_label =
  pl_key :: string
  pl_value :: string

record workload_spec =
  ws_workload_ref :: workload_reference
  ws_placement_label :: "placement_label option"
  ws_checkpoint_dir :: string
  ws_transfer_port :: int
  ws_layer_count :: int
  ws_process_migration :: "bool option"
  ws_volume_migration :: "bool option"
  ws_pre_sync_rounds :: "int option"

record registered_pod =
  rp_name :: string
  rp_address :: string
  rp_container_port :: int
  rp_node :: string
  rp_migrating :: bool
  rp_checkpoint_ready :: bool
  rp_checkpoint_dir :: string
  rp_restored :: bool
  rp_registered_at :: "instant option"

record workload_status =
  wst_phase :: string
  wst_message :: string
  wst_registered_pods :: "registered_pod list"
  wst_observed_generation :: int

definition zero_workload_status :: workload_status where
  "zero_workload_status =
     \<lparr>wst_phase = [], wst_message = [], wst_registered_pods = [], wst_observed_generation = 0\<rparr>"

record workload =
  mw_namespace :: string
  mw_name :: string
  mw_resource_version :: nat
  mw_generation :: int
  mw_deletion :: "instant option"
  mw_spec :: workload_spec
  mw_status :: workload_status

section \<open>Defaults\<close>

definition effective_placement_label :: "workload \<Rightarrow> string \<times> string" where
  "effective_placement_label m =
     (case ws_placement_label (mw_spec m) of
        None \<Rightarrow> (default_placement_label_key, default_placement_label_value)
      | Some l \<Rightarrow>
          (if pl_key l \<noteq> [] then pl_key l else default_placement_label_key,
           if pl_value l \<noteq> [] then pl_value l else default_placement_label_value))"

definition effective_checkpoint_dir :: "workload \<Rightarrow> string" where
  "effective_checkpoint_dir m =
     (if ws_checkpoint_dir (mw_spec m) \<noteq> [] then ws_checkpoint_dir (mw_spec m)
      else default_checkpoint_dir)"

definition process_migration_enabled :: "workload \<Rightarrow> bool" where
  "process_migration_enabled m =
     (case ws_process_migration (mw_spec m) of None \<Rightarrow> True | Some b \<Rightarrow> b)"

definition volume_migration_enabled :: "workload \<Rightarrow> bool" where
  "volume_migration_enabled m =
     (case ws_volume_migration (mw_spec m) of None \<Rightarrow> True | Some b \<Rightarrow> b)"

definition effective_pre_sync_rounds :: "workload \<Rightarrow> int" where
  "effective_pre_sync_rounds m = default_pre_sync_rounds"

lemma effective_placement_label_nonempty:
  "effective_placement_label m = (key, val) \<Longrightarrow> key \<noteq> [] \<and> val \<noteq> []"
  by (auto simp: effective_placement_label_def default_placement_label_key_def
      default_placement_label_value_def split: option.splits if_splits)

lemma effective_checkpoint_dir_nonempty [simp]: "effective_checkpoint_dir m \<noteq> []"
  by (simp add: effective_checkpoint_dir_def default_checkpoint_dir_def)

end
