(* ===== verification/Kube.thy ===== *)
theory Kube
  imports ApiTypes
begin

text \<open>
  The Kubernetes API as the program sees it. The API server and its client library are not part
  of the repository: they are a parameter, a record of the calls the program makes over an
  arbitrary cluster state \<open>'c\<close>. A read may return anything for a state (so it may be stale); a
  write returns a result and any new state. \<open>'l\<close> is the type of label selectors and \<open>'s\<close> that
  of parsed ones.
\<close>

section \<open>Objects\<close>

record pod =
  pd_namespace :: string
  pd_name :: string
  pd_node_name :: string
  pd_creation :: instant
  pd_deletion :: "instant option"
  pd_conditions :: "(string \<times> string) list"

record node =
  nd_name :: string
  nd_labels :: "(string, string) fmap"
  nd_unschedulable :: bool
  nd_conditions :: "(string \<times> string) list"

record 'l stateful_set =
  ss_selector :: "'l option"

record 'l deployment =
  dp_selector :: "'l option"
  dp_replicas :: "int option"

section \<open>The client\<close>

record ('c, 'l, 's) kube =
  k_get_migration :: "string \<Rightarrow> string \<Rightarrow> 'c \<Rightarrow> go_err + migration"
  k_list_migrations :: "'c \<Rightarrow> go_err + migration list"
  k_create_migration :: "migration \<Rightarrow> 'c \<Rightarrow> (go_err + migration) \<times> 'c"
  k_update_migration :: "migration \<Rightarrow> 'c \<Rightarrow> (go_err + migration) \<times> 'c"
  k_update_status :: "migration \<Rightarrow> 'c \<Rightarrow> (go_err + migration) \<times> 'c"
  k_get_workload :: "string \<Rightarrow> string \<Rightarrow> 'c \<Rightarrow> go_err + workload"
  k_list_workloads :: "'c \<Rightarrow> go_err + workload list"
  k_create_workload :: "workload \<Rightarrow> 'c \<Rightarrow> (go_err + workload) \<times> 'c"
  k_update_workload_status :: "workload \<Rightarrow> 'c \<Rightarrow> (go_err + workload) \<times> 'c"
  k_get_node :: "string \<Rightarrow> 'c \<Rightarrow> go_err + node"
  k_list_nodes :: "'c \<Rightarrow> go_err + node list"
  k_patch_node :: "node \<Rightarrow> node \<Rightarrow> 'c \<Rightarrow> go_err option \<times> 'c"
  k_get_pod :: "string \<Rightarrow> string \<Rightarrow> 'c \<Rightarrow> go_err + pod"
  k_delete_pod :: "pod \<Rightarrow> 'c \<Rightarrow> go_err option \<times> 'c"
  k_list_pods :: "string \<Rightarrow> 's \<Rightarrow> 'c \<Rightarrow> go_err + pod list"
  k_get_stateful_set :: "string \<Rightarrow> string \<Rightarrow> 'c \<Rightarrow> go_err + 'l stateful_set"
  k_get_deployment :: "string \<Rightarrow> string \<Rightarrow> 'c \<Rightarrow> go_err + 'l deployment"
  k_patch_deployment ::
    "string \<Rightarrow> string \<Rightarrow> 'l deployment \<Rightarrow> 'l deployment \<Rightarrow> 'c \<Rightarrow> go_err option \<times> 'c"
  k_as_selector :: "'l \<Rightarrow> go_err + 's"

section \<open>Observing the writes\<close>

text \<open>
  A client that behaves as another one and also logs every write it is asked for, with whether
  it succeeded. Statements about what the program writes are about its runs on such a client.
\<close>

datatype 'l kwrite =
    WCreateMigration migration bool
  | WUpdateMigration migration bool
  | WStatus migration bool
  | WCreateWorkload workload bool
  | WWorkloadStatus workload bool
  | WPatchNode node node bool
  | WDeletePod pod bool
  | WPatchDeployment string string "'l deployment" "'l deployment" bool

definition logged ::
    "('r \<Rightarrow> bool) \<Rightarrow> (bool \<Rightarrow> 'w) \<Rightarrow> ('c \<Rightarrow> 'r \<times> 'c) \<Rightarrow> 'c \<times> 'w list \<Rightarrow> 'r \<times> ('c \<times> 'w list)" where
  "logged good entry call s =
     (case s of (c, ws) \<Rightarrow> (case call c of (r, c') \<Rightarrow> (r, (c', ws @ [entry (good r)]))))"

definition good_sum :: "'e + 'a \<Rightarrow> bool" where
  "good_sum r = (case r of Inl _ \<Rightarrow> False | Inr _ \<Rightarrow> True)"

definition good_opt :: "'e option \<Rightarrow> bool" where
  "good_opt r \<longleftrightarrow> r = None"

definition spied :: "('c, 'l, 's) kube \<Rightarrow> ('c \<times> 'l kwrite list, 'l, 's) kube" where
  "spied K =
     \<lparr>k_get_migration = (\<lambda>ns n s. k_get_migration K ns n (fst s)),
      k_list_migrations = (\<lambda>s. k_list_migrations K (fst s)),
      k_create_migration = (\<lambda>m. logged good_sum (WCreateMigration m) (k_create_migration K m)),
      k_update_migration = (\<lambda>m. logged good_sum (WUpdateMigration m) (k_update_migration K m)),
      k_update_status = (\<lambda>m. logged good_sum (WStatus m) (k_update_status K m)),
      k_get_workload = (\<lambda>ns n s. k_get_workload K ns n (fst s)),
      k_list_workloads = (\<lambda>s. k_list_workloads K (fst s)),
      k_create_workload = (\<lambda>m. logged good_sum (WCreateWorkload m) (k_create_workload K m)),
      k_update_workload_status =
        (\<lambda>m. logged good_sum (WWorkloadStatus m) (k_update_workload_status K m)),
      k_get_node = (\<lambda>n s. k_get_node K n (fst s)),
      k_list_nodes = (\<lambda>s. k_list_nodes K (fst s)),
      k_patch_node = (\<lambda>o1 o2. logged good_opt (WPatchNode o1 o2) (k_patch_node K o1 o2)),
      k_get_pod = (\<lambda>ns n s. k_get_pod K ns n (fst s)),
      k_delete_pod = (\<lambda>p. logged good_opt (WDeletePod p) (k_delete_pod K p)),
      k_list_pods = (\<lambda>ns sel s. k_list_pods K ns sel (fst s)),
      k_get_stateful_set = (\<lambda>ns n s. k_get_stateful_set K ns n (fst s)),
      k_get_deployment = (\<lambda>ns n s. k_get_deployment K ns n (fst s)),
      k_patch_deployment =
        (\<lambda>ns n d1 d2. logged good_opt (WPatchDeployment ns n d1 d2) (k_patch_deployment K ns n d1 d2)),
      k_as_selector = k_as_selector K\<rparr>"

lemma spied_reads [simp]:
  "k_get_migration (spied K) ns n s = k_get_migration K ns n (fst s)"
  "k_list_migrations (spied K) s = k_list_migrations K (fst s)"
  "k_get_workload (spied K) ns n s = k_get_workload K ns n (fst s)"
  "k_list_workloads (spied K) s = k_list_workloads K (fst s)"
  "k_get_node (spied K) n s = k_get_node K n (fst s)"
  "k_list_nodes (spied K) s = k_list_nodes K (fst s)"
  "k_get_pod (spied K) ns n s = k_get_pod K ns n (fst s)"
  "k_list_pods (spied K) ns sel s = k_list_pods K ns sel (fst s)"
  "k_get_stateful_set (spied K) ns n s = k_get_stateful_set K ns n (fst s)"
  "k_get_deployment (spied K) ns n s = k_get_deployment K ns n (fst s)"
  "k_as_selector (spied K) l = k_as_selector K l"
  by (simp_all add: spied_def)

text \<open>How a logged write ends: the log has grown by its entry.\<close>

lemma logged_result:
  "logged good entry call s = (r, s') \<longleftrightarrow>
     (\<exists>c'. call (fst s) = (r, c') \<and> s' = (c', snd s @ [entry (good r)]))"
  by (cases s) (auto simp: logged_def split: prod.splits)

lemma spied_migration_writes:
  "k_create_migration (spied K) m s = (r, s') \<longleftrightarrow>
     (\<exists>c'. k_create_migration K m (fst s) = (r, c') \<and> s' = (c', snd s @ [WCreateMigration m (good_sum r)]))"
  "k_update_migration (spied K) m s = (r, s') \<longleftrightarrow>
     (\<exists>c'. k_update_migration K m (fst s) = (r, c') \<and> s' = (c', snd s @ [WUpdateMigration m (good_sum r)]))"
  "k_update_status (spied K) m s = (r, s') \<longleftrightarrow>
     (\<exists>c'. k_update_status K m (fst s) = (r, c') \<and> s' = (c', snd s @ [WStatus m (good_sum r)]))"
  by (simp_all add: spied_def logged_result)

lemma spied_workload_writes:
  "k_create_workload (spied K) w s = (r, s') \<longleftrightarrow>
     (\<exists>c'. k_create_workload K w (fst s) = (r, c') \<and> s' = (c', snd s @ [WCreateWorkload w (good_sum r)]))"
  "k_update_workload_status (spied K) w s = (r, s') \<longleftrightarrow>
     (\<exists>c'. k_update_workload_status K w (fst s) = (r, c') \<and> s' = (c', snd s @ [WWorkloadStatus w (good_sum r)]))"
  by (simp_all add: spied_def logged_result)

lemma spied_object_writes:
  "k_patch_node (spied K) o1 o2 s = (e, s') \<longleftrightarrow>
     (\<exists>c'. k_patch_node K o1 o2 (fst s) = (e, c') \<and> s' = (c', snd s @ [WPatchNode o1 o2 (good_opt e)]))"
  "k_delete_pod (spied K) p s = (e, s') \<longleftrightarrow>
     (\<exists>c'. k_delete_pod K p (fst s) = (e, c') \<and> s' = (c', snd s @ [WDeletePod p (good_opt e)]))"
  "k_patch_deployment (spied K) ns n d1 d2 s = (e, s') \<longleftrightarrow>
     (\<exists>c'. k_patch_deployment K ns n d1 d2 (fst s) = (e, c') \<and>
           s' = (c', snd s @ [WPatchDeployment ns n d1 d2 (good_opt e)]))"
  by (simp_all add: spied_def logged_result)

lemmas spied_writes = spied_migration_writes spied_workload_writes spied_object_writes

end
