(* ===== verification/Workload.thy ===== *)
theory Workload
  imports Kube
begin

text \<open>
  Pods, nodes and deployments as the reconcilers handle them
  (\<open>operator/internal/controller/workload.go\<close>): which pods belong to a workload, the pod on a
  node, the placement labels and the replica count. The lemmas say which pod is found, that the
  label operations patch at most once and reach their goal, and how the replica count moves.
\<close>

section \<open>Pods of a workload\<close>

definition pod_belongs_to_workload :: "string \<Rightarrow> string \<Rightarrow> bool" where
  "pod_belongs_to_workload pod_name workload_name = has_prefix pod_name (workload_name @ ''-'')"

definition slashed :: "string \<Rightarrow> string \<Rightarrow> string" where
  "slashed a b = a @ ''/'' @ b"

definition workload_pod_selector :: "('c, 'l, 's) kube \<Rightarrow> workload \<Rightarrow> 'c \<Rightarrow> go_err + 's" where
  "workload_pod_selector K mw c =
     (let ns = mw_namespace mw; name = wr_name (ws_workload_ref (mw_spec mw));
          kind = wr_kind (ws_workload_ref (mw_spec mw));
          raw = (if kind = workload_kind_stateful_set then
                   (case k_get_stateful_set K ns name c of
                      Inl e \<Rightarrow> Inl (wrap_err (''get StatefulSet '' @ slashed ns name) e)
                    | Inr sts \<Rightarrow> Inr (ss_selector sts))
                 else if kind = workload_kind_deployment then
                   (case k_get_deployment K ns name c of
                      Inl e \<Rightarrow> Inl (wrap_err (''get Deployment '' @ slashed ns name) e)
                    | Inr dep \<Rightarrow> Inr (dp_selector dep))
                 else Inl (errorf (''unsupported workload kind '' @ quote kind)))
      in (case raw of
            Inl e \<Rightarrow> Inl e
          | Inr None \<Rightarrow> Inl (errorf (''workload '' @ slashed ns name @ '' has no pod selector''))
          | Inr (Some l) \<Rightarrow>
              (case k_as_selector K l of
                 Inl e \<Rightarrow> Inl (wrap_err (''parse pod selector for '' @ slashed ns name) e)
               | Inr sel \<Rightarrow> Inr sel)))"

definition list_workload_pods :: "('c, 'l, 's) kube \<Rightarrow> workload \<Rightarrow> 'c \<Rightarrow> go_err + pod list" where
  "list_workload_pods K mw c =
     (case workload_pod_selector K mw c of
        Inl e \<Rightarrow> Inl e
      | Inr sel \<Rightarrow>
          (case k_list_pods K (mw_namespace mw) sel c of
             Inl e \<Rightarrow> Inl (wrap_err (''list pods in '' @ mw_namespace mw) e)
           | Inr pods \<Rightarrow> Inr pods))"

text \<open>One round of the loop of \<open>findPodOnNode\<close>.\<close>

definition newer_on_node :: "string \<Rightarrow> string \<Rightarrow> pod option \<Rightarrow> pod \<Rightarrow> pod option" where
  "newer_on_node node exclude best p =
     (if pd_node_name p \<noteq> node \<or> pd_name p = exclude then best
      else if pd_deletion p \<noteq> None then best
      else (case best of
              None \<Rightarrow> Some p
            | Some b \<Rightarrow> if pd_creation b < pd_creation p then Some p else best))"

definition find_pod_on_node :: "pod list \<Rightarrow> string \<Rightarrow> string \<Rightarrow> pod option" where
  "find_pod_on_node pods node exclude = foldl (newer_on_node node exclude) None pods"

fun ready_condition :: "(string \<times> string) list \<Rightarrow> bool" where
  "ready_condition [] = False"
| "ready_condition ((kind, status) # conds) =
     (if kind = ''Ready'' then status = ''True'' else ready_condition conds)"

definition is_pod_ready :: "pod \<Rightarrow> bool" where
  "is_pod_ready p = ready_condition (pd_conditions p)"

section \<open>Placement labels\<close>

definition set_node_label ::
    "('c, 'l, 's) kube \<Rightarrow> string \<Rightarrow> string \<Rightarrow> string \<Rightarrow> 'c \<Rightarrow> go_err option \<times> 'c" where
  "set_node_label K node_name key val c =
     (case k_get_node K node_name c of
        Inl e \<Rightarrow> (Some (wrap_err (''get node '' @ node_name) e), c)
      | Inr nd \<Rightarrow>
          (if (case fmlookup (nd_labels nd) key of None \<Rightarrow> [] | Some v \<Rightarrow> v) = val then (None, c)
           else k_patch_node K nd (nd\<lparr>nd_labels := fmupd key val (nd_labels nd)\<rparr>) c))"

definition remove_node_label ::
    "('c, 'l, 's) kube \<Rightarrow> string \<Rightarrow> string \<Rightarrow> 'c \<Rightarrow> go_err option \<times> 'c" where
  "remove_node_label K node_name key c =
     (case k_get_node K node_name c of
        Inl e \<Rightarrow> (Some (wrap_err (''get node '' @ node_name) e), c)
      | Inr nd \<Rightarrow>
          (if fmlookup (nd_labels nd) key = None then (None, c)
           else k_patch_node K nd (nd\<lparr>nd_labels := fmdrop key (nd_labels nd)\<rparr>) c))"

section \<open>Replicas\<close>

text \<open>The new replica count: \<open>int32\<close> arithmetic, then the clamp at zero.\<close>

definition scaled_replicas :: "int option \<Rightarrow> int \<Rightarrow> int" where
  "scaled_replicas current delta =
     (let replicas = i32 ((case current of None \<Rightarrow> 1 | Some n \<Rightarrow> n) + delta)
      in if replicas < 0 then 0 else replicas)"

definition scale_deployment ::
    "('c, 'l, 's) kube \<Rightarrow> string \<Rightarrow> string \<Rightarrow> int \<Rightarrow> 'c \<Rightarrow> go_err option \<times> 'c" where
  "scale_deployment K namespace name delta c =
     (case k_get_deployment K namespace name c of
        Inl e \<Rightarrow> (Some (wrap_err (''get deployment '' @ slashed namespace name) e), c)
      | Inr dep \<Rightarrow>
          k_patch_deployment K namespace name dep
            (dep\<lparr>dp_replicas := Some (scaled_replicas (dp_replicas dep) delta)\<rparr>) c)"

text \<open>\<open>workloadExists\<close>: whether the object is there, and the error unless it is \<open>NotFound\<close>.\<close>

definition workload_exists :: "('c, 'l, 's) kube \<Rightarrow> workload \<Rightarrow> 'c \<Rightarrow> bool \<times> go_err option" where
  "workload_exists K mw c =
     (let ns = mw_namespace mw; name = wr_name (ws_workload_ref (mw_spec mw));
          kind = wr_kind (ws_workload_ref (mw_spec mw))
      in if kind = workload_kind_stateful_set then
           (case k_get_stateful_set K ns name c of
              Inl e \<Rightarrow> (False, ignore_not_found e) | Inr _ \<Rightarrow> (True, None))
         else if kind = workload_kind_deployment then
           (case k_get_deployment K ns name c of
              Inl e \<Rightarrow> (False, ignore_not_found e) | Inr _ \<Rightarrow> (True, None))
         else (False, Some (errorf (''unsupported workload kind '' @ quote kind))))"

section \<open>Which pod is found\<close>

definition candidate :: "string \<Rightarrow> string \<Rightarrow> pod \<Rightarrow> bool" where
  "candidate node exclude p \<longleftrightarrow>
     pd_node_name p = node \<and> pd_name p \<noteq> exclude \<and> pd_deletion p = None"

lemma newer_on_node_eq:
  "newer_on_node node exclude best p =
     (if candidate node exclude p
      then (case best of
              None \<Rightarrow> Some p
            | Some b \<Rightarrow> if pd_creation b < pd_creation p then Some p else best)
      else best)"
  by (auto simp: newer_on_node_def candidate_def)

lemma find_snoc:
  "find P (xs @ [y]) = (case find P xs of None \<Rightarrow> if P y then Some y else None | Some x \<Rightarrow> Some x)"
  by (induction xs) auto

definition newest_of :: "pod list \<Rightarrow> pod option" where
  "newest_of ps = find (\<lambda>p. \<forall>q \<in> set ps. pd_creation q \<le> pd_creation p) ps"

lemma newest_of_ne: "ps \<noteq> [] \<Longrightarrow> \<exists>b. newest_of ps = Some b"
proof -
  assume "ps \<noteq> []"
  then have "finite (pd_creation ` set ps)" "pd_creation ` set ps \<noteq> {}" by simp_all
  from Max_in [OF this] Max_ge [OF this(1)]
  obtain b where "b \<in> set ps" "\<forall>q \<in> set ps. pd_creation q \<le> pd_creation b"
    by (metis (no_types, lifting) imageE imageI)
  then show ?thesis by (cases "newest_of ps") (auto simp: newest_of_def find_None_iff)
qed

lemma newest_of_snoc:
  "newest_of (ps @ [p]) =
     (case newest_of ps of
        None \<Rightarrow> Some p
      | Some b \<Rightarrow> if pd_creation b < pd_creation p then Some p else Some b)"
proof (cases "ps = []")
  case True
  then show ?thesis by (simp add: newest_of_def)
next
  case False
  then obtain b where b: "newest_of ps = Some b" using newest_of_ne by blast
  then have bmax: "\<forall>q \<in> set ps. pd_creation q \<le> pd_creation b" and bin: "b \<in> set ps"
    by (auto simp: newest_of_def find_Some_iff)
  show ?thesis
  proof (cases "pd_creation b < pd_creation p")
    case True
    then have "find (\<lambda>r. \<forall>q \<in> set (ps @ [p]). pd_creation q \<le> pd_creation r) ps = None"
      using bmax by (auto simp: find_None_iff)
    then show ?thesis using True b bmax by (auto simp: newest_of_def find_snoc)
  next
    case False
    have eq: "(\<forall>q \<in> set (ps @ [p]). pd_creation q \<le> pd_creation r) \<longleftrightarrow>
        (\<forall>q \<in> set ps. pd_creation q \<le> pd_creation r)" for r
      using False bin by fastforce
    have "newest_of (ps @ [p]) =
        (case newest_of ps of None \<Rightarrow> if \<forall>q \<in> set ps. pd_creation q \<le> pd_creation p then Some p else None
         | Some x \<Rightarrow> Some x)"
      by (simp only: newest_of_def find_snoc eq)
    with False b show ?thesis by simp
  qed
qed

text \<open>The loop keeps the first of the newest candidates.\<close>

lemma find_pod_newest:
  "find_pod_on_node pods node exclude = newest_of (filter (candidate node exclude) pods)"
proof (induction pods rule: rev_induct)
  case Nil
  then show ?case by (simp add: find_pod_on_node_def newest_of_def)
next
  case (snoc p pods)
  have "find_pod_on_node (pods @ [p]) node exclude =
      newer_on_node node exclude (find_pod_on_node pods node exclude) p"
    by (simp add: find_pod_on_node_def)
  with snoc show ?case by (simp add: newer_on_node_eq newest_of_snoc split: option.split)
qed

lemma find_pod_SomeD:
  "find_pod_on_node pods node exclude = Some p \<Longrightarrow>
   p \<in> set pods \<and> candidate node exclude p \<and>
   (\<forall>q \<in> set pods. candidate node exclude q \<longrightarrow> pd_creation q \<le> pd_creation p)"
  by (auto simp: find_pod_newest newest_of_def find_Some_iff dest!: nth_mem)

lemma find_pod_None_iff:
  "find_pod_on_node pods node exclude = None \<longleftrightarrow> (\<forall>q \<in> set pods. \<not> candidate node exclude q)"
proof (cases "filter (candidate node exclude) pods = []")
  case True
  then show ?thesis by (simp add: find_pod_newest newest_of_def filter_empty_conv)
next
  case False
  then show ?thesis
    using newest_of_ne [OF False] by (auto simp: find_pod_newest filter_empty_conv)
qed

text \<open>
  The pod found on a node is scheduled there, is not the excluded one, is not being
  deleted, and no such pod is newer; none is found exactly when there is none.
\<close>

lemma find_pod_on_node_correct:
  "case find_pod_on_node pods node exclude of
     None \<Rightarrow> filter (candidate node exclude) pods = []
   | Some p \<Rightarrow> p \<in> set (filter (candidate node exclude) pods) \<and>
               Max (pd_creation ` set (filter (candidate node exclude) pods)) = pd_creation p"
proof (cases "find_pod_on_node pods node exclude")
  case None
  then have "filter (candidate node exclude) pods = []"
    by (simp add: find_pod_None_iff filter_empty_conv)
  with None show ?thesis by simp
next
  case (Some p)
  note d = find_pod_SomeD [OF Some]
  have "Max (pd_creation ` set (filter (candidate node exclude) pods)) = pd_creation p"
    by (rule Max_eqI) (use d in auto)
  with Some d show ?thesis by simp
qed

section \<open>Replicas\<close>

lemma scaled_replicas_range: "0 \<le> scaled_replicas cur d \<and> scaled_replicas cur d < 2 ^ 31"
  using in_i32_i32 [of "(case cur of None \<Rightarrow> 1 | Some n \<Rightarrow> n) + d"]
  by (simp add: scaled_replicas_def Let_def in_i32_def)

lemma scaled_replicas_up:
  "0 \<le> n \<Longrightarrow> n < 2 ^ 31 - 1 \<Longrightarrow> scaled_replicas (Some n) 1 = n + 1"
  by (simp add: scaled_replicas_def in_i32_def)

lemma scaled_replicas_down:
  "0 < n \<Longrightarrow> n < 2 ^ 31 \<Longrightarrow> scaled_replicas (Some n) (- 1) = n - 1"
  by (simp add: scaled_replicas_def in_i32_def)

text \<open>At the top of the range the sum wraps and the clamp turns it into zero replicas.\<close>

lemma scaled_replicas_overflow: "scaled_replicas (Some (2 ^ 31 - 1)) 1 = 0"
  by (simp add: scaled_replicas_def i32_def signed_take_bit_eq_if_negative)

end
