(* ===== verification/NetAddr.thy ===== *)
theory NetAddr
  imports GoStrings
begin

text \<open>
  Transfer endpoints: \<open>net.SplitHostPort\<close> and \<open>net.JoinHostPort\<close> of the standard library, and
  the registry's \<open>joinHostPort\<close>, which turns the address an agent registers with into the
  \<open>host:port\<close> that the source agent dials.
\<close>

section \<open>Splitting and joining\<close>

text \<open>The text after the last colon, with the text before it.\<close>

definition split_last_colon :: "string \<Rightarrow> (string \<times> string) option" where
  "split_last_colon s =
     (if CHR '':'' \<in> set s
      then Some (rev (tl (dropWhile (\<lambda>c. c \<noteq> CHR '':'') (rev s))),
                 rev (takeWhile (\<lambda>c. c \<noteq> CHR '':'') (rev s)))
      else None)"

text \<open>
  \<open>net.SplitHostPort\<close>: \<open>None\<close> is the error. A host in brackets must be followed by the last
  colon of the address; a host without brackets has no colon; no other bracket may occur.
\<close>

definition split_host_port :: "string \<Rightarrow> (string \<times> string) option" where
  "split_host_port s =
     (case split_last_colon s of
        None \<Rightarrow> None
      | Some (host, port) \<Rightarrow>
          if s \<noteq> [] \<and> hd s = CHR ''['' then
            (let inner = takeWhile (\<lambda>c. c \<noteq> CHR '']'') (tl s);
                 rest = dropWhile (\<lambda>c. c \<noteq> CHR '']'') (tl s) in
             if rest = [] then None
             else if host = CHR ''['' # inner @ [CHR '']''] then
               (if CHR ''['' \<in> set inner \<or> CHR ''['' \<in> set port \<or> CHR '']'' \<in> set port then None
                else Some (inner, port))
             else None)
          else if CHR '':'' \<in> set host then None
          else if CHR ''['' \<in> set s \<or> CHR '']'' \<in> set s then None
          else Some (host, port))"

text \<open>\<open>net.JoinHostPort\<close>.\<close>

definition net_join_host_port :: "string \<Rightarrow> string \<Rightarrow> string" where
  "net_join_host_port host port =
     (if CHR '':'' \<in> set host then CHR ''['' # host @ '']:'' @ port else host @ '':'' @ port)"

section \<open>The registry's joinHostPort\<close>

definition default_transfer_port :: int where
  "default_transfer_port = 2486"

definition join_host_port :: "string \<Rightarrow> int \<Rightarrow> string" where
  "join_host_port address port =
     (if address = [] then []
      else (case split_host_port address of
          Some _ \<Rightarrow> address
        | None \<Rightarrow>
            (let p = (if port \<le> 0 then default_transfer_port else port) in
             if CHR '':'' \<in> set address then net_join_host_port address (itoa p)
             else address @ '':'' @ itoa p)))"

definition no_bracket :: "string \<Rightarrow> bool" where
  "no_bracket s \<longleftrightarrow> CHR ''['' \<notin> set s \<and> CHR '']'' \<notin> set s"

lemma split_last_colon_append:
  "CHR '':'' \<notin> set p \<Longrightarrow> split_last_colon (h @ CHR '':'' # p) = Some (h, p)"
proof -
  assume p: "CHR '':'' \<notin> set p"
  have "takeWhile (\<lambda>c. c \<noteq> CHR '':'') (rev p @ CHR '':'' # rev h) = rev p"
    using p by (subst takeWhile_append2) auto
  moreover have "dropWhile (\<lambda>c. c \<noteq> CHR '':'') (rev p @ CHR '':'' # rev h) = CHR '':'' # rev h"
    using p by (subst dropWhile_append2) auto
  ultimately show ?thesis by (simp add: split_last_colon_def)
qed

lemma split_last_colon_None: "split_last_colon s = None \<longleftrightarrow> CHR '':'' \<notin> set s"
  by (simp add: split_last_colon_def)

lemma split_last_colon_Some:
  assumes "split_last_colon s = Some (h, p)"
  shows "s = h @ CHR '':'' # p" and "CHR '':'' \<notin> set p"
proof -
  let ?P = "\<lambda>c. c \<noteq> CHR '':''"
  from assms have colon: "CHR '':'' \<in> set s"
    and h: "h = rev (tl (dropWhile ?P (rev s)))" and p: "p = rev (takeWhile ?P (rev s))"
    by (auto simp: split_last_colon_def split: if_splits)
  have ne: "dropWhile ?P (rev s) \<noteq> []" using colon by simp
  then have "hd (dropWhile ?P (rev s)) = CHR '':''" using hd_dropWhile by blast
  with list.collapse [OF ne] have d: "dropWhile ?P (rev s) = CHR '':'' # rev h"
    by (simp add: h)
  have "rev s = rev p @ CHR '':'' # rev h"
    using takeWhile_dropWhile_id [of ?P "rev s"] by (simp only: d p rev_rev_ident)
  from arg_cong [OF this, of rev] show "s = h @ CHR '':'' # p" by simp
  show "CHR '':'' \<notin> set p" using set_takeWhileD [of _ ?P "rev s"] by (auto simp: p)
qed

text \<open>A plain host and a port, and a bracketed one, split into their parts.\<close>

lemma split_host_port_plain:
  "no_bracket h \<Longrightarrow> CHR '':'' \<notin> set h \<Longrightarrow> no_bracket p \<Longrightarrow> CHR '':'' \<notin> set p \<Longrightarrow>
   split_host_port (h @ '':'' @ p) = Some (h, p)"
  by (cases h) (auto simp: split_host_port_def split_last_colon_append [of p h, simplified]
      split_last_colon_append [of p "[]", simplified] no_bracket_def
      split_last_colon_append [of p "_ # _", simplified])

lemma split_host_port_bracketed:
  assumes "no_bracket h" and "no_bracket p" and "CHR '':'' \<notin> set p"
  shows "split_host_port (CHR ''['' # h @ '']:'' @ p) = Some (h, p)"
proof -
  have tw: "takeWhile (\<lambda>c. c \<noteq> CHR '']'') (h @ CHR '']'' # t) = h" for t
    using assms(1) by (subst takeWhile_append2) (auto simp: no_bracket_def)
  have dw: "dropWhile (\<lambda>c. c \<noteq> CHR '']'') (h @ CHR '']'' # t) = CHR '']'' # t" for t
    using assms(1) by (subst dropWhile_append2) (auto simp: no_bracket_def)
  have "split_last_colon (CHR ''['' # h @ '']:'' @ p) = Some (CHR ''['' # h @ '']'', p)"
    using split_last_colon_append [OF assms(3), of "CHR ''['' # h @ '']''"] by simp
  then show ?thesis using assms by (simp add: split_host_port_def tw dw no_bracket_def)
qed

text \<open>What the registry hands to the source agent is an address that \<open>net.Dial\<close> can split.\<close>

lemma join_host_port_splits:
  assumes "address \<noteq> []" and "no_bracket address"
  shows "split_host_port (join_host_port address port) \<noteq> None"
proof (cases "split_host_port address")
  case None
  let ?p = "itoa (if port \<le> 0 then default_transfer_port else port)"
  have p: "no_bracket ?p" "CHR '':'' \<notin> set ?p" by (simp_all add: no_bracket_def)
  show ?thesis
  proof (cases "CHR '':'' \<in> set address")
    case True
    then show ?thesis
      using assms None split_host_port_bracketed [OF assms(2) p]
      by (simp add: join_host_port_def net_join_host_port_def Let_def)
  next
    case False
    then show ?thesis
      using assms None split_host_port_plain [OF assms(2) False p]
      by (simp add: join_host_port_def Let_def)
  qed
next
  case (Some hp)
  then show ?thesis using assms by (simp add: join_host_port_def)
qed

lemma join_host_port_Nil [simp]: "join_host_port [] port = []"
  by (simp add: join_host_port_def)

lemma join_host_port_eq_Nil [simp]: "join_host_port a port = [] \<longleftrightarrow> a = []"
  by (auto simp: join_host_port_def net_join_host_port_def Let_def split: option.splits)

lemma join_host_port_keeps: "split_host_port a = Some hp \<Longrightarrow> join_host_port a port = a"
  by (simp add: join_host_port_def)

text \<open>
  The endpoint recorded for a destination can be split into host and port again, for any
  host without brackets (an IPv6 literal included), and the address an agent registers, which
  already has its port, is handed out unchanged whatever port comes with it.
\<close>

lemma handed_out_address_dials:
  assumes "host \<noteq> []" and "no_bracket host"
  shows "split_host_port (join_host_port host port) \<noteq> None \<and>
         join_host_port (net_join_host_port host (itoa p)) q = net_join_host_port host (itoa p)"
proof -
  have p: "no_bracket (itoa p)" "CHR '':'' \<notin> set (itoa p)" by (simp_all add: no_bracket_def)
  have "split_host_port (net_join_host_port host (itoa p)) = Some (host, itoa p)"
    using split_host_port_plain [OF assms(2) _ p] split_host_port_bracketed [OF assms(2) p]
    by (simp add: net_join_host_port_def)
  then show ?thesis using join_host_port_splits [OF assms] join_host_port_keeps by blast
qed

text \<open>
  A bracketed IPv6 literal without a port is bracketed once more, and the result no longer
  splits: such an address cannot be dialled.
\<close>

lemma bracketed_literal_breaks:
  "join_host_port ''[::1]'' 2486 = ''[[::1]]:2486'' \<and> split_host_port ''[[::1]]:2486'' = None"
  by code_simp

end
