(* ===== verification/Interfaces.thy ===== *)
theory Interfaces
  imports Main
begin

text \<open>
  Three interfaces that several components provide: a state machine whose steps keep an
  invariant, a refinement of one machine by another, and a self-delimiting codec. Each
  component interprets them on its own operations; what is proved here about runs and streams
  is then a fact about the component.
\<close>

section \<open>Machines and their runs\<close>

locale machine =
  fixes step :: "'s \<Rightarrow> 'e \<Rightarrow> 's"
    and inv :: "'s \<Rightarrow> bool"
    and ok :: "'e \<Rightarrow> bool"
  assumes inv_step: "inv s \<Longrightarrow> ok e \<Longrightarrow> inv (step s e)"
begin

lemma inv_run: "inv s \<Longrightarrow> list_all ok es \<Longrightarrow> inv (foldl step s es)"
  by (induction es arbitrary: s) (simp_all add: inv_step)

lemma inv_prefix: "inv s \<Longrightarrow> list_all ok (es @ fs) \<Longrightarrow> inv (foldl step s es)"
  by (rule inv_run) simp_all

end

text \<open>
  A machine refines an abstract one when the abstraction of a step is the abstract step of the
  abstraction; then the same holds of runs.
\<close>

locale refined_machine = machine step inv ok
  for step :: "'s \<Rightarrow> 'e \<Rightarrow> 's" and inv :: "'s \<Rightarrow> bool" and ok :: "'e \<Rightarrow> bool" +
  fixes abs :: "'s \<Rightarrow> 'a"
    and astep :: "'a \<Rightarrow> 'e \<Rightarrow> 'a"
  assumes abs_step: "inv s \<Longrightarrow> ok e \<Longrightarrow> abs (step s e) = astep (abs s) e"
begin

lemma abs_run: "inv s \<Longrightarrow> list_all ok es \<Longrightarrow> abs (foldl step s es) = foldl astep (abs s) es"
  by (induction es arbitrary: s) (simp_all add: inv_step abs_step)

end

section \<open>Codecs\<close>

locale codec =
  fixes enc :: "'a \<Rightarrow> 'b list"
    and dec :: "'b list \<Rightarrow> ('a \<times> 'b list) option"
    and valid :: "'a \<Rightarrow> bool"
  assumes dec_enc: "valid x \<Longrightarrow> dec (enc x @ rest) = Some (x, rest)"
begin

lemma dec_enc_exact: "valid x \<Longrightarrow> dec (enc x) = Some (x, [])"
  using dec_enc [of x "[]"] by simp

text \<open>An encoding determines its value and where it ends.\<close>

lemma enc_split:
  assumes "valid x" and "valid y" and "enc x @ r = enc y @ s"
  shows "x = y \<and> r = s"
proof -
  from dec_enc [OF assms(1), of r] have "dec (enc y @ s) = Some (x, r)"
    by (simp only: assms(3))
  with dec_enc [OF assms(2), of s] show ?thesis by simp
qed

lemma enc_inj:
  assumes "valid x" and "valid y" and "enc x = enc y"
  shows "x = y"
proof -
  from assms(3) have "enc x @ [] = enc y @ []" by (rule arg_cong)
  from enc_split [OF assms(1,2) this] show ?thesis ..
qed

end

end
