(* ===== verification/Registry.thy ===== *)
theory Registry
  imports NetAddr Interfaces
begin

text \<open>
  The registry of Execution Agents (\<open>operator/pkg/registry/registry.go\<close>): the record of one
  pod, the store keyed by pod name, and its operations. Each operation of the code runs under
  the store's mutex, so it is one atomic step here: a function from the store to the result and
  the new store. The readings of the clock are arguments.
\<close>

section \<open>Data\<close>

record pod_record =
  pr_name :: string
  pr_address :: string
  pr_last_address :: string
  pr_container_port :: int
  pr_node :: string
  pr_workload_namespace :: string
  pr_workload_name :: string
  pr_migrating :: bool
  pr_checkpoint_dir :: string
  pr_checkpoint_ready :: bool
  pr_dest_registered :: bool
  pr_restored :: bool
  pr_process_migration :: bool
  pr_volume_migration :: bool
  pr_sync_rounds :: int
  pr_sync_round :: int
  pr_dest_address :: string
  pr_registrations :: int
  pr_registered_at :: instant
  pr_last_seen :: instant

text \<open>The zero value \<open>PodRecord{}\<close>.\<close>

definition zero_pod_record :: pod_record where
  "zero_pod_record =
     \<lparr>pr_name = [], pr_address = [], pr_last_address = [], pr_container_port = 0, pr_node = [],
      pr_workload_namespace = [], pr_workload_name = [], pr_migrating = False,
      pr_checkpoint_dir = [], pr_checkpoint_ready = False, pr_dest_registered = False,
      pr_restored = False, pr_process_migration = False, pr_volume_migration = False,
      pr_sync_rounds = 0, pr_sync_round = 0, pr_dest_address = [], pr_registrations = 0,
      pr_registered_at = 0, pr_last_seen = 0\<rparr>"

type_synonym registry = "(string, pod_record) fmap"

record arm_info =
  ai_checkpoint_dir :: string
  ai_process_migration :: bool
  ai_volume_migration :: bool
  ai_sync_rounds :: int

section \<open>Operations\<close>

definition new_registry :: registry where
  "new_registry = fmempty"

text \<open>
  \<open>Register\<close> returns the record as it was before the call and whether the pod was unknown. A
  registration of a known pod that is armed marks the destination as up.
\<close>

definition register_update :: "instant \<Rightarrow> string \<Rightarrow> int \<Rightarrow> pod_record \<Rightarrow> pod_record" where
  "register_update now address port rec =
     (let r1 = rec\<lparr>pr_last_address := pr_address rec, pr_address := address\<rparr>;
          r2 = (if port \<noteq> 0 then r1\<lparr>pr_container_port := port\<rparr> else r1);
          r3 = r2\<lparr>pr_registrations := i64 (pr_registrations r2 + 1), pr_last_seen := now\<rparr>
      in if pr_migrating r3
         then r3\<lparr>pr_dest_registered := True, pr_dest_address := join_host_port address port\<rparr>
         else r3)"

definition register ::
    "instant \<Rightarrow> string \<Rightarrow> string \<Rightarrow> int \<Rightarrow> registry \<Rightarrow> (pod_record \<times> bool) \<times> registry" where
  "register now name address port m =
     (case fmlookup m name of
        None \<Rightarrow>
          ((zero_pod_record, True),
           fmupd name
             (zero_pod_record\<lparr>pr_name := name, pr_address := address, pr_container_port := port,
                pr_registrations := 1, pr_registered_at := now, pr_last_seen := now\<rparr>) m)
      | Some rec \<Rightarrow> ((rec, False), fmupd name (register_update now address port rec) m))"

text \<open>\<open>Get\<close>: a snapshot and whether it exists, as an option.\<close>

definition get_record :: "string \<Rightarrow> registry \<Rightarrow> pod_record option" where
  "get_record name m = fmlookup m name"

text \<open>
  \<open>List\<close>: the code collects the map's values in its iteration order and sorts them by their
  \<open>Name\<close> field; on a store whose records carry their own key (the invariant below) that is the
  values in the order of the keys.
\<close>

definition list_records :: "registry \<Rightarrow> pod_record list" where
  "list_records m =
     sort_key pr_name (map (\<lambda>k. the (fmlookup m k)) (sorted_list_of_fset (fmdom m)))"

definition delete_record :: "string \<Rightarrow> registry \<Rightarrow> registry" where
  "delete_record name m = fmdrop name m"

text \<open>\<open>Arm\<close> creates the record of a pod that has not registered yet.\<close>

definition arm_update :: "arm_info \<Rightarrow> pod_record \<Rightarrow> pod_record" where
  "arm_update info rec =
     (let r1 = rec\<lparr>pr_migrating := True\<rparr>;
          r2 = (if ai_checkpoint_dir info \<noteq> []
                then r1\<lparr>pr_checkpoint_dir := ai_checkpoint_dir info\<rparr> else r1)
      in r2\<lparr>pr_process_migration := ai_process_migration info,
            pr_volume_migration := ai_volume_migration info,
            pr_sync_rounds := ai_sync_rounds info\<rparr>)"

definition arm :: "instant \<Rightarrow> string \<Rightarrow> arm_info \<Rightarrow> registry \<Rightarrow> registry" where
  "arm now name info m =
     (let rec = (case fmlookup m name of
                   None \<Rightarrow> zero_pod_record\<lparr>pr_name := name, pr_registered_at := now\<rparr>
                 | Some rec \<Rightarrow> rec)
      in fmupd name (arm_update info rec) m)"

definition disarm_update :: "pod_record \<Rightarrow> pod_record" where
  "disarm_update rec =
     rec\<lparr>pr_migrating := False, pr_checkpoint_ready := False, pr_dest_registered := False,
         pr_restored := False, pr_sync_rounds := 0, pr_sync_round := 0, pr_dest_address := []\<rparr>"

text \<open>Updates of a known pod; an unknown one leaves the store as it is.\<close>

definition update_known :: "string \<Rightarrow> (pod_record \<Rightarrow> pod_record) \<Rightarrow> registry \<Rightarrow> registry" where
  "update_known name f m =
     (case fmlookup m name of None \<Rightarrow> m | Some rec \<Rightarrow> fmupd name (f rec) m)"

definition disarm :: "string \<Rightarrow> registry \<Rightarrow> registry" where
  "disarm name m = update_known name disarm_update m"

definition record_sync_round :: "string \<Rightarrow> int \<Rightarrow> registry \<Rightarrow> bool \<times> registry" where
  "record_sync_round name rnd m =
     (case fmlookup m name of
        None \<Rightarrow> (False, m)
      | Some rec \<Rightarrow>
          (True, fmupd name (if pr_sync_round rec < rnd then rec\<lparr>pr_sync_round := rnd\<rparr> else rec) m))"

text \<open>\<open>NeedsCheckpoint\<close>: (needs, known).\<close>

definition needs_checkpoint :: "string \<Rightarrow> registry \<Rightarrow> bool \<times> bool" where
  "needs_checkpoint name m =
     (case fmlookup m name of None \<Rightarrow> (False, False) | Some rec \<Rightarrow> (pr_migrating rec, True))"

definition mark_checkpoint_ready :: "string \<Rightarrow> string \<Rightarrow> registry \<Rightarrow> bool \<times> registry" where
  "mark_checkpoint_ready name dir m =
     (case fmlookup m name of
        None \<Rightarrow> (False, m)
      | Some rec \<Rightarrow>
          (let r1 = rec\<lparr>pr_checkpoint_ready := True\<rparr>
           in (True, fmupd name (if dir \<noteq> [] then r1\<lparr>pr_checkpoint_dir := dir\<rparr> else r1) m)))"

definition mark_restored :: "string \<Rightarrow> registry \<Rightarrow> bool \<times> registry" where
  "mark_restored name m =
     (case fmlookup m name of
        None \<Rightarrow> (False, m)
      | Some rec \<Rightarrow> (True, fmupd name (rec\<lparr>pr_restored := True\<rparr>) m))"

definition set_workload :: "string \<Rightarrow> string \<Rightarrow> string \<Rightarrow> registry \<Rightarrow> registry" where
  "set_workload pod namespace workload m =
     update_known pod
       (\<lambda>rec. rec\<lparr>pr_workload_namespace := namespace, pr_workload_name := workload\<rparr>) m"

definition set_node :: "string \<Rightarrow> string \<Rightarrow> registry \<Rightarrow> registry" where
  "set_node pod node m = update_known pod (\<lambda>rec. rec\<lparr>pr_node := node\<rparr>) m"

fun seed_records :: "pod_record list \<Rightarrow> registry \<Rightarrow> registry" where
  "seed_records [] m = m"
| "seed_records (rec # recs) m =
     seed_records recs
       (case fmlookup m (pr_name rec) of Some _ \<Rightarrow> m | None \<Rightarrow> fmupd (pr_name rec) rec m)"

section \<open>What each operation does to a lookup\<close>

lemma lookup_new [reg_simps]: "fmlookup new_registry n = None"
  by (simp add: new_registry_def)

lemma lookup_update_known [reg_simps]:
  "fmlookup (update_known name f m) n =
     (if n = name then map_option f (fmlookup m name) else fmlookup m n)"
  by (auto simp: update_known_def split: option.splits)

lemma lookup_register [reg_simps]:
  "fmlookup (snd (register now name address port m)) n =
     (if n = name
      then Some (case fmlookup m name of
             None \<Rightarrow> zero_pod_record\<lparr>pr_name := name, pr_address := address,
                       pr_container_port := port, pr_registrations := 1,
                       pr_registered_at := now, pr_last_seen := now\<rparr>
           | Some rec \<Rightarrow> register_update now address port rec)
      else fmlookup m n)"
  by (auto simp: register_def split: option.splits)

lemma lookup_delete [reg_simps]:
  "fmlookup (delete_record name m) n = (if n = name then None else fmlookup m n)"
  by (auto simp: delete_record_def)

lemma lookup_arm [reg_simps]:
  "fmlookup (arm now name info m) n =
     (if n = name
      then Some (arm_update info
             (case fmlookup m name of
                None \<Rightarrow> zero_pod_record\<lparr>pr_name := name, pr_registered_at := now\<rparr>
              | Some rec \<Rightarrow> rec))
      else fmlookup m n)"
  by (auto simp: arm_def Let_def split: option.splits)

lemma lookup_disarm [reg_simps]:
  "fmlookup (disarm name m) n =
     (if n = name then map_option disarm_update (fmlookup m name) else fmlookup m n)"
  by (simp add: disarm_def lookup_update_known)

lemma lookup_record_sync_round [reg_simps]:
  "fmlookup (snd (record_sync_round name rnd m)) n =
     (if n = name
      then map_option (\<lambda>rec. if pr_sync_round rec < rnd then rec\<lparr>pr_sync_round := rnd\<rparr> else rec)
             (fmlookup m name)
      else fmlookup m n)"
  by (auto simp: record_sync_round_def split: option.splits)

lemma lookup_mark_checkpoint_ready [reg_simps]:
  "fmlookup (snd (mark_checkpoint_ready name dir m)) n =
     (if n = name
      then map_option (\<lambda>rec. let r1 = rec\<lparr>pr_checkpoint_ready := True\<rparr>
                             in if dir \<noteq> [] then r1\<lparr>pr_checkpoint_dir := dir\<rparr> else r1)
             (fmlookup m name)
      else fmlookup m n)"
  by (auto simp: mark_checkpoint_ready_def Let_def split: option.splits)

lemma lookup_mark_restored [reg_simps]:
  "fmlookup (snd (mark_restored name m)) n =
     (if n = name then map_option (\<lambda>rec. rec\<lparr>pr_restored := True\<rparr>) (fmlookup m name)
      else fmlookup m n)"
  by (auto simp: mark_restored_def split: option.splits)

lemma lookup_set_workload [reg_simps]:
  "fmlookup (set_workload pod ns w m) n =
     (if n = pod
      then map_option (\<lambda>rec. rec\<lparr>pr_workload_namespace := ns, pr_workload_name := w\<rparr>) (fmlookup m pod)
      else fmlookup m n)"
  by (simp add: set_workload_def lookup_update_known)

lemma lookup_set_node [reg_simps]:
  "fmlookup (set_node pod node m) n =
     (if n = pod then map_option (\<lambda>rec. rec\<lparr>pr_node := node\<rparr>) (fmlookup m pod)
      else fmlookup m n)"
  by (simp add: set_node_def lookup_update_known)

text \<open>Seeding keeps what is there and takes the first record of each new name.\<close>

lemma lookup_seed_records [reg_simps]:
  "fmlookup (seed_records recs m) n =
     (case fmlookup m n of
        Some rec \<Rightarrow> Some rec
      | None \<Rightarrow> find (\<lambda>rec. pr_name rec = n) recs)"
  by (induction recs arbitrary: m) (auto split: option.splits)

end
