(* ===== verification/History.thy ===== *)
theory History
  imports Prelude
begin

text \<open>
  The migration-metrics module (\<open>operator/pkg/history/history.go\<close>): one record per migration
  with its phase steps and timings, kept in a bounded store, oldest first. Every operation runs
  under the store's mutex and is one step here; the readings of the clock are arguments.
  Sums of milliseconds (\<open>int64\<close> in the code) are integers: each summand is below 2^44 and a
  sum of fewer than 2^19 of them cannot wrap.
\<close>

section \<open>Data\<close>

definition default_limit :: int where
  "default_limit = 100"

definition phase_completed :: string where
  "phase_completed = ''Completed''"

definition phase_failed :: string where
  "phase_failed = ''Failed''"

text \<open>\<open>Accessible\<close>: whether the workload serves traffic during a phase.\<close>

definition accessible :: "string \<Rightarrow> bool" where
  "accessible phase \<longleftrightarrow> phase \<in> {[], ''Pending'', ''Syncing'', ''Completed''}"

record hstep =
  st_phase :: string
  st_message :: string
  st_started_at :: instant
  st_ended_at :: "instant option"
  st_duration_ms :: int
  st_accessible :: bool

record hrecord =
  hr_name :: string
  hr_namespace :: string
  hr_workload :: string
  hr_source_pod :: string
  hr_destination_pod :: string
  hr_source_node :: string
  hr_target_node :: string
  hr_process_migration :: bool
  hr_volume_migration :: bool
  hr_phase :: string
  hr_message :: string
  hr_accessible :: bool
  hr_started_at :: instant
  hr_completed_at :: "instant option"
  hr_total_ms :: int
  hr_downtime_ms :: int
  hr_steps :: "hstep list"
  hr_seeded :: bool

definition zero_hrecord :: hrecord where
  "zero_hrecord =
     \<lparr>hr_name = [], hr_namespace = [], hr_workload = [], hr_source_pod = [],
      hr_destination_pod = [], hr_source_node = [], hr_target_node = [],
      hr_process_migration = False, hr_volume_migration = False, hr_phase = [], hr_message = [],
      hr_accessible = False, hr_started_at = 0, hr_completed_at = None, hr_total_ms = 0,
      hr_downtime_ms = 0, hr_steps = [], hr_seeded = False\<rparr>"

definition hr_terminal :: "hrecord \<Rightarrow> bool" where
  "hr_terminal rec \<longleftrightarrow> hr_phase rec = phase_completed \<or> hr_phase rec = phase_failed"

record transition =
  tr_namespace :: string
  tr_name :: string
  tr_workload :: string
  tr_source_pod :: string
  tr_destination_pod :: string
  tr_source_node :: string
  tr_target_node :: string
  tr_process_migration :: bool
  tr_volume_migration :: bool
  tr_phase :: string
  tr_message :: string
  tr_time :: instant

record store =
  hs_enabled :: bool
  hs_limit :: int
  hs_order :: "string list"
  hs_records :: "(string, hrecord) fmap"

definition record_key :: "string \<Rightarrow> string \<Rightarrow> string" where
  "record_key namespace name = namespace @ ''/'' @ name"

section \<open>Construction and the runtime toggle\<close>

definition new_store :: "bool \<Rightarrow> int \<Rightarrow> store" where
  "new_store enabled limit =
     \<lparr>hs_enabled = enabled, hs_limit = (if limit \<le> 0 then default_limit else limit),
      hs_order = [], hs_records = fmempty\<rparr>"

definition set_enabled :: "bool \<Rightarrow> store \<Rightarrow> store" where
  "set_enabled enabled s = s\<lparr>hs_enabled := enabled\<rparr>"

section \<open>Eviction\<close>

text \<open>
  The condition of the eviction loop on a key. A key of the order without a record would be a
  nil dereference in the code; the store's invariant excludes it.
\<close>

definition evictable :: "(string, hrecord) fmap \<Rightarrow> string \<Rightarrow> bool" where
  "evictable records key =
     (case fmlookup records key of Some rec \<Rightarrow> hr_terminal rec \<or> hr_seeded rec | None \<Rightarrow> False)"

text \<open>The first element that satisfies a predicate, and the list without it.\<close>

fun extract_first :: "('a \<Rightarrow> bool) \<Rightarrow> 'a list \<Rightarrow> ('a \<times> 'a list) option" where
  "extract_first P [] = None"
| "extract_first P (x # xs) =
     (if P x then Some (x, xs)
      else map_option (\<lambda>(y, ys). (y, x # ys)) (extract_first P xs))"

lemma extract_first_SomeD:
  "extract_first P xs = Some (y, ys) \<Longrightarrow>
   \<exists>us vs. xs = us @ y # vs \<and> ys = us @ vs \<and> P y \<and> (\<forall>u \<in> set us. \<not> P u)"
proof (induction xs arbitrary: ys)
  case Nil
  then show ?case by simp
next
  case (Cons x xs)
  show ?case
  proof (cases "P x")
    case True
    with Cons.prems show ?thesis by (intro exI [of _ "[]"] exI [of _ xs]) auto
  next
    case False
    with Cons.prems obtain zs where "extract_first P xs = Some (y, zs)" and ys: "ys = x # zs"
      by auto
    with Cons.IH obtain us vs where "xs = us @ y # vs" "zs = us @ vs" "P y" "\<forall>u \<in> set us. \<not> P u"
      by blast
    with False ys show ?thesis by (intro exI [of _ "x # us"] exI [of _ vs]) auto
  qed
qed

lemma extract_first_None: "extract_first P xs = None \<longleftrightarrow> (\<forall>x \<in> set xs. \<not> P x)"
  by (induction xs) auto

text \<open>\<open>evictLocked\<close>: drop the oldest evictable record until the limit holds or there is none.\<close>

function evict_locked ::
    "int \<Rightarrow> string list \<Rightarrow> (string, hrecord) fmap \<Rightarrow> string list \<times> (string, hrecord) fmap" where
  "evict_locked limit order records =
     (if limit < int (length order)
      then (case extract_first (evictable records) order of
              None \<Rightarrow> (order, records)
            | Some (key, order') \<Rightarrow> evict_locked limit order' (fmdrop key records))
      else (order, records))"
  by pat_completeness auto
termination
  by (relation "measure (\<lambda>(limit, order, records). length order)")
     (auto dest: extract_first_SomeD)

declare evict_locked.simps [simp del]

definition evict :: "store \<Rightarrow> store" where
  "evict s =
     (let (order, records) = evict_locked (hs_limit s) (hs_order s) (hs_records s)
      in s\<lparr>hs_order := order, hs_records := records\<rparr>)"

section \<open>Recording a transition\<close>

text \<open>\<open>downtime\<close>: the time spent in steps without access; an open step runs until now.\<close>

definition step_downtime :: "instant \<Rightarrow> hstep \<Rightarrow> int" where
  "step_downtime now st =
     (if st_accessible st then 0
      else (case st_ended_at st of
              Some _ \<Rightarrow> st_duration_ms st
            | None \<Rightarrow> milliseconds (time_sub now (st_started_at st))))"

definition downtime :: "instant \<Rightarrow> hstep list \<Rightarrow> int" where
  "downtime now steps = foldl (\<lambda>ms st. ms + step_downtime now st) 0 steps"

text \<open>The identifying fields, refreshed on every transition.\<close>

definition refresh_record :: "transition \<Rightarrow> hrecord \<Rightarrow> hrecord" where
  "refresh_record tr rec =
     (let r1 = rec\<lparr>hr_workload := tr_workload tr, hr_source_node := tr_source_node tr,
                   hr_target_node := tr_target_node tr,
                   hr_process_migration := tr_process_migration tr,
                   hr_volume_migration := tr_volume_migration tr\<rparr>;
          r2 = (if tr_source_pod tr \<noteq> [] then r1\<lparr>hr_source_pod := tr_source_pod tr\<rparr> else r1);
          r3 = (if tr_destination_pod tr \<noteq> []
                then r2\<lparr>hr_destination_pod := tr_destination_pod tr\<rparr> else r2)
      in r3\<lparr>hr_phase := tr_phase tr, hr_message := tr_message tr,
            hr_accessible := accessible (tr_phase tr)\<rparr>)"

definition close_step :: "instant \<Rightarrow> hstep \<Rightarrow> hstep" where
  "close_step t st =
     st\<lparr>st_ended_at := Some t, st_duration_ms := milliseconds (time_sub t (st_started_at st))\<rparr>"

definition open_step :: "transition \<Rightarrow> hstep" where
  "open_step tr =
     \<lparr>st_phase = tr_phase tr, st_message = tr_message tr, st_started_at = tr_time tr,
      st_ended_at = None, st_duration_ms = 0, st_accessible = accessible (tr_phase tr)\<rparr>"

definition has_open_step :: "hrecord \<Rightarrow> bool" where
  "has_open_step rec \<longleftrightarrow> hr_steps rec \<noteq> [] \<and> st_ended_at (last (hr_steps rec)) = None"

text \<open>What follows once the previous step is closed: finish the record or open a step.\<close>

definition enter_phase :: "instant \<Rightarrow> transition \<Rightarrow> hrecord \<Rightarrow> hrecord" where
  "enter_phase now tr rec =
     (if hr_terminal rec
      then rec\<lparr>hr_completed_at := Some (tr_time tr),
               hr_total_ms := milliseconds (time_sub (tr_time tr) (hr_started_at rec)),
               hr_downtime_ms := downtime now (hr_steps rec)\<rparr>
      else rec\<lparr>hr_steps := hr_steps rec @ [open_step tr]\<rparr>)"

definition apply_transition :: "instant \<Rightarrow> transition \<Rightarrow> hrecord \<Rightarrow> hrecord" where
  "apply_transition now tr rec0 =
     (let rec = refresh_record tr rec0 in
      if has_open_step rec
      then (let st = last (hr_steps rec); earlier = butlast (hr_steps rec) in
            if st_phase st = tr_phase tr
            then rec\<lparr>hr_steps := earlier @ [st\<lparr>st_message := tr_message tr\<rparr>]\<rparr>
            else enter_phase now tr
                   (rec\<lparr>hr_steps := earlier @ [close_step (tr_time tr) st]\<rparr>))
      else enter_phase now tr rec)"

text \<open>
  \<open>RecordTransition\<close>: \<open>now\<close> is read when the transition carries no time, \<open>now'\<close> inside
  \<open>downtime\<close>. The record is updated through its pointer, so the update reaches the store when
  the record is still in it.
\<close>

definition record_transition :: "instant \<Rightarrow> instant \<Rightarrow> transition \<Rightarrow> store \<Rightarrow> store" where
  "record_transition now now' tr0 s0 =
     (if \<not> hs_enabled s0 then s0
      else
        (let tr = (if time_is_zero (tr_time tr0) then tr0\<lparr>tr_time := now\<rparr> else tr0);
             key = record_key (tr_namespace tr) (tr_name tr);
             s = (case fmlookup (hs_records s0) key of
                    Some _ \<Rightarrow> s0
                  | None \<Rightarrow>
                      evict (s0\<lparr>hs_records := fmupd key
                                  (zero_hrecord\<lparr>hr_name := tr_name tr, hr_namespace := tr_namespace tr,
                                     hr_started_at := tr_time tr\<rparr>) (hs_records s0),
                                hs_order := hs_order s0 @ [key]\<rparr>))
         in (case fmlookup (hs_records s) key of
               None \<Rightarrow> s
             | Some rec \<Rightarrow> s\<lparr>hs_records := fmupd key (apply_transition now' tr rec) (hs_records s)\<rparr>)))"

section \<open>Seeding\<close>

definition seeded_record :: "hrecord \<Rightarrow> hrecord" where
  "seeded_record rec =
     (let r1 = rec\<lparr>hr_seeded := True, hr_accessible := accessible (hr_phase rec)\<rparr>
      in (case hr_completed_at r1 of
            Some t \<Rightarrow> r1\<lparr>hr_total_ms := milliseconds (time_sub t (hr_started_at r1))\<rparr>
          | None \<Rightarrow> r1))"

definition hrecord_key :: "hrecord \<Rightarrow> string" where
  "hrecord_key rec = record_key (hr_namespace rec) (hr_name rec)"

fun seed_loop :: "hrecord list \<Rightarrow> store \<Rightarrow> store" where
  "seed_loop [] s = s"
| "seed_loop (rec # recs) s =
     seed_loop recs
       (case fmlookup (hs_records s) (hrecord_key rec) of
          Some _ \<Rightarrow> s
        | None \<Rightarrow> s\<lparr>hs_records := fmupd (hrecord_key rec) (seeded_record rec) (hs_records s),
                     hs_order := hs_order s @ [hrecord_key rec]\<rparr>)"

definition seed_history :: "hrecord list \<Rightarrow> store \<Rightarrow> store" where
  "seed_history recs s = evict (seed_loop recs s)"

section \<open>Snapshot\<close>

text \<open>
  A copy of every record, oldest first; the durations of one in flight are computed up to \<open>now\<close>
  (\<open>now'\<close> is the reading inside \<open>downtime\<close> for that record).
\<close>

definition live_record :: "instant \<Rightarrow> instant \<Rightarrow> hrecord \<Rightarrow> hrecord" where
  "live_record now now' rec =
     (if \<not> hr_terminal rec \<and> \<not> time_is_zero (hr_started_at rec)
      then (let steps = (if has_open_step rec
                         then butlast (hr_steps rec) @
                              [(last (hr_steps rec))\<lparr>st_duration_ms :=
                                 milliseconds (time_sub now (st_started_at (last (hr_steps rec))))\<rparr>]
                         else hr_steps rec)
            in rec\<lparr>hr_steps := steps,
                   hr_total_ms := milliseconds (time_sub now (hr_started_at rec)),
                   hr_downtime_ms := downtime now' steps\<rparr>)
      else rec)"

definition snapshot :: "instant \<Rightarrow> (string \<Rightarrow> instant) \<Rightarrow> store \<Rightarrow> hrecord list" where
  "snapshot now clock s =
     map (\<lambda>key. live_record now (clock key) (the (fmlookup (hs_records s) key))) (hs_order s)"

section \<open>Summary\<close>

record 'f summary =
  su_total :: int
  su_active :: int
  su_completed :: int
  su_failed :: int
  su_success_rate :: 'f
  su_avg_total_ms :: int
  su_avg_downtime_ms :: int
  su_phase_avg_ms :: "(string, int) fmap"

text \<open>The loop variables of \<open>Summarize\<close>.\<close>

record sum_acc =
  sa_total :: int
  sa_active :: int
  sa_completed :: int
  sa_failed :: int
  sa_finished :: int
  sa_total_ms :: int
  sa_downtime_ms :: int
  sa_phases :: "(string, int \<times> int) fmap"

definition zero_acc :: sum_acc where
  "zero_acc =
     \<lparr>sa_total = 0, sa_active = 0, sa_completed = 0, sa_failed = 0, sa_finished = 0,
      sa_total_ms = 0, sa_downtime_ms = 0, sa_phases = fmempty\<rparr>"

definition acc_step :: "(string, int \<times> int) fmap \<Rightarrow> hstep \<Rightarrow> (string, int \<times> int) fmap" where
  "acc_step totals st =
     (case st_ended_at st of
        None \<Rightarrow> totals
      | Some _ \<Rightarrow>
          (let (total, count) = (case fmlookup totals (st_phase st) of None \<Rightarrow> (0, 0) | Some a \<Rightarrow> a)
           in fmupd (st_phase st) (total + st_duration_ms st, count + 1) totals))"

definition acc_record :: "sum_acc \<Rightarrow> hrecord \<Rightarrow> sum_acc" where
  "acc_record a rec =
     (let a1 = a\<lparr>sa_total := sa_total a + 1\<rparr>;
          a2 = (if hr_phase rec = phase_completed then a1\<lparr>sa_completed := sa_completed a1 + 1\<rparr>
                else if hr_phase rec = phase_failed then a1\<lparr>sa_failed := sa_failed a1 + 1\<rparr>
                else a1\<lparr>sa_active := sa_active a1 + 1\<rparr>);
          a3 = (if hr_terminal rec
                then a2\<lparr>sa_finished := sa_finished a2 + 1,
                        sa_total_ms := sa_total_ms a2 + hr_total_ms rec,
                        sa_downtime_ms := sa_downtime_ms a2 + hr_downtime_ms rec\<rparr>
                else a2)
      in a3\<lparr>sa_phases := foldl acc_step (sa_phases a3) (hr_steps rec)\<rparr>)"

text \<open>\<open>fdiv\<close> is the \<open>float64\<close> quotient of two integers.\<close>

definition summarize :: "(int \<Rightarrow> int \<Rightarrow> 'f::zero) \<Rightarrow> hrecord list \<Rightarrow> 'f summary" where
  "summarize fdiv records =
     (let a = foldl acc_record zero_acc records;
          done = sa_completed a + sa_failed a
      in \<lparr>su_total = sa_total a, su_active = sa_active a, su_completed = sa_completed a,
          su_failed = sa_failed a,
          su_success_rate = (if 0 < done then fdiv (sa_completed a) done else 0),
          su_avg_total_ms = (if 0 < sa_finished a then sa_total_ms a sdiv sa_finished a else 0),
          su_avg_downtime_ms = (if 0 < sa_finished a then sa_downtime_ms a sdiv sa_finished a else 0),
          su_phase_avg_ms = fmmap (\<lambda>(total, count). total sdiv count) (sa_phases a)\<rparr>)"

end
