(* ===== verification/MigrationController.thy ===== *)
theory MigrationController
  imports Workload Registry History
begin

text \<open>
  The reconciler of Migration objects (\<open>operator/internal/controller/migration_controller.go\<close>).
  One pass of \<open>Reconcile\<close> is a function of the API client, the clock, the name of the object and
  the world: the cluster, the registry and the history store if it is wired. A handler gives the
  outcome it returns (result and error) with the new world. After a successful update the object
  in hand is the one the API server answered, as the client library decodes it in place.
\<close>

section \<open>World, clock and outcomes\<close>

record 'c world =
  w_cluster :: 'c
  w_registry :: registry
  w_history :: "store option"

text \<open>
  The readings of the clock in one pass, one for each place that takes one, and what the agents do
  to the registry while the pass goes on after the deletion of the source pod: its preStop hook
  asks \<open>/remove\<close> from then on, and requests do not wait for the pass to end.
\<close>

record mig_clock =
  ck_expired :: instant
  ck_start :: instant
  ck_arm :: instant
  ck_done :: instant
  ck_phase :: instant
  ck_record :: instant
  ck_downtime :: instant
  ck_agents :: "registry \<Rightarrow> registry"

record ctrl_result =
  cr_requeue :: bool
  cr_requeue_after :: duration

type_synonym outcome = "ctrl_result \<times> go_err option"

definition no_result :: ctrl_result where
  "no_result = \<lparr>cr_requeue = False, cr_requeue_after = 0\<rparr>"

definition requeue_after :: "duration \<Rightarrow> outcome" where
  "requeue_after d = (no_result\<lparr>cr_requeue_after := d\<rparr>, None)"

definition requeue_now :: outcome where
  "requeue_now = (no_result\<lparr>cr_requeue := True\<rparr>, None)"

definition stop :: outcome where
  "stop = (no_result, None)"

definition give_error :: "go_err \<Rightarrow> outcome" where
  "give_error e = (no_result, Some e)"

definition migration_finalizer :: string where
  "migration_finalizer = ''mycedrive.io/migration-cleanup''"

definition requeue_interval :: duration where
  "requeue_interval = 3 * second"

definition phase_timeout :: duration where
  "phase_timeout = 10 * minute"

definition on_cluster :: "('c \<Rightarrow> 'r \<times> 'c) \<Rightarrow> 'c world \<Rightarrow> 'r \<times> 'c world" where
  "on_cluster f w = (case f (w_cluster w) of (r, c) \<Rightarrow> (r, w\<lparr>w_cluster := c\<rparr>))"

definition on_registry :: "(registry \<Rightarrow> registry) \<Rightarrow> 'c world \<Rightarrow> 'c world" where
  "on_registry f w = w\<lparr>w_registry := f (w_registry w)\<rparr>"

definition on_status :: "(migration_status \<Rightarrow> migration_status) \<Rightarrow> migration \<Rightarrow> migration" where
  "on_status f mig = mig\<lparr>mg_status := f (mg_status mig)\<rparr>"

section \<open>Shared steps\<close>

definition transition_of :: "migration \<Rightarrow> instant \<Rightarrow> transition" where
  "transition_of mig at =
     \<lparr>tr_namespace = mg_namespace mig, tr_name = mg_name mig,
      tr_workload = ms_workload_name (mg_spec mig),
      tr_source_pod = mst_source_pod (mg_status mig),
      tr_destination_pod = mst_destination_pod (mg_status mig),
      tr_source_node = ms_source_node (mg_spec mig), tr_target_node = ms_target_node (mg_spec mig),
      tr_process_migration = mst_process_migration (mg_status mig),
      tr_volume_migration = mst_volume_migration (mg_status mig),
      tr_phase = phase_string (mst_phase (mg_status mig)), tr_message = mst_message (mg_status mig),
      tr_time = at\<rparr>"

definition record_history :: "mig_clock \<Rightarrow> migration \<Rightarrow> instant \<Rightarrow> 'c world \<Rightarrow> 'c world" where
  "record_history ck mig at w =
     w\<lparr>w_history := map_option (record_transition (ck_record ck) (ck_downtime ck) (transition_of mig at))
                      (w_history w)\<rparr>"

definition in_phase :: "mig_clock \<Rightarrow> phase \<Rightarrow> string \<Rightarrow> migration \<Rightarrow> migration" where
  "in_phase ck phase msg mig =
     on_status (\<lambda>s. s\<lparr>mst_phase := phase, mst_message := msg,
                       mst_last_transition_time := Some (ck_phase ck)\<rparr>) mig"

definition set_phase ::
    "('c, 'l, 's) kube \<Rightarrow> mig_clock \<Rightarrow> migration \<Rightarrow> phase \<Rightarrow> string \<Rightarrow> 'c world \<Rightarrow> outcome \<times> 'c world" where
  "set_phase K ck mig phase msg w =
     (case on_cluster (k_update_status K (in_phase ck phase msg mig)) w of
        (Inl e, w') \<Rightarrow> (give_error e, w')
      | (Inr mig', w') \<Rightarrow>
          (if is_terminal (mg_status mig') then stop else requeue_after requeue_interval,
           record_history ck mig' (ck_phase ck) w'))"

definition clear_registry_flags :: "migration \<Rightarrow> 'c world \<Rightarrow> 'c world" where
  "clear_registry_flags mig w =
     (let src = mst_source_pod (mg_status mig); dst = mst_destination_pod (mg_status mig);
          w1 = (if src \<noteq> [] then on_registry (disarm src) w else w)
      in if dst \<noteq> [] \<and> dst \<noteq> src then on_registry (disarm dst) w1 else w1)"

definition with_completion :: "mig_clock \<Rightarrow> migration \<Rightarrow> migration" where
  "with_completion ck mig = on_status (\<lambda>s. s\<lparr>mst_completion_time := Some (ck_done ck)\<rparr>) mig"

definition fail ::
    "('c, 'l, 's) kube \<Rightarrow> mig_clock \<Rightarrow> migration \<Rightarrow> string \<Rightarrow> 'c world \<Rightarrow> outcome \<times> 'c world" where
  "fail K ck mig msg w =
     set_phase K ck (with_completion ck mig) Failed msg (clear_registry_flags mig w)"

definition requeue_with_message ::
    "('c, 'l, 's) kube \<Rightarrow> migration \<Rightarrow> string \<Rightarrow> 'c world \<Rightarrow> outcome \<times> 'c world" where
  "requeue_with_message K mig msg w =
     (if mst_message (mg_status mig) \<noteq> msg
      then (case on_cluster (k_update_status K (on_status (\<lambda>s. s\<lparr>mst_message := msg\<rparr>) mig)) w of
              (Inl e, w') \<Rightarrow>
                (if is_conflict e then requeue_after requeue_interval else give_error e, w')
            | (Inr _, w') \<Rightarrow> (requeue_after requeue_interval, w'))
      else (requeue_after requeue_interval, w))"

definition phase_expired :: "mig_clock \<Rightarrow> migration \<Rightarrow> bool" where
  "phase_expired ck mig \<longleftrightarrow>
     mst_phase (mg_status mig) \<noteq> NoPhase \<and> \<not> is_terminal (mg_status mig) \<and>
     (case mst_last_transition_time (mg_status mig) of
        None \<Rightarrow> False
      | Some t \<Rightarrow> phase_timeout < time_sub (ck_expired ck) t)"

definition expiry_message :: "migration \<Rightarrow> string" where
  "expiry_message mig =
     ''phase '' @ phase_string (mst_phase (mg_status mig)) @ '' timed out after 10m0s''"

section \<open>The handlers\<close>

text \<open>The loop of \<open>initialize\<close> over the two nodes: the error that stops it, if any.\<close>

fun missing_node :: "('c, 'l, 's) kube \<Rightarrow> string list \<Rightarrow> 'c \<Rightarrow> (string \<times> go_err) option" where
  "missing_node K [] c = None"
| "missing_node K (n # ns) c =
     (case k_get_node K n c of Inl e \<Rightarrow> Some (n, e) | Inr _ \<Rightarrow> missing_node K ns c)"

definition initialize ::
    "('c, 'l, 's) kube \<Rightarrow> mig_clock \<Rightarrow> migration \<Rightarrow> 'c world \<Rightarrow> outcome \<times> 'c world" where
  "initialize K ck mig w =
     (let spec = mg_spec mig in
      case missing_node K [ms_source_node spec, ms_target_node spec] (w_cluster w) of
        Some (n, e) \<Rightarrow>
          (if is_not_found e then fail K ck mig (''node '' @ quote n @ '' not found'') w
           else (give_error e, w))
      | None \<Rightarrow>
          (if ms_source_node spec = ms_target_node spec
           then fail K ck mig ''sourceNode and targetNode must differ'' w
           else set_phase K ck (on_status (\<lambda>s. s\<lparr>mst_start_time := Some (ck_start ck)\<rparr>) mig)
                  Pending ''preparing destination placement'' w))"

text \<open>Step 1 of \<open>reconcilePending\<close>: the source pod, and the settings frozen into the status.\<close>

definition source_chosen :: "workload \<Rightarrow> pod \<Rightarrow> migration \<Rightarrow> migration" where
  "source_chosen mw source mig =
     on_status (\<lambda>s.
       (let s1 = s\<lparr>mst_source_pod := pd_name source,
                   mst_checkpoint_dir := effective_checkpoint_dir mw,
                   mst_process_migration := process_migration_enabled mw,
                   mst_volume_migration := volume_migration_enabled mw,
                   mst_sync_rounds := effective_pre_sync_rounds mw\<rparr>
        in if wr_kind (ws_workload_ref (mw_spec mw)) = workload_kind_stateful_set
           then s1\<lparr>mst_destination_pod := pd_name source\<rparr> else s1)) mig"

definition choose_source ::
    "('c, 'l, 's) kube \<Rightarrow> migration \<Rightarrow> workload \<Rightarrow> pod \<Rightarrow> 'c world \<Rightarrow> outcome \<times> 'c world" where
  "choose_source K mig mw source w =
     (case on_cluster (k_update_status K (source_chosen mw source mig)) w of
        (Inl e, w') \<Rightarrow> (give_error e, w')
      | (Inr _, w') \<Rightarrow> (requeue_now, w'))"

definition resolve_source ::
    "('c, 'l, 's) kube \<Rightarrow> mig_clock \<Rightarrow> migration \<Rightarrow> workload \<Rightarrow> 'c world \<Rightarrow> outcome \<times> 'c world" where
  "resolve_source K ck mig mw w =
     (let pod_name = ms_pod_name (mg_spec mig); node = ms_source_node (mg_spec mig) in
      case list_workload_pods K mw (w_cluster w) of
        Inl e \<Rightarrow> (give_error e, w)
      | Inr pods \<Rightarrow>
          (if pod_name \<noteq> []
           then (case find (\<lambda>p. pd_name p = pod_name) pods of
                   None \<Rightarrow>
                     fail K ck mig (''pod '' @ quote pod_name @ '' not found for workload '' @
                       quote (mw_name mw)) w
                 | Some source \<Rightarrow>
                     (if pd_node_name source \<noteq> node
                      then fail K ck mig (''pod '' @ quote (pd_name source) @ '' runs on node '' @
                             quote (pd_node_name source) @ '', not sourceNode '' @ quote node) w
                      else choose_source K mig mw source w))
           else (case find_pod_on_node pods node [] of
                   None \<Rightarrow>
                     requeue_with_message K mig (''waiting for a pod of workload '' @
                       quote (mw_name mw) @ '' on node '' @ quote node) w
                 | Some source \<Rightarrow> choose_source K mig mw source w)))"

text \<open>Step 2: the placement label goes to the target and leaves the source.\<close>

definition steer ::
    "('c, 'l, 's) kube \<Rightarrow> migration \<Rightarrow> workload \<Rightarrow> 'c world \<Rightarrow> go_err option \<times> 'c world" where
  "steer K mig mw w =
     (let (key, val) = effective_placement_label mw in
      case on_cluster (set_node_label K (ms_target_node (mg_spec mig)) key val) w of
        (Some e, w') \<Rightarrow> (Some e, w')
      | (None, w') \<Rightarrow> on_cluster (remove_node_label K (ms_source_node (mg_spec mig)) key) w')"

text \<open>Step 3: the registry learns of the migration before anything stops.\<close>

definition arm_info_of :: "migration \<Rightarrow> arm_info" where
  "arm_info_of mig =
     (let s = mg_status mig in
      \<lparr>ai_checkpoint_dir = mst_checkpoint_dir s, ai_process_migration = mst_process_migration s,
       ai_volume_migration = mst_volume_migration s, ai_sync_rounds = mst_sync_rounds s\<rparr>)"

definition arm_source :: "mig_clock \<Rightarrow> migration \<Rightarrow> 'c world \<Rightarrow> 'c world" where
  "arm_source ck mig w =
     (let src = mst_source_pod (mg_status mig) in
      on_registry (set_node src (ms_source_node (mg_spec mig)))
        (on_registry (arm (ck_arm ck) src (arm_info_of mig)) w))"

text \<open>
  Step 4: the destination replica of a Deployment. \<open>Inl\<close> is a return of the handler, \<open>Inr\<close> the
  object to go on with.
\<close>

definition scale_up ::
    "('c, 'l, 's) kube \<Rightarrow> migration \<Rightarrow> workload \<Rightarrow> 'c world \<Rightarrow> outcome \<times> 'c world" where
  "scale_up K mig mw w =
     (case on_cluster (scale_deployment K (mw_namespace mw) (wr_name (ws_workload_ref (mw_spec mw))) 1) w of
        (Some e, w1) \<Rightarrow> (give_error e, w1)
      | (None, w1) \<Rightarrow>
          (case on_cluster (k_update_status K (on_status (\<lambda>s. s\<lparr>mst_scaled_up := True\<rparr>) mig)) w1 of
             (Inl e, w2) \<Rightarrow> (give_error e, w2)
           | (Inr _, w2) \<Rightarrow> (requeue_after requeue_interval, w2)))"

definition find_destination ::
    "('c, 'l, 's) kube \<Rightarrow> migration \<Rightarrow> workload \<Rightarrow> 'c world \<Rightarrow> (outcome + migration) \<times> 'c world" where
  "find_destination K mig mw w =
     (case list_workload_pods K mw (w_cluster w) of
        Inl e \<Rightarrow> (Inl (give_error e), w)
      | Inr pods \<Rightarrow>
          (case find_pod_on_node pods (ms_target_node (mg_spec mig)) (mst_source_pod (mg_status mig)) of
             None \<Rightarrow>
               (let (out, w') = requeue_with_message K mig
                  (''waiting for destination pod on node '' @ quote (ms_target_node (mg_spec mig))) w
                in (Inl out, w'))
           | Some dest \<Rightarrow>
               (case on_cluster (k_update_status K
                       (on_status (\<lambda>s. s\<lparr>mst_destination_pod := pd_name dest\<rparr>) mig)) w of
                  (Inl e, w') \<Rightarrow> (Inl (give_error e), w')
                | (Inr mig', w') \<Rightarrow> (Inr mig', w'))))"

definition prepare_destination ::
    "('c, 'l, 's) kube \<Rightarrow> migration \<Rightarrow> workload \<Rightarrow> 'c world \<Rightarrow> (outcome + migration) \<times> 'c world" where
  "prepare_destination K mig mw w =
     (if wr_kind (ws_workload_ref (mw_spec mw)) \<noteq> workload_kind_deployment then (Inr mig, w)
      else if \<not> mst_scaled_up (mg_status mig)
      then (let (out, w') = scale_up K mig mw w in (Inl out, w'))
      else if mst_destination_pod (mg_status mig) = [] then find_destination K mig mw w
      else (Inr mig, w))"

definition delete_source ::
    "('c, 'l, 's) kube \<Rightarrow> migration \<Rightarrow> 'c world \<Rightarrow> go_err option \<times> 'c world" where
  "delete_source K mig w =
     (case k_get_pod K (mg_namespace mig) (mst_source_pod (mg_status mig)) (w_cluster w) of
        Inl e \<Rightarrow> (if is_not_found e then None else Some e, w)
      | Inr p \<Rightarrow>
          (if pd_deletion p \<noteq> None then (None, w)
           else (case on_cluster (k_delete_pod K p) w of
                   (Some e, w') \<Rightarrow> (if is_not_found e then None else Some e, w')
                 | (None, w') \<Rightarrow> (None, w'))))"

definition delete_source_and_advance ::
    "('c, 'l, 's) kube \<Rightarrow> mig_clock \<Rightarrow> migration \<Rightarrow> 'c world \<Rightarrow> outcome \<times> 'c world" where
  "delete_source_and_advance K ck mig w =
     (let (e, w1) = delete_source K mig w;
          w' = on_registry (ck_agents ck) w1
      in case e of
           Some err \<Rightarrow> (give_error err, w')
         | None \<Rightarrow>
             (if \<not> mst_process_migration (mg_status mig) \<and> \<not> mst_volume_migration (mg_status mig)
              then set_phase K ck mig Restoring
                     ''no state mechanisms enabled; waiting for destination pod readiness'' w'
              else set_phase K ck mig Checkpointing
                     ''waiting for source Execution Agent to produce its final checkpoint'' w'))"

text \<open>Steps 5 and 6: pre-copy when rounds are requested, else the downtime begins.\<close>

definition leave_pending ::
    "('c, 'l, 's) kube \<Rightarrow> mig_clock \<Rightarrow> migration \<Rightarrow> 'c world \<Rightarrow> outcome \<times> 'c world" where
  "leave_pending K ck mig w =
     (if 0 < mst_sync_rounds (mg_status mig)
      then set_phase K ck mig Syncing
             (''pre-downtime overlay sync: waiting for '' @ itoa (mst_sync_rounds (mg_status mig)) @
              '' round(s) from source Execution Agent'') w
      else delete_source_and_advance K ck mig w)"

definition reconcile_pending ::
    "('c, 'l, 's) kube \<Rightarrow> mig_clock \<Rightarrow> migration \<Rightarrow> workload \<Rightarrow> 'c world \<Rightarrow> outcome \<times> 'c world" where
  "reconcile_pending K ck mig mw w =
     (if mst_source_pod (mg_status mig) = [] then resolve_source K ck mig mw w
      else (case steer K mig mw w of
              (Some e, w1) \<Rightarrow> (give_error e, w1)
            | (None, w1) \<Rightarrow>
                (case prepare_destination K mig mw (arm_source ck mig w1) of
                   (Inl out, w2) \<Rightarrow> (out, w2)
                 | (Inr mig', w2) \<Rightarrow> leave_pending K ck mig' w2)))"

text \<open>
  The status update of \<open>reconcileSyncing\<close>: a conflict is ignored, and then the object in hand
  stays the one that was sent.
\<close>

definition report_sync_round ::
    "('c, 'l, 's) kube \<Rightarrow> migration \<Rightarrow> pod_record \<Rightarrow> 'c world \<Rightarrow> (go_err + migration) \<times> 'c world" where
  "report_sync_round K mig rec w =
     (if i32 (pr_sync_round rec) \<noteq> mst_sync_round (mg_status mig)
      then (let mig1 = on_status (\<lambda>s. s\<lparr>mst_sync_round := i32 (pr_sync_round rec)\<rparr>) mig in
            case on_cluster (k_update_status K mig1) w of
              (Inl e, w') \<Rightarrow> (if is_conflict e then Inr mig1 else Inl e, w')
            | (Inr mig', w') \<Rightarrow> (Inr mig', w'))
      else (Inr mig, w))"

definition reconcile_syncing ::
    "('c, 'l, 's) kube \<Rightarrow> mig_clock \<Rightarrow> migration \<Rightarrow> 'c world \<Rightarrow> outcome \<times> 'c world" where
  "reconcile_syncing K ck mig w =
     (case get_record (mst_source_pod (mg_status mig)) (w_registry w) of
        None \<Rightarrow> (requeue_after requeue_interval, w)
      | Some rec \<Rightarrow>
          (case report_sync_round K mig rec w of
             (Inl e, w') \<Rightarrow> (give_error e, w')
           | (Inr mig', w') \<Rightarrow>
               (if pr_sync_round rec < pr_sync_rounds rec then (requeue_after requeue_interval, w')
                else delete_source_and_advance K ck mig' w')))"

definition reconcile_checkpointing ::
    "('c, 'l, 's) kube \<Rightarrow> mig_clock \<Rightarrow> migration \<Rightarrow> 'c world \<Rightarrow> outcome \<times> 'c world" where
  "reconcile_checkpointing K ck mig w =
     (if (case get_record (mst_source_pod (mg_status mig)) (w_registry w) of
            None \<Rightarrow> False | Some rec \<Rightarrow> pr_checkpoint_ready rec)
      then set_phase K ck mig Transferring
             ''checkpoint written; transferring checkpoint and overlay layers to destination'' w
      else (requeue_after requeue_interval, w))"

definition destination_up :: "migration \<Rightarrow> workload \<Rightarrow> registry \<Rightarrow> bool" where
  "destination_up mig mw m =
     (if wr_kind (ws_workload_ref (mw_spec mw)) = workload_kind_stateful_set
      then (case get_record (mst_source_pod (mg_status mig)) m of
              None \<Rightarrow> False | Some rec \<Rightarrow> pr_dest_registered rec)
      else get_record (mst_destination_pod (mg_status mig)) m \<noteq> None)"

definition reconcile_transferring ::
    "('c, 'l, 's) kube \<Rightarrow> mig_clock \<Rightarrow> migration \<Rightarrow> workload \<Rightarrow> 'c world \<Rightarrow> outcome \<times> 'c world" where
  "reconcile_transferring K ck mig mw w =
     (if destination_up mig mw (w_registry w)
      then set_phase K ck mig Restoring
             ''destination Execution Agent registered; restoring from checkpoint''
             (on_registry (set_node (mst_destination_pod (mg_status mig)) (ms_target_node (mg_spec mig))) w)
      else (requeue_after requeue_interval, w))"

text \<open>The evidence of \<open>reconcileRestoring\<close>: the agent's report, else a Ready pod on the target.\<close>

definition restored_evidence ::
    "('c, 'l, 's) kube \<Rightarrow> migration \<Rightarrow> 'c world \<Rightarrow> go_err + bool" where
  "restored_evidence K mig w =
     (let dst = mst_destination_pod (mg_status mig) in
      if (case get_record dst (w_registry w) of None \<Rightarrow> False | Some rec \<Rightarrow> pr_restored rec)
      then Inr True
      else (case k_get_pod K (mg_namespace mig) dst (w_cluster w) of
              Inl e \<Rightarrow> if is_not_found e then Inr False else Inl e
            | Inr p \<Rightarrow> Inr (pd_node_name p = ms_target_node (mg_spec mig) \<and> is_pod_ready p)))"

definition scale_down ::
    "('c, 'l, 's) kube \<Rightarrow> migration \<Rightarrow> workload \<Rightarrow> 'c world \<Rightarrow> (go_err + migration) \<times> 'c world" where
  "scale_down K mig mw w =
     (if mst_scaled_up (mg_status mig)
      then (case on_cluster (scale_deployment K (mw_namespace mw)
                   (wr_name (ws_workload_ref (mw_spec mw))) (- 1)) w of
              (Some e, w') \<Rightarrow> (Inl e, w')
            | (None, w') \<Rightarrow> (Inr (on_status (\<lambda>s. s\<lparr>mst_scaled_up := False\<rparr>) mig), w'))
      else (Inr mig, w))"

definition reconcile_restoring ::
    "('c, 'l, 's) kube \<Rightarrow> mig_clock \<Rightarrow> migration \<Rightarrow> workload \<Rightarrow> 'c world \<Rightarrow> outcome \<times> 'c world" where
  "reconcile_restoring K ck mig mw w =
     (case restored_evidence K mig w of
        Inl e \<Rightarrow> (give_error e, w)
      | Inr False \<Rightarrow> (requeue_after requeue_interval, w)
      | Inr True \<Rightarrow>
          (case scale_down K mig mw w of
             (Inl e, w1) \<Rightarrow> (give_error e, w1)
           | (Inr mig1, w1) \<Rightarrow>
               set_phase K ck (with_completion ck mig1) Completed
                 (''pod '' @ mst_destination_pod (mg_status mig1) @ '' restored on node '' @
                  ms_target_node (mg_spec mig1))
                 (clear_registry_flags mig1 w1)))"

definition finalize :: "('c, 'l, 's) kube \<Rightarrow> migration \<Rightarrow> 'c world \<Rightarrow> outcome \<times> 'c world" where
  "finalize K mig w =
     (if migration_finalizer \<notin> set (mg_finalizers mig) then (stop, w)
      else (let w1 = (if is_terminal (mg_status mig) then w else clear_registry_flags mig w);
                mig1 = mig\<lparr>mg_finalizers := removeAll migration_finalizer (mg_finalizers mig)\<rparr>
            in case on_cluster (k_update_migration K mig1) w1 of
                 (Inl e, w2) \<Rightarrow> (give_error e, w2)
               | (Inr _, w2) \<Rightarrow> (stop, w2)))"

section \<open>One pass\<close>

fun dispatch ::
    "('c, 'l, 's) kube \<Rightarrow> mig_clock \<Rightarrow> phase \<Rightarrow> migration \<Rightarrow> workload \<Rightarrow> 'c world \<Rightarrow> outcome \<times> 'c world" where
  "dispatch K ck NoPhase mig mw w = initialize K ck mig w"
| "dispatch K ck Pending mig mw w = reconcile_pending K ck mig mw w"
| "dispatch K ck Syncing mig mw w = reconcile_syncing K ck mig w"
| "dispatch K ck Checkpointing mig mw w = reconcile_checkpointing K ck mig w"
| "dispatch K ck Transferring mig mw w = reconcile_transferring K ck mig mw w"
| "dispatch K ck Restoring mig mw w = reconcile_restoring K ck mig mw w"
| "dispatch K ck _ mig mw w = (stop, w)"

definition soften_conflict :: "outcome \<Rightarrow> outcome" where
  "soften_conflict out =
     (case snd out of
        None \<Rightarrow> out
      | Some e \<Rightarrow> if is_conflict e then requeue_after second else out)"

definition being_deleted :: "migration \<Rightarrow> bool" where
  "being_deleted mig \<longleftrightarrow> (case mg_deletion mig of None \<Rightarrow> False | Some t \<Rightarrow> \<not> time_is_zero t)"

text \<open>What \<open>Reconcile\<close> does with the object it read.\<close>

definition advance ::
    "('c, 'l, 's) kube \<Rightarrow> mig_clock \<Rightarrow> migration \<Rightarrow> 'c world \<Rightarrow> outcome \<times> 'c world" where
  "advance K ck mig w =
     (case k_get_workload K (mg_namespace mig) (ms_workload_name (mg_spec mig)) (w_cluster w) of
        Inl e \<Rightarrow>
          (if is_not_found e
           then fail K ck mig (''MigratableWorkload '' @ quote (ms_workload_name (mg_spec mig)) @
                  '' not found in namespace '' @ quote (mg_namespace mig)) w
           else (give_error e, w))
      | Inr mw \<Rightarrow>
          (if phase_expired ck mig then fail K ck mig (expiry_message mig) w
           else (case dispatch K ck (mst_phase (mg_status mig)) mig mw w of
                   (out, w') \<Rightarrow> (soften_conflict out, w'))))"

definition reconcile ::
    "('c, 'l, 's) kube \<Rightarrow> mig_clock \<Rightarrow> string \<Rightarrow> string \<Rightarrow> 'c world \<Rightarrow> outcome \<times> 'c world" where
  "reconcile K ck ns name w =
     (case k_get_migration K ns name (w_cluster w) of
        Inl e \<Rightarrow> ((no_result, ignore_not_found e), w)
      | Inr mig \<Rightarrow>
          (if being_deleted mig then finalize K mig w
           else if is_terminal (mg_status mig) then (stop, w)
           else if migration_finalizer \<notin> set (mg_finalizers mig)
           then (case on_cluster (k_update_migration K
                        (mig\<lparr>mg_finalizers := mg_finalizers mig @ [migration_finalizer]\<rparr>)) w of
                   (Inl e, w') \<Rightarrow> (give_error e, w')
                 | (Inr _, w') \<Rightarrow> (requeue_now, w'))
           else advance K ck mig w))"

section \<open>Seeding the history at startup\<close>

definition history_record_of :: "migration \<Rightarrow> hrecord" where
  "history_record_of mig =
     (let s = mg_status mig; spec = mg_spec mig in
      zero_hrecord\<lparr>hr_name := mg_name mig, hr_namespace := mg_namespace mig,
        hr_workload := ms_workload_name spec, hr_source_pod := mst_source_pod s,
        hr_destination_pod := mst_destination_pod s, hr_source_node := ms_source_node spec,
        hr_target_node := ms_target_node spec, hr_process_migration := mst_process_migration s,
        hr_volume_migration := mst_volume_migration s,
        hr_phase := phase_string (if mst_phase s = NoPhase then Pending else mst_phase s),
        hr_message := mst_message s,
        hr_started_at := (case mst_start_time s of Some t \<Rightarrow> t | None \<Rightarrow> mg_creation mig),
        hr_completed_at := mst_completion_time s\<rparr>)"

definition seed_history_from :: "('c, 'l, 's) kube \<Rightarrow> 'c \<Rightarrow> store \<Rightarrow> go_err option \<times> store" where
  "seed_history_from K c s =
     (case k_list_migrations K c of
        Inl e \<Rightarrow> (Some e, s)
      | Inr migs \<Rightarrow> (None, seed_history (map history_record_of migs) s))"

end
