(* ===== verification/RegistrySpec.thy ===== *)
theory RegistrySpec
  imports Registry
begin

text \<open>
  What the registry promises. The operations are the steps of a machine; its invariant says
  that a record is filed under its own name and that the flow flags agree with each other. The
  abstract registry keeps one migration session per pod; the code's registry refines it. From
  the runs follow where the address handed to a source agent comes from and what a listing
  shows.
\<close>

section \<open>The registry as a machine\<close>

datatype reg_op =
    OpRegister instant string string int
  | OpDelete string
  | OpArm instant string arm_info
  | OpDisarm string
  | OpSync string int
  | OpCopy string string
  | OpRestored string
  | OpSetWorkload string string string
  | OpSetNode string string
  | OpSeed "pod_record list"

fun reg_step :: "registry \<Rightarrow> reg_op \<Rightarrow> registry" where
  "reg_step m (OpRegister now n a p) = snd (register now n a p m)"
| "reg_step m (OpDelete n) = delete_record n m"
| "reg_step m (OpArm now n info) = arm now n info m"
| "reg_step m (OpDisarm n) = disarm n m"
| "reg_step m (OpSync n k) = snd (record_sync_round n k m)"
| "reg_step m (OpCopy n dir) = snd (mark_checkpoint_ready n dir m)"
| "reg_step m (OpRestored n) = snd (mark_restored n m)"
| "reg_step m (OpSetWorkload n ns w) = set_workload n ns w m"
| "reg_step m (OpSetNode n node) = set_node n node m"
| "reg_step m (OpSeed recs) = seed_records recs m"

definition reg_run :: "reg_op list \<Rightarrow> registry" where
  "reg_run ops = foldl reg_step new_registry ops"

lemma reg_run_Nil [simp]: "reg_run [] = new_registry"
  by (simp add: reg_run_def)

lemma reg_run_snoc [simp]: "reg_run (ops @ [op]) = reg_step (reg_run ops) op"
  by (simp add: reg_run_def)

section \<open>The invariant\<close>

text \<open>
  A destination counts as registered only while a migration is armed, an endpoint is recorded
  only for a registered destination, and sync rounds are requested only while armed.
\<close>

definition flow_inv :: "pod_record \<Rightarrow> bool" where
  "flow_inv rec \<longleftrightarrow>
     (pr_dest_registered rec \<longrightarrow> pr_migrating rec) \<and>
     (pr_dest_address rec \<noteq> [] \<longrightarrow> pr_dest_registered rec) \<and>
     (pr_sync_rounds rec \<noteq> 0 \<longrightarrow> pr_migrating rec) \<and>
     0 \<le> pr_sync_round rec"

definition reg_inv :: "registry \<Rightarrow> bool" where
  "reg_inv m \<longleftrightarrow> (\<forall>n rec. fmlookup m n = Some rec \<longrightarrow> pr_name rec = n \<and> flow_inv rec)"

text \<open>Seeding takes any records that could have been written by the registry itself.\<close>

fun op_ok :: "reg_op \<Rightarrow> bool" where
  "op_ok (OpSeed recs) = list_all flow_inv recs"
| "op_ok _ = True"

lemma reg_invI:
  "(\<And>n rec. fmlookup m n = Some rec \<Longrightarrow> pr_name rec = n \<and> flow_inv rec) \<Longrightarrow> reg_inv m"
  by (simp add: reg_inv_def)

lemma reg_invD: "reg_inv m \<Longrightarrow> fmlookup m n = Some rec \<Longrightarrow> pr_name rec = n \<and> flow_inv rec"
  by (simp add: reg_inv_def)

lemma reg_inv_new [simp]: "reg_inv new_registry"
  by (simp add: reg_inv_def reg_simps)

lemma register_update_fields [simp]:
  "pr_name (register_update now a p rec) = pr_name rec"
  "pr_address (register_update now a p rec) = a"
  "pr_last_address (register_update now a p rec) = pr_address rec"
  "pr_migrating (register_update now a p rec) = pr_migrating rec"
  "pr_checkpoint_ready (register_update now a p rec) = pr_checkpoint_ready rec"
  "pr_checkpoint_dir (register_update now a p rec) = pr_checkpoint_dir rec"
  "pr_restored (register_update now a p rec) = pr_restored rec"
  "pr_process_migration (register_update now a p rec) = pr_process_migration rec"
  "pr_volume_migration (register_update now a p rec) = pr_volume_migration rec"
  "pr_sync_rounds (register_update now a p rec) = pr_sync_rounds rec"
  "pr_sync_round (register_update now a p rec) = pr_sync_round rec"
  "pr_dest_registered (register_update now a p rec) = (pr_migrating rec \<or> pr_dest_registered rec)"
  "pr_dest_address (register_update now a p rec) =
     (if pr_migrating rec then join_host_port a p else pr_dest_address rec)"
  by (simp_all add: register_update_def Let_def)

lemma arm_update_fields [simp]:
  "pr_name (arm_update info rec) = pr_name rec"
  "pr_migrating (arm_update info rec)"
  "pr_checkpoint_ready (arm_update info rec) = pr_checkpoint_ready rec"
  "pr_dest_registered (arm_update info rec) = pr_dest_registered rec"
  "pr_restored (arm_update info rec) = pr_restored rec"
  "pr_process_migration (arm_update info rec) = ai_process_migration info"
  "pr_volume_migration (arm_update info rec) = ai_volume_migration info"
  "pr_sync_rounds (arm_update info rec) = ai_sync_rounds info"
  "pr_sync_round (arm_update info rec) = pr_sync_round rec"
  "pr_dest_address (arm_update info rec) = pr_dest_address rec"
  "pr_address (arm_update info rec) = pr_address rec"
  "pr_checkpoint_dir (arm_update info rec) =
     (if ai_checkpoint_dir info \<noteq> [] then ai_checkpoint_dir info else pr_checkpoint_dir rec)"
  by (simp_all add: arm_update_def Let_def)

lemma zero_pod_record_flow [simp]:
  "\<not> pr_migrating zero_pod_record" "\<not> pr_checkpoint_ready zero_pod_record"
  "\<not> pr_dest_registered zero_pod_record" "\<not> pr_restored zero_pod_record"
  "pr_dest_address zero_pod_record = []" "pr_sync_rounds zero_pod_record = 0"
  "pr_sync_round zero_pod_record = 0"
  "\<not> pr_process_migration zero_pod_record" "\<not> pr_volume_migration zero_pod_record"
  "pr_checkpoint_dir zero_pod_record = []"
  by (simp_all add: zero_pod_record_def)

lemma flow_inv_register_update [simp]: "flow_inv rec \<Longrightarrow> flow_inv (register_update now a p rec)"
  by (auto simp: flow_inv_def)

lemma flow_inv_arm_update [simp]: "flow_inv rec \<Longrightarrow> flow_inv (arm_update info rec)"
  by (auto simp: flow_inv_def)

lemma flow_inv_disarm_update [simp]: "flow_inv (disarm_update rec)"
  by (simp add: flow_inv_def disarm_update_def)

lemma disarm_update_fields [simp]:
  "pr_name (disarm_update rec) = pr_name rec"
  "\<not> pr_migrating (disarm_update rec)"
  "\<not> pr_checkpoint_ready (disarm_update rec)"
  "\<not> pr_dest_registered (disarm_update rec)"
  "\<not> pr_restored (disarm_update rec)"
  "pr_sync_rounds (disarm_update rec) = 0"
  "pr_sync_round (disarm_update rec) = 0"
  "pr_dest_address (disarm_update rec) = []"
  "pr_address (disarm_update rec) = pr_address rec"
  "pr_checkpoint_dir (disarm_update rec) = pr_checkpoint_dir rec"
  "pr_process_migration (disarm_update rec) = pr_process_migration rec"
  "pr_volume_migration (disarm_update rec) = pr_volume_migration rec"
  by (simp_all add: disarm_update_def)

lemma flow_inv_zero [simp]:
  "flow_inv (zero_pod_record\<lparr>pr_name := n, pr_registered_at := t\<rparr>)"
  "flow_inv (zero_pod_record\<lparr>pr_name := n, pr_address := a, pr_container_port := p,
     pr_registrations := k, pr_registered_at := t, pr_last_seen := u\<rparr>)"
  by (simp_all add: flow_inv_def)

lemma flow_inv_upd [simp]:
  "flow_inv rec \<Longrightarrow> pr_sync_round rec < k \<Longrightarrow> flow_inv (rec\<lparr>pr_sync_round := k\<rparr>)"
  "flow_inv (rec\<lparr>pr_checkpoint_ready := b\<rparr>) = flow_inv rec"
  "flow_inv (rec\<lparr>pr_checkpoint_ready := b, pr_checkpoint_dir := d\<rparr>) = flow_inv rec"
  "flow_inv (rec\<lparr>pr_restored := b\<rparr>) = flow_inv rec"
  "flow_inv (rec\<lparr>pr_node := node\<rparr>) = flow_inv rec"
  "flow_inv (rec\<lparr>pr_workload_namespace := ns, pr_workload_name := w\<rparr>) = flow_inv rec"
  by (auto simp: flow_inv_def)

lemma reg_step_inv:
  assumes inv: "reg_inv m" and ok: "op_ok op"
  shows "reg_inv (reg_step m op)"
proof (rule reg_invI)
  fix n rec
  assume l: "fmlookup (reg_step m op) n = Some rec"
  show "pr_name rec = n \<and> flow_inv rec"
  proof (cases "fmlookup m n")
    case None
    with l ok show ?thesis
      by (cases op)
        (auto simp: reg_simps find_Some_iff list_all_iff split: if_splits)
  next
    case (Some r)
    then have "pr_name r = n" and "flow_inv r" using inv by (auto dest: reg_invD)
    with Some l show ?thesis
      by (cases op)
        (auto simp: reg_simps Let_def split: if_splits)
  qed
qed

interpretation regm: machine reg_step reg_inv op_ok
  by unfold_locales (rule reg_step_inv)

lemma reg_run_inv: "list_all op_ok ops \<Longrightarrow> reg_inv (reg_run ops)"
  unfolding reg_run_def by (rule regm.inv_run) simp

section \<open>Abstract specification: one migration session per pod\<close>

text \<open>
  What the protocol needs to know of a pod: whether a migration is armed, whether the source
  reported its checkpoint, the endpoint of the destination once it has registered, whether the
  destination reported the restore.
\<close>

record session =
  se_armed :: bool
  se_checkpointed :: bool
  se_dest :: "string option"
  se_restored :: bool

type_synonym sessions = "string \<Rightarrow> session option"

definition idle_session :: session where
  "idle_session = \<lparr>se_armed = False, se_checkpointed = False, se_dest = None, se_restored = False\<rparr>"

definition session_of :: "pod_record \<Rightarrow> session" where
  "session_of rec =
     \<lparr>se_armed = pr_migrating rec, se_checkpointed = pr_checkpoint_ready rec,
      se_dest = (if pr_dest_registered rec then Some (pr_dest_address rec) else None),
      se_restored = pr_restored rec\<rparr>"

definition sessions_of :: "registry \<Rightarrow> sessions" where
  "sessions_of m n = map_option session_of (fmlookup m n)"

fun session_step :: "sessions \<Rightarrow> reg_op \<Rightarrow> sessions" where
  "session_step s (OpRegister _ n a p) =
     s(n \<mapsto> (case s n of
              None \<Rightarrow> idle_session
            | Some x \<Rightarrow> if se_armed x then x\<lparr>se_dest := Some (join_host_port a p)\<rparr> else x))"
| "session_step s (OpDelete n) = s(n := None)"
| "session_step s (OpArm _ n _) =
     s(n \<mapsto> (case s n of None \<Rightarrow> idle_session | Some x \<Rightarrow> x)\<lparr>se_armed := True\<rparr>)"
| "session_step s (OpDisarm n) = s(n := map_option (\<lambda>_. idle_session) (s n))"
| "session_step s (OpSync _ _) = s"
| "session_step s (OpCopy n _) = s(n := map_option (\<lambda>x. x\<lparr>se_checkpointed := True\<rparr>) (s n))"
| "session_step s (OpRestored n) = s(n := map_option (\<lambda>x. x\<lparr>se_restored := True\<rparr>) (s n))"
| "session_step s (OpSetWorkload _ _ _) = s"
| "session_step s (OpSetNode _ _) = s"
| "session_step s (OpSeed recs) =
     (\<lambda>n. case s n of
            Some x \<Rightarrow> Some x
          | None \<Rightarrow> map_option session_of (find (\<lambda>rec. pr_name rec = n) recs))"

lemma session_of_zero [simp]:
  "session_of (zero_pod_record\<lparr>pr_name := n, pr_address := a, pr_container_port := p,
     pr_registrations := k, pr_registered_at := t, pr_last_seen := u\<rparr>) = idle_session"
  "session_of (zero_pod_record\<lparr>pr_name := n, pr_registered_at := t\<rparr>) = idle_session"
  by (simp_all add: session_of_def idle_session_def)

lemma session_of_upd [simp]:
  "session_of (rec\<lparr>pr_node := node\<rparr>) = session_of rec"
  "session_of (rec\<lparr>pr_workload_namespace := ns, pr_workload_name := w\<rparr>) = session_of rec"
  "session_of (rec\<lparr>pr_sync_round := k\<rparr>) = session_of rec"
  "session_of (rec\<lparr>pr_restored := True\<rparr>) = (session_of rec)\<lparr>se_restored := True\<rparr>"
  "session_of (rec\<lparr>pr_checkpoint_ready := True\<rparr>) = (session_of rec)\<lparr>se_checkpointed := True\<rparr>"
  "session_of (rec\<lparr>pr_checkpoint_ready := True, pr_checkpoint_dir := d\<rparr>) =
     (session_of rec)\<lparr>se_checkpointed := True\<rparr>"
  "session_of (disarm_update rec) = idle_session"
  "session_of (arm_update info rec) = (session_of rec)\<lparr>se_armed := True\<rparr>"
  "session_of (register_update now a p rec) =
     (if pr_migrating rec then (session_of rec)\<lparr>se_dest := Some (join_host_port a p)\<rparr>
      else session_of rec)"
  by (simp_all add: session_of_def idle_session_def)

lemma se_armed_session_of [simp]: "se_armed (session_of rec) = pr_migrating rec"
  by (simp add: session_of_def)

lemma sessions_of_step: "sessions_of (reg_step m op) = session_step (sessions_of m) op"
proof
  fix n
  show "sessions_of (reg_step m op) n = session_step (sessions_of m) op n"
  proof (cases op)
    case (OpRegister now k a p)
    then show ?thesis by (cases "fmlookup m k") (simp_all add: sessions_of_def reg_simps)
  next
    case (OpArm now k info)
    then show ?thesis by (cases "fmlookup m k") (simp_all add: sessions_of_def reg_simps)
  next
    case (OpSync k r)
    then show ?thesis by (cases "fmlookup m k") (simp_all add: sessions_of_def reg_simps)
  next
    case (OpCopy k dir)
    then show ?thesis
      by (cases "fmlookup m k") (simp_all add: sessions_of_def reg_simps Let_def)
  next
    case (OpSeed recs)
    then show ?thesis
      by (cases "fmlookup m n") (simp_all add: sessions_of_def reg_simps)
  qed (simp_all add: sessions_of_def reg_simps option.map_comp comp_def)
qed

interpretation regr: refined_machine reg_step reg_inv op_ok sessions_of session_step
  by unfold_locales (rule sessions_of_step)

lemma sessions_of_new: "sessions_of new_registry = Map.empty"
  by (simp add: fun_eq_iff sessions_of_def reg_simps)

text \<open>C8: the registry refines the abstract sessions, whatever calls arrive in whatever order.\<close>

theorem registry_refines_sessions:
  assumes "list_all op_ok ops"
  shows "sessions_of (reg_run ops) = foldl session_step Map.empty ops"
  unfolding reg_run_def sessions_of_new [symmetric]
  by (rule regr.abs_run [OF reg_inv_new assms])

section \<open>Where the destination address comes from\<close>

definition armed_after :: "string \<Rightarrow> reg_op list \<Rightarrow> bool" where
  "armed_after n ops \<longleftrightarrow> (\<exists>rec. fmlookup (reg_run ops) n = Some rec \<and> pr_migrating rec)"

text \<open>The operations that end a session of a pod or announce another endpoint for it.\<close>

fun touches_dest :: "string \<Rightarrow> reg_op \<Rightarrow> bool" where
  "touches_dest n (OpRegister _ k _ _) = (k = n)"
| "touches_dest n (OpDelete k) = (k = n)"
| "touches_dest n (OpDisarm k) = (k = n)"
| "touches_dest n _ = False"

fun no_seeded_dest :: "reg_op \<Rightarrow> bool" where
  "no_seeded_dest (OpSeed recs) = list_all (\<lambda>rec. pr_dest_address rec = []) recs"
| "no_seeded_dest _ = True"

lemma untouched_dest:
  assumes "\<not> touches_dest n op" and "no_seeded_dest op"
    and "fmlookup (reg_step m op) n = Some rec" and "pr_dest_address rec \<noteq> []"
  obtains rec' where "fmlookup m n = Some rec'" and "pr_dest_address rec' = pr_dest_address rec"
proof (cases "fmlookup m n")
  case None
  with assms have False
    by (cases op) (auto simp: reg_simps find_Some_iff list_all_iff split: if_splits)
  then show ?thesis ..
next
  case (Some rec')
  moreover have "pr_dest_address rec' = pr_dest_address rec"
    using assms Some by (cases op) (auto simp: reg_simps Let_def split: if_splits)
  ultimately show ?thesis by (rule that)
qed

lemma dest_after_register:
  assumes "touches_dest n op" and "fmlookup (reg_step m op) n = Some rec"
    and "pr_dest_address rec \<noteq> []" and "reg_inv m"
  obtains now a p r where "op = OpRegister now n a p" and "fmlookup m n = Some r"
    and "pr_migrating r" and "pr_dest_address rec = join_host_port a p"
proof (cases op)
  case (OpRegister now k a p)
  with assms(1) have k: "k = n" by simp
  show ?thesis
  proof (cases "fmlookup m n")
    case None
    with assms(2,3) OpRegister k show ?thesis by (auto simp: reg_simps)
  next
    case (Some r)
    with assms(2,3) OpRegister k have rec: "rec = register_update now a p r"
      by (simp add: reg_simps)
    have "pr_migrating r"
      using rec assms(3) reg_invD [OF assms(4) Some] by (auto simp: flow_inv_def split: if_splits)
    with rec OpRegister k Some show ?thesis by (intro that [of now a p r]) simp_all
  qed
qed (use assms in \<open>auto simp: reg_simps\<close>)

lemma dest_address_origin:
  assumes "list_all op_ok ops" and "list_all no_seeded_dest ops"
    and "fmlookup (reg_run ops) n = Some rec" and "pr_dest_address rec \<noteq> []"
  shows "\<exists>xs now a p ys. ops = xs @ OpRegister now n a p # ys \<and> armed_after n xs \<and>
           pr_dest_address rec = join_host_port a p \<and> \<not> list_ex (touches_dest n) ys"
  using assms
proof (induction ops arbitrary: rec rule: rev_induct)
  case Nil
  then show ?case by (simp add: reg_simps)
next
  case (snoc op ops)
  show ?case
  proof (cases "touches_dest n op")
    case True
    have "reg_inv (reg_run ops)" using snoc.prems(1) by (simp add: reg_run_inv)
    with True snoc.prems obtain now a p r where "op = OpRegister now n a p"
      and "fmlookup (reg_run ops) n = Some r" and "pr_migrating r"
      and "pr_dest_address rec = join_host_port a p"
      by (auto elim: dest_after_register)
    then show ?thesis by (intro exI [of _ ops]) (auto simp: armed_after_def)
  next
    case False
    with snoc.prems obtain rec' where "fmlookup (reg_run ops) n = Some rec'"
      and "pr_dest_address rec' = pr_dest_address rec"
      by (auto elim: untouched_dest)
    with snoc.IH [of rec'] snoc.prems obtain xs now a p ys where
      "ops = xs @ OpRegister now n a p # ys" "armed_after n xs"
      "pr_dest_address rec = join_host_port a p" "\<not> list_ex (touches_dest n) ys"
      by auto
    with False show ?thesis
      by (intro exI [of _ xs] exI [of _ now] exI [of _ a] exI [of _ p] exI [of _ "ys @ [op]"]) simp
  qed
qed

section \<open>Listing\<close>

lemma list_records_inv:
  assumes "reg_inv m"
  shows "list_records m = map (\<lambda>k. the (fmlookup m k)) (sorted_list_of_fset (fmdom m))"
proof -
  have name: "pr_name (the (fmlookup m k)) = k" if "k |\<in>| fmdom m" for k
    using that assms by (auto simp: fmlookup_dom_iff dest: reg_invD)
  have "map pr_name (map (\<lambda>k. the (fmlookup m k)) (sorted_list_of_fset (fmdom m))) =
      sorted_list_of_fset (fmdom m)"
    unfolding map_map comp_def by (rule map_idI) (simp add: name)
  then show ?thesis
    unfolding list_records_def
    by (intro sort_key_id_if_sorted) (simp only: sorted_list_of_fset.rep_eq sorted_list_of_set.sorted_sorted_key_list_of_set)
qed

lemma set_list_records: "reg_inv m \<Longrightarrow> set (list_records m) = {rec. \<exists>n. fmlookup m n = Some rec}"
  by (auto simp: list_records_inv fmlookup_dom_iff image_iff)
     (metis fmdomI option.sel)

lemma map_name_list_records:
  assumes "reg_inv m"
  shows "map pr_name (list_records m) = sorted_list_of_fset (fmdom m)"
proof -
  have name: "pr_name (the (fmlookup m k)) = k" if "k |\<in>| fmdom m" for k
    using that assms by (auto simp: fmlookup_dom_iff dest: reg_invD)
  show ?thesis
    unfolding list_records_inv [OF assms] map_map comp_def
    by (rule map_idI) (simp add: name)
qed

text \<open>A listing shows every record exactly once, in strictly increasing order of pod name.\<close>

lemma list_records_sorted_complete:
  assumes "reg_inv m"
  shows "sorted_wrt (\<lambda>r s. pr_name r < pr_name s) (list_records m) \<and>
         set (list_records m) = {rec. \<exists>n. fmlookup m n = Some rec} \<and>
         length (list_records m) = size (fmdom m)"
proof -
  have "sorted_wrt (<) (map pr_name (list_records m))"
    by (simp add: map_name_list_records [OF assms] sorted_list_of_fset.rep_eq)
  then have "sorted_wrt (\<lambda>r s. pr_name r < pr_name s) (list_records m)"
    by (simp add: sorted_wrt_map)
  moreover have "length (list_records m) = size (fmdom m)"
    by (simp add: list_records_inv [OF assms] sorted_list_of_fset.rep_eq)
  ultimately show ?thesis using set_list_records [OF assms] by simp
qed

section \<open>Sync progress\<close>

lemma sync_reports_max:
  "fmlookup m n = Some rec \<Longrightarrow>
   fmlookup (foldl (\<lambda>m k. snd (record_sync_round n k m)) m ks) n =
     Some (rec\<lparr>pr_sync_round := foldl max (pr_sync_round rec) ks\<rparr>)"
proof (induction ks arbitrary: m rec)
  case Nil
  then show ?case by simp
next
  case (Cons k ks)
  have "fmlookup (snd (record_sync_round n k m)) n =
      Some (rec\<lparr>pr_sync_round := max (pr_sync_round rec) k\<rparr>)"
    using Cons.prems by (simp add: reg_simps max_def)
  from Cons.IH [OF this] show ?case by simp
qed

end
