(* ===== verification/WorkloadController.thy ===== *)
theory WorkloadController
  imports MigrationController RegistrySpec
begin

text \<open>
  The reconciler of MigratableWorkload objects and the recovery of the registry at startup
  (\<open>operator/internal/controller/migratableworkload_controller.go\<close>). A pass writes the records
  of the workload's pods into its status; \<open>SeedRegistry\<close> reads them back. The lemmas say what of
  a record survives the round trip.
\<close>

section \<open>Mirroring\<close>

definition mirror_interval :: duration where
  "mirror_interval = 15 * second"

definition mirrors :: "workload \<Rightarrow> pod_record \<Rightarrow> bool" where
  "mirrors mw rec \<longleftrightarrow>
     pod_belongs_to_workload (pr_name rec) (wr_name (ws_workload_ref (mw_spec mw))) \<and>
     \<not> (pr_workload_namespace rec \<noteq> [] \<and> pr_workload_namespace rec \<noteq> mw_namespace mw)"

definition mirrored_pod :: "pod_record \<Rightarrow> registered_pod" where
  "mirrored_pod rec =
     \<lparr>rp_name = pr_name rec, rp_address = pr_address rec,
      rp_container_port = i32 (pr_container_port rec), rp_node = pr_node rec,
      rp_migrating = pr_migrating rec, rp_checkpoint_ready = pr_checkpoint_ready rec,
      rp_checkpoint_dir = pr_checkpoint_dir rec, rp_restored = pr_restored rec,
      rp_registered_at = Some (pr_registered_at rec)\<rparr>"

text \<open>
  The loop over the listing, which is a snapshot: the records it visits are those of before the
  loop, the store changes with \<open>SetWorkload\<close>.
\<close>

fun mirror_loop ::
    "workload \<Rightarrow> pod_record list \<Rightarrow> registry \<Rightarrow> registered_pod list \<times> registry" where
  "mirror_loop mw [] m = ([], m)"
| "mirror_loop mw (rec # recs) m =
     (if mirrors mw rec
      then (let (pods, m') = mirror_loop mw recs (set_workload (pr_name rec) (mw_namespace mw) (mw_name mw) m)
            in (mirrored_pod rec # pods, m'))
      else mirror_loop mw recs m)"

definition workload_phase :: "('c, 'l, 's) kube \<Rightarrow> workload \<Rightarrow> 'c \<Rightarrow> string \<times> string" where
  "workload_phase K mw c =
     (case workload_exists K mw c of
        (_, Some e) \<Rightarrow> (''Pending'', text_of e)
      | (there, None) \<Rightarrow>
          (if \<not> there
           then (''Pending'', wr_kind (ws_workload_ref (mw_spec mw)) @ '' '' @
                   wr_name (ws_workload_ref (mw_spec mw)) @ '' not found'')
           else (''Ready'', [])))"

definition reconcile_workload ::
    "('c, 'l, 's) kube \<Rightarrow> string \<Rightarrow> string \<Rightarrow> 'c world \<Rightarrow> outcome \<times> 'c world" where
  "reconcile_workload K ns name w =
     (case k_get_workload K ns name (w_cluster w) of
        Inl e \<Rightarrow> ((no_result, ignore_not_found e), w)
      | Inr mw \<Rightarrow>
          (if (case mw_deletion mw of None \<Rightarrow> False | Some t \<Rightarrow> \<not> time_is_zero t) then (stop, w)
           else
             (let (phase, message) = workload_phase K mw (w_cluster w);
                  (mirrored, m) = mirror_loop mw (list_records (w_registry w)) (w_registry w);
                  w1 = w\<lparr>w_registry := m\<rparr>;
                  status = (mw_status mw)\<lparr>wst_phase := phase, wst_message := message,
                    wst_registered_pods := mirrored, wst_observed_generation := mw_generation mw\<rparr>
              in if mw_status mw \<noteq> status
                 then (case on_cluster (k_update_workload_status K (mw\<lparr>mw_status := status\<rparr>)) w1 of
                         (Inl e, w2) \<Rightarrow> (give_error e, w2)
                       | (Inr _, w2) \<Rightarrow> (requeue_after mirror_interval, w2))
                 else (requeue_after mirror_interval, w1))))"

section \<open>Seeding the registry at startup\<close>

text \<open>The readings of the clock are arguments of the position in the list.\<close>

definition seeded_pod :: "instant \<Rightarrow> instant \<Rightarrow> workload \<Rightarrow> registered_pod \<Rightarrow> pod_record" where
  "seeded_pod now now' mw p =
     zero_pod_record\<lparr>pr_name := rp_name p, pr_address := rp_address p,
       pr_container_port := rp_container_port p, pr_node := rp_node p,
       pr_workload_namespace := mw_namespace mw, pr_workload_name := mw_name mw,
       pr_migrating := rp_migrating p, pr_checkpoint_ready := rp_checkpoint_ready p,
       pr_checkpoint_dir := rp_checkpoint_dir p, pr_restored := rp_restored p,
       pr_registrations := 1, pr_last_seen := now,
       pr_registered_at := (case rp_registered_at p of Some t \<Rightarrow> t | None \<Rightarrow> now')\<rparr>"

definition seeded_pods :: "(workload \<Rightarrow> registered_pod \<Rightarrow> instant \<times> instant) \<Rightarrow> workload list \<Rightarrow> pod_record list" where
  "seeded_pods clock mws =
     concat (map (\<lambda>mw. map (\<lambda>p. case clock mw p of (now, now') \<Rightarrow> seeded_pod now now' mw p)
                         (wst_registered_pods (mw_status mw))) mws)"

definition seed_registry ::
    "('c, 'l, 's) kube \<Rightarrow> (workload \<Rightarrow> registered_pod \<Rightarrow> instant \<times> instant) \<Rightarrow> 'c \<Rightarrow> registry \<Rightarrow>
     go_err option \<times> registry" where
  "seed_registry K clock c m =
     (case k_list_workloads K c of
        Inl e \<Rightarrow> (Some e, m)
      | Inr mws \<Rightarrow> (None, seed_records (seeded_pods clock mws) m))"

section \<open>The loop\<close>

lemma mirror_loop_pods: "fst (mirror_loop mw recs m) = map mirrored_pod (filter (mirrors mw) recs)"
  by (induction recs arbitrary: m) (simp_all add: Let_def case_prod_unfold)

lemma mirror_loop_lookup:
  "fmlookup (snd (mirror_loop mw recs m)) n =
     (if \<exists>rec \<in> set recs. mirrors mw rec \<and> pr_name rec = n
      then map_option (\<lambda>rec. rec\<lparr>pr_workload_namespace := mw_namespace mw, pr_workload_name := mw_name mw\<rparr>)
             (fmlookup m n)
      else fmlookup m n)"
proof (induction recs arbitrary: m)
  case Nil
  then show ?case by simp
next
  case (Cons rec recs)
  show ?case
    by (cases "fmlookup m n")
       (auto simp: Cons.IH reg_simps case_prod_unfold Let_def)
qed

section \<open>What a restart keeps\<close>

text \<open>
  What the API server stores of a status: its JSON form has a \<open>metav1.Time\<close> as RFC 3339 text,
  which has whole seconds only, and \<open>null\<close> for the zero time. The rest is stored as it is.
\<close>

definition stored_time :: "instant option \<Rightarrow> instant option" where
  "stored_time t =
     (case t of None \<Rightarrow> None | Some x \<Rightarrow> if time_is_zero x then None else Some (x - x mod second))"

definition stored_pod :: "registered_pod \<Rightarrow> registered_pod" where
  "stored_pod p = p\<lparr>rp_registered_at := stored_time (rp_registered_at p)\<rparr>"

definition stored_workload :: "workload \<Rightarrow> workload" where
  "stored_workload mw = mw\<lparr>mw_status := (mw_status mw)\<lparr>wst_registered_pods :=
     map stored_pod (wst_registered_pods (mw_status mw))\<rparr>\<rparr>"

text \<open>
  The part of a record that the mirror carries: the port as an \<open>int32\<close>, the time of the
  registration in whole seconds.
\<close>

definition recovered :: "pod_record \<Rightarrow> pod_record \<Rightarrow> bool" where
  "recovered rec r \<longleftrightarrow>
     pr_name r = pr_name rec \<and> pr_address r = pr_address rec \<and>
     pr_container_port r = i32 (pr_container_port rec) \<and> pr_node r = pr_node rec \<and>
     pr_migrating r = pr_migrating rec \<and> pr_checkpoint_ready r = pr_checkpoint_ready rec \<and>
     pr_checkpoint_dir r = pr_checkpoint_dir rec \<and> pr_restored r = pr_restored rec \<and>
     (\<not> time_is_zero (pr_registered_at rec) \<longrightarrow>
        pr_registered_at r = pr_registered_at rec - pr_registered_at rec mod second)"

text \<open>And what it does not carry, with the values it comes back with.\<close>

definition forgotten :: "pod_record \<Rightarrow> bool" where
  "forgotten r \<longleftrightarrow>
     \<not> pr_process_migration r \<and> \<not> pr_volume_migration r \<and> \<not> pr_dest_registered r \<and>
     pr_dest_address r = [] \<and> pr_last_address r = [] \<and> pr_sync_rounds r = 0 \<and>
     pr_sync_round r = 0 \<and> pr_registrations r = 1"

lemma seeded_mirror:
  "recovered rec (seeded_pod now now' mw (stored_pod (mirrored_pod rec)))"
  "forgotten (seeded_pod now now' mw p)"
  by (simp_all add: recovered_def forgotten_def seeded_pod_def mirrored_pod_def stored_pod_def
      stored_time_def zero_pod_record_def)

lemma seeded_pod_name [simp]: "pr_name (seeded_pod now now' mw p) = rp_name p"
  by (simp add: seeded_pod_def)

lemma flow_inv_seeded [simp]: "flow_inv (seeded_pod now now' mw p)"
  by (simp add: flow_inv_def seeded_pod_def zero_pod_record_def)

lemma flow_inv_seeded_pods: "list_all flow_inv (seeded_pods clock mws)"
  by (auto simp: seeded_pods_def list_all_iff split: prod.splits)

lemma list_records_member:
  assumes "reg_inv m"
  shows "rec \<in> set (list_records m) \<longleftrightarrow> fmlookup m (pr_name rec) = Some rec"
proof
  assume "rec \<in> set (list_records m)"
  then obtain k where "k |\<in>| fmdom m" and r: "rec = the (fmlookup m k)"
    by (auto simp: list_records_def)
  then have "fmlookup m k = Some rec" by (auto simp: fmlookup_dom_iff)
  moreover from reg_invD [OF assms this] have "pr_name rec = k" by simp
  ultimately show "fmlookup m (pr_name rec) = Some rec" by simp
next
  assume "fmlookup m (pr_name rec) = Some rec"
  moreover from this have "pr_name rec |\<in>| fmdom m" by (rule fmdomI)
  ultimately show "rec \<in> set (list_records m)"
    by (force simp: list_records_def)
qed

text \<open>
  A workload as the API server stores it after a pass of the reconciler wrote the mirror of a
  registry into its status.
\<close>

definition mirror_of :: "registry \<Rightarrow> workload \<Rightarrow> bool" where
  "mirror_of m mw \<longleftrightarrow> wst_registered_pods (mw_status mw) =
     map (\<lambda>rec. stored_pod (mirrored_pod rec)) (filter (mirrors mw) (list_records m))"

text \<open>
  A pass sends the mirror of the registry, or writes nothing because the status it read, which is
  a stored one, is the mirror already.
\<close>

lemma reconcile_workload_mirrors:
  assumes "k_get_workload K ns name (fst (w_cluster w)) = Inr mw" and "mw_deletion mw = None"
    and "reconcile_workload (spied K) ns name w = (out, w')" and "stored_workload mw = mw"
  shows "(snd (w_cluster w') = snd (w_cluster w) \<and> mirror_of (w_registry w) mw) \<or>
         (\<exists>mw' b. snd (w_cluster w') = snd (w_cluster w) @ [WWorkloadStatus mw' b] \<and>
            mirror_of (w_registry w) (stored_workload mw'))"
proof -
  obtain phase message where p: "workload_phase (spied K) mw (w_cluster w) = (phase, message)"
    by fastforce
  obtain pods m where l: "mirror_loop mw (list_records (w_registry w)) (w_registry w) = (pods, m)"
    by fastforce
  have pods: "pods = map mirrored_pod (filter (mirrors mw) (list_records (w_registry w)))"
    using mirror_loop_pods [of mw "list_records (w_registry w)" "w_registry w"] by (simp add: l)
  let ?st = "(mw_status mw)\<lparr>wst_phase := phase, wst_message := message,
    wst_registered_pods := pods, wst_observed_generation := mw_generation mw\<rparr>"
  have same: "mirrors (mw\<lparr>mw_status := st\<rparr>) = mirrors mw" for st
    by (rule ext) (simp add: mirrors_def)
  show ?thesis
  proof (cases "mw_status mw = ?st")
    case True
    then have here: "wst_registered_pods (mw_status mw) = pods" by (metis workload_status.select_convs(3) workload_status.surjective workload_status.update_convs)
    moreover have "map stored_pod pods = pods"
      using arg_cong [OF assms(4), of "\<lambda>x. wst_registered_pods (mw_status x)"] here
      by (simp add: stored_workload_def)
    moreover have "snd (w_cluster w') = snd (w_cluster w)"
      using assms(1-3) True by (auto simp: reconcile_workload_def p l)
    ultimately show ?thesis using pods by (simp add: mirror_of_def comp_def)
  next
    case False
    then have "\<exists>b. snd (w_cluster w') = snd (w_cluster w) @ [WWorkloadStatus (mw\<lparr>mw_status := ?st\<rparr>) b]"
      using assms(1-3)
      by (auto simp: reconcile_workload_def p l on_cluster_def spied_writes
          split: prod.splits sum.splits)
    then show ?thesis using pods by (auto simp: mirror_of_def stored_workload_def same comp_def)
  qed
qed

text \<open>
  The comparison with the status read never finds an equal one while a mirrored pod was registered
  within a second: the record has the time to the nanosecond, the stored status has not. So every
  pass writes the status, changed or not.
\<close>

lemma status_never_settles:
  assumes "k_get_workload K ns name (fst (w_cluster w)) = Inr mw" and "mw_deletion mw = None"
    and "stored_workload mw = mw"
    and rec: "rec \<in> set (list_records (w_registry w))" "mirrors mw rec" "pr_registered_at rec mod second \<noteq> 0"
  shows "\<exists>mw' b. snd (w_cluster (snd (reconcile_workload (spied K) ns name w))) =
           snd (w_cluster w) @ [WWorkloadStatus mw' b]"
proof -
  obtain phase message where p: "workload_phase (spied K) mw (w_cluster w) = (phase, message)"
    by fastforce
  obtain pods m where l: "mirror_loop mw (list_records (w_registry w)) (w_registry w) = (pods, m)"
    by fastforce
  have "pods = map mirrored_pod (filter (mirrors mw) (list_records (w_registry w)))"
    using mirror_loop_pods [of mw "list_records (w_registry w)" "w_registry w"] by (simp add: l)
  with rec(1,2) have in_pods: "mirrored_pod rec \<in> set pods" by simp
  have stored: "stored_pod p = p" if "p \<in> set (wst_registered_pods (mw_status mw))" for p
  proof -
    have "map stored_pod (wst_registered_pods (mw_status mw)) = wst_registered_pods (mw_status mw)"
      using arg_cong [OF assms(3), of "\<lambda>x. wst_registered_pods (mw_status x)"]
      by (simp add: stored_workload_def)
    with that show ?thesis by (metis map_idI map_eq_conv list.map_id0 id_apply)
  qed
  have "stored_pod (mirrored_pod rec) \<noteq> mirrored_pod rec"
    using rec(3) by (auto simp: stored_pod_def mirrored_pod_def stored_time_def time_is_zero_def)
  with in_pods stored have "wst_registered_pods (mw_status mw) \<noteq> pods" by auto
  then have "mw_status mw \<noteq> (mw_status mw)\<lparr>wst_phase := phase, wst_message := message,
      wst_registered_pods := pods, wst_observed_generation := mw_generation mw\<rparr>"
    by (metis workload_status.select_convs(3) workload_status.surjective workload_status.update_convs)
  then show ?thesis using assms(1,2)
    by (auto simp: reconcile_workload_def p l on_cluster_def spied_writes split: prod.splits sum.splits)
qed

lemma seeded_pods_find:
  assumes inv: "reg_inv m" and mirror: "list_all (mirror_of m) mws"
    and r: "r \<in> set (seeded_pods clock mws)"
  shows "\<exists>rec mw. fmlookup m (pr_name r) = Some rec \<and> mw \<in> set mws \<and> mirrors mw rec \<and>
    recovered rec r \<and> forgotten r \<and>
    pr_workload_namespace r = mw_namespace mw \<and> pr_workload_name r = mw_name mw"
proof -
  from r obtain mw p where mw: "mw \<in> set mws" and p: "p \<in> set (wst_registered_pods (mw_status mw))"
    and req: "\<exists>now now'. r = seeded_pod now now' mw p"
    by (auto simp: seeded_pods_def case_prod_unfold)
  from mirror mw p obtain rec where rec: "rec \<in> set (list_records m)" "mirrors mw rec"
    and pe: "p = stored_pod (mirrored_pod rec)"
    by (auto simp: list_all_iff mirror_of_def)
  from rec(1) have l: "fmlookup m (pr_name rec) = Some rec" by (simp add: list_records_member [OF inv])
  have rf: "recovered rec r \<and> forgotten r" using req pe seeded_mirror by blast
  then have "pr_name r = pr_name rec" by (simp add: recovered_def)
  moreover have "pr_workload_namespace r = mw_namespace mw" "pr_workload_name r = mw_name mw"
    using req by (auto simp: seeded_pod_def)
  ultimately show ?thesis using l mw rec(2) rf by auto
qed

lemma seeded_pods_complete:
  assumes inv: "reg_inv m" and mirror: "list_all (mirror_of m) mws"
    and l: "fmlookup m n = Some rec" and mw: "mw \<in> set mws" "mirrors mw rec"
  shows "find (\<lambda>r. pr_name r = n) (seeded_pods clock mws) \<noteq> None"
proof -
  have n: "pr_name rec = n" using reg_invD [OF inv l] by simp
  then have "rec \<in> set (list_records m)" using l by (simp add: list_records_member [OF inv])
  then have "stored_pod (mirrored_pod rec) \<in> set (wst_registered_pods (mw_status mw))"
    using mw mirror by (auto simp: list_all_iff mirror_of_def)
  then have "\<exists>r \<in> set (seeded_pods clock mws). pr_name r = rp_name (stored_pod (mirrored_pod rec))"
    using mw(1) by (force simp: seeded_pods_def split: prod.splits)
  then show ?thesis using n by (auto simp: find_None_iff mirrored_pod_def stored_pod_def)
qed

text \<open>
  C34: after a restart, seeding the new registry from workloads whose stored status mirrors the
  old one brings back exactly the old pods that one of the workloads mirrors, each with its
  address, node, flags and directory, its port as an \<open>int32\<close> and its registration time in whole
  seconds, under the namespace and name of such a workload. The mechanisms, the destination's
  endpoint, the previous address and the sync counters do not come back.
\<close>

theorem restart_recovers_registry:
  assumes inv: "reg_inv m" and mirror: "list_all (mirror_of m) mws"
    and list: "k_list_workloads K c = Inr mws"
  shows "reg_inv (snd (seed_registry K clock c new_registry)) \<and>
         (\<forall>n. fmlookup (snd (seed_registry K clock c new_registry)) n \<noteq> None \<longleftrightarrow>
            (\<exists>rec mw. fmlookup m n = Some rec \<and> mw \<in> set mws \<and> mirrors mw rec)) \<and>
         (\<forall>n r. fmlookup (snd (seed_registry K clock c new_registry)) n = Some r \<longrightarrow>
            (\<exists>rec mw. fmlookup m n = Some rec \<and> mw \<in> set mws \<and> mirrors mw rec \<and>
               recovered rec r \<and> forgotten r \<and>
               pr_workload_namespace r = mw_namespace mw \<and> pr_workload_name r = mw_name mw))"
proof -
  let ?recs = "seeded_pods clock mws"
  have s: "snd (seed_registry K clock c new_registry) = seed_records ?recs new_registry"
    by (simp add: seed_registry_def list)
  have look: "fmlookup (seed_records ?recs new_registry) n = find (\<lambda>r. pr_name r = n) ?recs" for n
    by (simp add: reg_simps)
  have "reg_inv (seed_records ?recs new_registry)"
    using reg_step_inv [of new_registry "OpSeed ?recs"] by (simp add: flow_inv_seeded_pods)
  moreover have origin: "\<exists>rec mw. fmlookup m n = Some rec \<and> mw \<in> set mws \<and> mirrors mw rec \<and>
      recovered rec r \<and> forgotten r \<and>
      pr_workload_namespace r = mw_namespace mw \<and> pr_workload_name r = mw_name mw"
    if "find (\<lambda>r. pr_name r = n) ?recs = Some r" for n r
  proof -
    from that have "r \<in> set ?recs" and "pr_name r = n" by (auto simp: find_Some_iff)
    with seeded_pods_find [OF inv mirror \<open>r \<in> set ?recs\<close>] show ?thesis by blast
  qed
  moreover have "find (\<lambda>r. pr_name r = n) ?recs \<noteq> None \<longleftrightarrow>
      (\<exists>rec mw. fmlookup m n = Some rec \<and> mw \<in> set mws \<and> mirrors mw rec)" for n
    using origin [of n] seeded_pods_complete [OF inv mirror] by fastforce
  ultimately show ?thesis unfolding s look by blast
qed

end
