(* ===== verification/HistorySpec.thy ===== *)
theory HistorySpec
  imports History Interfaces
begin

text \<open>
  What the history store promises: its order and its records agree, the limit bounds it up to the
  migrations in flight, and it drops only finished and seeded records, the oldest first, and no more
  of them than the limit asks for. Times and the summary are in theory HistoryMetrics.
\<close>

section \<open>Eviction\<close>

lemma evict_locked_step:
  assumes "limit < int (length order)" and "extract_first (evictable records) order = Some (key, order')"
  shows "evict_locked limit order records = evict_locked limit order' (fmdrop key records)"
  using assms by (subst evict_locked.simps) simp

lemma evict_locked_stop:
  "int (length order) \<le> limit \<or> extract_first (evictable records) order = None \<Longrightarrow>
   evict_locked limit order records = (order, records)"
  by (subst evict_locked.simps) auto

lemma evictable_drop: "k \<noteq> key \<Longrightarrow> evictable (fmdrop key records) k = evictable records k"
  by (simp add: evictable_def)

text \<open>Everything about the loop at once, by its own induction.\<close>

lemma evict_locked_spec:
  assumes "evict_locked limit order records = (order', records')"
    and "distinct order" and "set order = fset (fmdom records)"
  shows "distinct order'" and "set order' = fset (fmdom records')"
    and "int (length order') \<le> limit \<or> (\<forall>k \<in> set order'. \<not> evictable records' k)"
    and "\<And>k. \<not> evictable records k \<Longrightarrow> fmlookup records' k = fmlookup records k"
    and "\<And>k rec. fmlookup records' k = Some rec \<Longrightarrow> fmlookup records k = Some rec"
    and "length order' \<le> length order"
proof -
  have "distinct order' \<and> set order' = fset (fmdom records') \<and>
      (int (length order') \<le> limit \<or> (\<forall>k \<in> set order'. \<not> evictable records' k)) \<and>
      (\<forall>k. \<not> evictable records k \<longrightarrow> fmlookup records' k = fmlookup records k) \<and>
      (\<forall>k rec. fmlookup records' k = Some rec \<longrightarrow> fmlookup records k = Some rec) \<and>
      length order' \<le> length order"
    using assms
  proof (induction limit order records rule: evict_locked.induct)
    case (1 limit order records)
    show ?case
    proof (cases "limit < int (length order)")
      case False
      with "1.prems" show ?thesis by (auto simp: evict_locked_stop)
    next
      case True
      show ?thesis
      proof (cases "extract_first (evictable records) order")
        case None
        with "1.prems" show ?thesis
          by (auto simp: evict_locked_stop extract_first_None)
      next
        case (Some p)
        obtain key rest where p: "p = (key, rest)" by (cases p)
        with Some obtain us vs where order: "order = us @ key # vs" and rest: "rest = us @ vs"
          and key: "evictable records key"
          by (auto dest: extract_first_SomeD)
        have run: "evict_locked limit rest (fmdrop key records) = (order', records')"
          using "1.prems"(1) Some p True by (simp add: evict_locked_step)
        have "distinct rest" and "set rest = fset (fmdom (fmdrop key records))"
          using "1.prems"(2,3) order rest by auto
        note ih = "1.IH" [OF True Some p [symmetric] run this]
        have "fmlookup records' k = fmlookup records k" if "\<not> evictable records k" for k
        proof -
          have "k \<noteq> key" using that key by blast
          with ih that show ?thesis by (simp add: evictable_drop)
        qed
        moreover have "fmlookup records k = Some rec" if "fmlookup records' k = Some rec" for k rec
        proof -
          from ih that have "fmlookup (fmdrop key records) k = Some rec" by blast
          then show ?thesis by (simp split: if_splits)
        qed
        moreover have "length rest \<le> length order" by (simp add: order rest)
        ultimately show ?thesis using ih by (meson le_trans)
      qed
    qed
  qed
  then show "distinct order'" and "set order' = fset (fmdom records')"
    and "int (length order') \<le> limit \<or> (\<forall>k \<in> set order'. \<not> evictable records' k)"
    and "\<And>k. \<not> evictable records k \<Longrightarrow> fmlookup records' k = fmlookup records k"
    and "\<And>k rec. fmlookup records' k = Some rec \<Longrightarrow> fmlookup records k = Some rec"
    and "length order' \<le> length order"
    by blast+
qed

section \<open>The store's invariant\<close>

definition hist_inv :: "store \<Rightarrow> bool" where
  "hist_inv s \<longleftrightarrow>
     0 < hs_limit s \<and> distinct (hs_order s) \<and> set (hs_order s) = fset (fmdom (hs_records s)) \<and>
     (\<forall>k rec. fmlookup (hs_records s) k = Some rec \<longrightarrow> hrecord_key rec = k)"

lemma hist_inv_new: "hist_inv (new_store enabled limit)"
  by (simp add: hist_inv_def new_store_def default_limit_def)

lemma evict_fields [simp]:
  "hs_enabled (evict s) = hs_enabled s" "hs_limit (evict s) = hs_limit s"
  by (simp_all add: evict_def split: prod.splits)

lemma evict_spec:
  assumes "hist_inv s"
  shows "hist_inv (evict s)"
    and "int (length (hs_order (evict s))) \<le> hs_limit s \<or>
         (\<forall>k \<in> set (hs_order (evict s)). \<not> evictable (hs_records (evict s)) k)"
    and "\<And>k. \<not> evictable (hs_records s) k \<Longrightarrow>
         fmlookup (hs_records (evict s)) k = fmlookup (hs_records s) k"
    and "\<And>k rec. fmlookup (hs_records (evict s)) k = Some rec \<Longrightarrow>
         fmlookup (hs_records s) k = Some rec"
proof -
  obtain order' records' where
    e: "evict_locked (hs_limit s) (hs_order s) (hs_records s) = (order', records')"
    by fastforce
  have s': "evict s = s\<lparr>hs_order := order', hs_records := records'\<rparr>"
    by (simp add: evict_def e)
  have d: "distinct (hs_order s)" and dom: "set (hs_order s) = fset (fmdom (hs_records s))"
    using assms by (simp_all add: hist_inv_def)
  note spec = evict_locked_spec [OF e d dom]
  show "int (length (hs_order (evict s))) \<le> hs_limit s \<or>
      (\<forall>k \<in> set (hs_order (evict s)). \<not> evictable (hs_records (evict s)) k)"
    using spec(3) by (simp add: s')
  show keep: "fmlookup (hs_records (evict s)) k = fmlookup (hs_records s) k"
    if "\<not> evictable (hs_records s) k" for k
    using spec(4) that by (simp add: s')
  show sub: "fmlookup (hs_records s) k = Some rec"
    if "fmlookup (hs_records (evict s)) k = Some rec" for k rec
    using spec(5) that by (simp add: s')
  show "hist_inv (evict s)"
    using assms spec(1,2) sub unfolding hist_inv_def by (simp add: s')
qed

lemma apply_transition_id [simp]:
  "hr_name (apply_transition now tr rec) = hr_name rec"
  "hr_namespace (apply_transition now tr rec) = hr_namespace rec"
  "hr_seeded (apply_transition now tr rec) = hr_seeded rec"
  "hr_started_at (apply_transition now tr rec) = hr_started_at rec"
  "hr_phase (apply_transition now tr rec) = tr_phase tr"
  by (simp_all add: apply_transition_def enter_phase_def refresh_record_def Let_def)

lemma hr_terminal_apply [simp]:
  "hr_terminal (apply_transition now tr rec) =
     (tr_phase tr = phase_completed \<or> tr_phase tr = phase_failed)"
  by (simp add: hr_terminal_def)

section \<open>Recording: the lookup of one migration\<close>

definition fresh_record :: "transition \<Rightarrow> hrecord" where
  "fresh_record tr =
     zero_hrecord\<lparr>hr_name := tr_name tr, hr_namespace := tr_namespace tr,
       hr_started_at := tr_time tr\<rparr>"

definition tr_key :: "transition \<Rightarrow> string" where
  "tr_key tr = record_key (tr_namespace tr) (tr_name tr)"

definition tr_stamp :: "instant \<Rightarrow> transition \<Rightarrow> transition" where
  "tr_stamp now tr = (if time_is_zero (tr_time tr) then tr\<lparr>tr_time := now\<rparr> else tr)"

definition insert_fresh :: "transition \<Rightarrow> store \<Rightarrow> store" where
  "insert_fresh tr s =
     s\<lparr>hs_records := fmupd (tr_key tr) (fresh_record tr) (hs_records s),
       hs_order := hs_order s @ [tr_key tr]\<rparr>"

lemma fresh_not_terminal [simp]: "\<not> hr_terminal (fresh_record tr)" "\<not> hr_seeded (fresh_record tr)"
  by (simp_all add: fresh_record_def zero_hrecord_def hr_terminal_def phase_completed_def
      phase_failed_def)

lemma tr_key_stamp [simp]: "tr_key (tr_stamp now tr) = tr_key tr"
  by (simp add: tr_key_def tr_stamp_def)

lemma record_transition_eq:
  "record_transition now now' tr s0 =
     (if \<not> hs_enabled s0 then s0
      else
        (let t = tr_stamp now tr;
             s = (case fmlookup (hs_records s0) (tr_key tr) of
                    Some _ \<Rightarrow> s0 | None \<Rightarrow> evict (insert_fresh t s0))
         in (case fmlookup (hs_records s) (tr_key tr) of
               None \<Rightarrow> s
             | Some rec \<Rightarrow>
                 s\<lparr>hs_records := fmupd (tr_key tr) (apply_transition now' t rec) (hs_records s)\<rparr>)))"
  by (cases "time_is_zero (tr_time tr)"; cases "fmlookup (hs_records s0) (tr_key tr)")
     (simp_all add: record_transition_def insert_fresh_def fresh_record_def tr_key_def
       tr_stamp_def Let_def cong: option.case_cong)

lemma hist_inv_insert_fresh:
  "hist_inv s \<Longrightarrow> fmlookup (hs_records s) (tr_key t) = None \<Longrightarrow> hist_inv (insert_fresh t s)"
  by (auto simp: hist_inv_def insert_fresh_def fresh_record_def hrecord_key_def tr_key_def
      fmdom_notI)

lemma evict_insert_fresh:
  assumes "hist_inv s" and "fmlookup (hs_records s) (tr_key t) = None"
  shows "fmlookup (hs_records (evict (insert_fresh t s))) (tr_key t) = Some (fresh_record t)"
    and "k \<noteq> tr_key t \<Longrightarrow> \<not> evictable (hs_records s) k \<Longrightarrow>
         fmlookup (hs_records (evict (insert_fresh t s))) k = fmlookup (hs_records s) k"
proof -
  have inv: "hist_inv (insert_fresh t s)" using assms by (rule hist_inv_insert_fresh)
  have "\<not> evictable (hs_records (insert_fresh t s)) (tr_key t)"
    by (simp add: evictable_def insert_fresh_def)
  from evict_spec(3) [OF inv this]
  show "fmlookup (hs_records (evict (insert_fresh t s))) (tr_key t) = Some (fresh_record t)"
    by (simp add: insert_fresh_def)
  assume k: "k \<noteq> tr_key t" and "\<not> evictable (hs_records s) k"
  then have "\<not> evictable (hs_records (insert_fresh t s)) k"
    by (simp add: evictable_def insert_fresh_def)
  from evict_spec(3) [OF inv this] k
  show "fmlookup (hs_records (evict (insert_fresh t s))) k = fmlookup (hs_records s) k"
    by (simp add: insert_fresh_def)
qed

text \<open>A recorded transition reaches its own record.\<close>

lemma record_transition_own:
  assumes "hist_inv s" and "hs_enabled s"
  shows "fmlookup (hs_records (record_transition now now' tr s)) (tr_key tr) =
    Some (apply_transition now' (tr_stamp now tr)
           (case fmlookup (hs_records s) (tr_key tr) of
              None \<Rightarrow> fresh_record (tr_stamp now tr) | Some rec \<Rightarrow> rec))"
proof (cases "fmlookup (hs_records s) (tr_key tr)")
  case None
  then show ?thesis
    using assms evict_insert_fresh(1) [of s "tr_stamp now tr"]
    by (simp add: record_transition_eq Let_def)
next
  case (Some rec)
  then show ?thesis using assms by (simp add: record_transition_eq Let_def)
qed

text \<open>It leaves the records of other migrations in flight alone.\<close>

lemma record_transition_other:
  assumes "hist_inv s" and "k \<noteq> tr_key tr" and "\<not> evictable (hs_records s) k"
  shows "fmlookup (hs_records (record_transition now now' tr s)) k = fmlookup (hs_records s) k"
proof (cases "fmlookup (hs_records s) (tr_key tr)")
  case None
  then show ?thesis
    using assms evict_insert_fresh [of s "tr_stamp now tr"]
    by (simp add: record_transition_eq Let_def)
next
  case (Some rec)
  then show ?thesis using assms by (simp add: record_transition_eq Let_def)
qed

lemma hist_inv_apply:
  assumes "hist_inv s" and "fmlookup (hs_records s) k = Some rec"
  shows "hist_inv (s\<lparr>hs_records := fmupd k (apply_transition now t rec) (hs_records s)\<rparr>)"
  using assms by (auto simp: hist_inv_def hrecord_key_def fmdomI)

lemma hist_inv_record: "hist_inv s \<Longrightarrow> hist_inv (record_transition now now' tr s)"
proof -
  assume inv: "hist_inv s"
  show ?thesis
  proof (cases "fmlookup (hs_records s) (tr_key tr)")
    case None
    have "hist_inv (evict (insert_fresh (tr_stamp now tr) s))"
      using inv None by (intro evict_spec(1) hist_inv_insert_fresh) simp_all
    then show ?thesis
      using inv None evict_insert_fresh(1) [of s "tr_stamp now tr"]
      by (simp add: record_transition_eq Let_def hist_inv_apply)
  next
    case (Some rec)
    then show ?thesis using inv by (simp add: record_transition_eq Let_def hist_inv_apply)
  qed
qed

section \<open>Seeding\<close>

lemma seeded_record_id [simp]:
  "hrecord_key (seeded_record rec) = hrecord_key rec" "hr_seeded (seeded_record rec)"
  "hr_phase (seeded_record rec) = hr_phase rec"
  by (simp_all add: seeded_record_def hrecord_key_def Let_def split: option.splits)

lemma seed_loop_fields [simp]:
  "hs_enabled (seed_loop recs s) = hs_enabled s" "hs_limit (seed_loop recs s) = hs_limit s"
  by (induction recs arbitrary: s) (simp_all split: option.splits)

lemma hist_inv_seed_loop: "hist_inv s \<Longrightarrow> hist_inv (seed_loop recs s)"
proof (induction recs arbitrary: s)
  case Nil
  then show ?case by simp
next
  case (Cons rec recs)
  show ?case
  proof (cases "fmlookup (hs_records s) (hrecord_key rec)")
    case None
    with Cons.prems have "hist_inv (s\<lparr>hs_records :=
        fmupd (hrecord_key rec) (seeded_record rec) (hs_records s),
        hs_order := hs_order s @ [hrecord_key rec]\<rparr>)"
      by (auto simp: hist_inv_def fmdom_notI)
    with None Cons.IH show ?thesis by simp
  next
    case (Some r)
    with Cons show ?thesis by simp
  qed
qed

lemma seed_loop_keeps:
  "fmlookup (hs_records s) k = Some rec \<Longrightarrow> fmlookup (hs_records (seed_loop recs s)) k = Some rec"
  by (induction recs arbitrary: s) (auto split: option.splits)

section \<open>The store as a machine\<close>

datatype hist_op =
    HRecord instant instant transition
  | HSeed "hrecord list"
  | HSetEnabled bool

fun hist_step :: "store \<Rightarrow> hist_op \<Rightarrow> store" where
  "hist_step s (HRecord now now' tr) = record_transition now now' tr s"
| "hist_step s (HSeed recs) = seed_history recs s"
| "hist_step s (HSetEnabled b) = set_enabled b s"

lemma hist_step_inv: "hist_inv s \<Longrightarrow> hist_inv (hist_step s op)"
proof (cases op)
  case (HSetEnabled b)
  assume "hist_inv s"
  with HSetEnabled show ?thesis by (simp add: hist_inv_def set_enabled_def)
qed (simp_all add: hist_inv_record seed_history_def evict_spec(1) hist_inv_seed_loop)

interpretation histm: machine hist_step hist_inv "\<lambda>_. True"
  by unfold_locales (rule hist_step_inv)

definition hist_run :: "bool \<Rightarrow> int \<Rightarrow> hist_op list \<Rightarrow> store" where
  "hist_run enabled limit ops = foldl hist_step (new_store enabled limit) ops"

lemma hist_run_inv: "hist_inv (hist_run enabled limit ops)"
  unfolding hist_run_def by (rule histm.inv_run [OF hist_inv_new]) (simp add: list_all_iff)

text \<open>
  Whatever is recorded, seeded or toggled, the order lists every record exactly once, under
  its own namespace and name, so no lookup of a listed key fails.
\<close>

lemma history_store_consistent:
  "distinct (hs_order (hist_run enabled limit ops)) \<and>
   set (hs_order (hist_run enabled limit ops)) = fset (fmdom (hs_records (hist_run enabled limit ops))) \<and>
   length (hs_order (hist_run enabled limit ops)) = size (fmdom (hs_records (hist_run enabled limit ops))) \<and>
   list_all (\<lambda>rec. hrecord_key rec \<in> set (hs_order (hist_run enabled limit ops)))
     (snapshot now clock (hist_run enabled limit ops))"
proof -
  let ?s = "hist_run enabled limit ops"
  have inv: "hist_inv ?s" by (rule hist_run_inv)
  then have d: "distinct (hs_order ?s)" and dom: "set (hs_order ?s) = fset (fmdom (hs_records ?s))"
    by (simp_all add: hist_inv_def)
  have "hrecord_key (live_record t u rec) = hrecord_key rec" for t u rec
    by (simp add: live_record_def hrecord_key_def Let_def)
  then have "list_all (\<lambda>rec. hrecord_key rec \<in> set (hs_order ?s)) (snapshot now clock ?s)"
    using inv dom by (auto simp: snapshot_def list_all_iff hist_inv_def fmlookup_dom_iff)
  moreover have "length (hs_order ?s) = size (fmdom (hs_records ?s))"
    using distinct_card [OF d] dom by simp
  ultimately show ?thesis using d dom by blast
qed

section \<open>The bound, and what it never costs\<close>

text \<open>After seeding, the store is within its limit or holds only records it may not evict.\<close>

lemma seed_within_limit:
  "int (length (hs_order (seed_history recs (hist_run enabled limit ops))))
       \<le> hs_limit (hist_run enabled limit ops) \<or>
   (\<forall>k. \<not> evictable (hs_records (seed_history recs (hist_run enabled limit ops))) k)"
proof -
  let ?s = "seed_loop recs (hist_run enabled limit ops)"
  have inv: "hist_inv ?s" by (rule hist_inv_seed_loop [OF hist_run_inv])
  from evict_spec(1) [OF inv]
  have dom: "set (hs_order (evict ?s)) = fset (fmdom (hs_records (evict ?s)))"
    by (simp add: hist_inv_def)
  have "k \<in> set (hs_order (evict ?s))" if "evictable (hs_records (evict ?s)) k" for k
    using that dom by (auto simp: evictable_def fmlookup_dom_iff split: option.splits)
  with evict_spec(2) [OF inv] show ?thesis unfolding seed_history_def by auto
qed

lemma in_flight_kept:
  assumes inv: "hist_inv s" and l: "fmlookup (hs_records s) k = Some rec"
    and nt: "\<not> hr_terminal rec" and ns: "\<not> hr_seeded rec"
  obtains rec' where "fmlookup (hs_records (hist_step s op)) k = Some rec'"
    and "\<not> hr_seeded rec'" and "hrecord_key rec' = k"
proof (cases op)
  case (HRecord now now' tr)
  have inv': "hist_inv (hist_step s op)" by (rule hist_step_inv [OF inv])
  have nev: "\<not> evictable (hs_records s) k" using l nt ns by (simp add: evictable_def)
  have "\<exists>rec'. fmlookup (hs_records (record_transition now now' tr s)) k = Some rec' \<and> \<not> hr_seeded rec'"
  proof (cases "k = tr_key tr")
    case True
    show ?thesis
    proof (cases "hs_enabled s")
      case True
      with record_transition_own [OF inv this, of now now' tr] l ns \<open>k = tr_key tr\<close>
      show ?thesis by simp
    next
      case False
      with l ns show ?thesis by (simp add: record_transition_eq)
    qed
  next
    case False
    from record_transition_other [OF inv this nev] l ns show ?thesis by simp
  qed
  with inv' HRecord that show ?thesis by (auto simp: hist_inv_def)
next
  case (HSeed recs)
  have l': "fmlookup (hs_records (seed_loop recs s)) k = Some rec" by (rule seed_loop_keeps [OF l])
  then have "\<not> evictable (hs_records (seed_loop recs s)) k" using nt ns by (simp add: evictable_def)
  from evict_spec(3) [OF hist_inv_seed_loop [OF inv] this] l'
  have "fmlookup (hs_records (hist_step s op)) k = Some rec" using HSeed by (simp add: seed_history_def)
  moreover have "hrecord_key rec = k" using inv l by (simp add: hist_inv_def)
  ultimately show ?thesis using ns by (intro that)
next
  case (HSetEnabled b)
  have "hrecord_key rec = k" using inv l by (simp add: hist_inv_def)
  with HSetEnabled l ns show ?thesis by (intro that [of rec]) (simp_all add: set_enabled_def)
qed

text \<open>The loop stops as soon as the limit holds, and drops from the front.\<close>

lemma evict_locked_no_more:
  "evict_locked limit order records = (order', records') \<Longrightarrow> limit < int (length order) \<Longrightarrow> limit \<le> int (length order')"
proof (induction limit order records rule: evict_locked.induct)
  case (1 limit order records)
  show ?case
  proof (cases "extract_first (evictable records) order")
    case None
    with "1.prems" show ?thesis by (simp add: evict_locked_stop)
  next
    case (Some p)
    obtain key rest where p: "p = (key, rest)" by (cases p)
    with Some obtain as bs where "order = as @ key # bs" "rest = as @ bs" by (auto dest: extract_first_SomeD)
    then have len: "length order = Suc (length rest)" by simp
    have run: "evict_locked limit rest (fmdrop key records) = (order', records')"
      using "1.prems" Some p by (simp add: evict_locked_step)
    show ?thesis
    proof (cases "limit < int (length rest)")
      case True
      with "1.IH" [OF "1.prems"(2) Some p [symmetric] run] show ?thesis by blast
    next
      case False
      with run len "1.prems"(2) show ?thesis by (simp add: evict_locked_stop)
    qed
  qed
qed

lemma evict_locked_members:
  assumes "evict_locked limit order records = (order', records')" and "distinct order" and "set order = fset (fmdom records)"
  shows "set order' \<subseteq> set order"
proof
  fix k assume "k \<in> set order'"
  then obtain rec where "fmlookup records' k = Some rec"
    using evict_locked_spec(2) [OF assms] by (auto simp: fmlookup_dom_iff)
  from evict_locked_spec(5) [OF assms this] show "k \<in> set order" using assms(3) by (simp add: fmdomI)
qed

lemma evict_locked_oldest:
  "evict_locked limit order records = (order', records') \<Longrightarrow> distinct order \<Longrightarrow> set order = fset (fmdom records) \<Longrightarrow>
   order = us @ k # vs \<Longrightarrow> k \<notin> set order' \<Longrightarrow> u \<in> set us \<Longrightarrow> evictable records u \<Longrightarrow> u \<notin> set order'"
proof (induction limit order records arbitrary: us vs rule: evict_locked.induct)
  case (1 limit order records)
  have full: "limit < int (length order)"
    using "1.prems"(1,4,5) by (cases "limit < int (length order)") (auto simp: evict_locked_stop)
  obtain key rest where ex: "extract_first (evictable records) order = Some (key, rest)"
    using "1.prems"(1,4,5) by (cases "extract_first (evictable records) order") (auto simp: evict_locked_stop)
  then obtain as bs where order: "order = as @ key # bs" and rest: "rest = as @ bs"
    and first: "\<And>a. a \<in> set as \<Longrightarrow> \<not> evictable records a"
    by (auto dest: extract_first_SomeD)
  have run: "evict_locked limit rest (fmdrop key records) = (order', records')"
    using "1.prems"(1) ex full by (simp add: evict_locked_step)
  have d: "distinct rest" and dom: "set rest = fset (fmdom (fmdrop key records))"
    using "1.prems"(2,3) order rest by auto
  show ?case
  proof (cases "u = key")
    case True
    then show ?thesis using evict_locked_members [OF run d dom] "1.prems"(2) order rest by auto
  next
    case u: False
    have flt: "rest = filter (\<lambda>x. x \<noteq> key) order"
    proof -
      have "key \<notin> set as" "key \<notin> set bs" using "1.prems"(2) order by auto
      then have "filter (\<lambda>x. x \<noteq> key) as = as" "filter (\<lambda>x. x \<noteq> key) bs = bs"
        by (auto simp: filter_id_conv)
      then show ?thesis by (simp add: order rest)
    qed
    have "k \<noteq> key"
    proof
      assume "k = key"
      have "distinct (as @ key # bs)" using "1.prems"(2) order by simp
      then have "key \<notin> set as" "key \<notin> set bs" by simp_all
      moreover have "as @ key # bs = us @ key # vs" using "1.prems"(4) order \<open>k = key\<close> by simp
      ultimately have "as = us" by (simp add: append_Cons_eq_iff)
      with first "1.prems"(6,7) show False by blast
    qed
    then have "rest = filter (\<lambda>x. x \<noteq> key) us @ k # filter (\<lambda>x. x \<noteq> key) vs" by (simp add: flt "1.prems"(4))
    from "1.IH" [OF full ex refl run d dom this "1.prems"(5)] u "1.prems"(6,7) show ?thesis
      by (simp add: evictable_drop)
  qed
qed

text \<open>The same of the store, for what is added behind.\<close>

lemma evict_drops:
  assumes inv: "hist_inv s" and order: "hs_order s = us @ k # vs" and gone: "fmlookup (hs_records (evict s)) k = None"
  shows "evictable (hs_records s) k \<and> hs_limit s \<le> int (length (hs_order (evict s))) \<and>
    (\<forall>u \<in> set us. evictable (hs_records s) u \<longrightarrow> fmlookup (hs_records (evict s)) u = None)"
proof -
  obtain order' records' where e: "evict_locked (hs_limit s) (hs_order s) (hs_records s) = (order', records')"
    by fastforce
  have s': "evict s = s\<lparr>hs_order := order', hs_records := records'\<rparr>" by (simp add: evict_def e)
  have d: "distinct (hs_order s)" and dom: "set (hs_order s) = fset (fmdom (hs_records s))"
    using inv by (simp_all add: hist_inv_def)
  note spec = evict_locked_spec [OF e d dom]
  have out: "u \<notin> set order' \<longleftrightarrow> fmlookup records' u = None" for u
    using spec(2) by (auto simp: fmlookup_dom_iff fmdom_notI)
  have k: "k \<notin> set order'" using gone s' out by simp
  have "k \<in> set (hs_order s)" using order by simp
  then have there: "fmlookup (hs_records s) k \<noteq> None" using dom by (auto simp: fmlookup_dom_iff)
  have "evictable (hs_records s) k"
  proof (rule ccontr)
    assume "\<not> ?thesis"
    from spec(4) [OF this] there k out show False by simp
  qed
  moreover have "hs_limit s < int (length (hs_order s))"
  proof (rule ccontr)
    assume "\<not> ?thesis"
    with e have "order' = hs_order s" by (simp add: evict_locked_stop)
    with k order show False by simp
  qed
  from evict_locked_no_more [OF e this] have "hs_limit s \<le> int (length (hs_order (evict s)))" by (simp add: s')
  moreover have "fmlookup (hs_records (evict s)) u = None" if "u \<in> set us" "evictable (hs_records s) u" for u
    using evict_locked_oldest [OF e d dom order k that] out by (simp add: s')
  ultimately show ?thesis by blast
qed

lemma seed_loop_order: "\<exists>zs. hs_order (seed_loop recs s) = hs_order s @ zs"
proof (induction recs arbitrary: s)
  case (Cons r recs)
  show ?case
  proof (cases "fmlookup (hs_records s) (hrecord_key r)")
    case None
    with Cons [of "s\<lparr>hs_records := fmupd (hrecord_key r) (seeded_record r) (hs_records s),
        hs_order := hs_order s @ [hrecord_key r]\<rparr>"] show ?thesis by auto
  next
    case (Some x)
    with Cons [of s] show ?thesis by simp
  qed
qed simp

lemma evictable_same: "fmlookup r' u = fmlookup r u \<Longrightarrow> evictable r' u = evictable r u"
  by (simp add: evictable_def)

lemma hist_step_drops:
  assumes inv: "hist_inv s" and order: "hs_order s = us @ k # vs" and gone: "fmlookup (hs_records (hist_step s op)) k = None"
  shows "evictable (hs_records s) k \<and> hs_limit s \<le> int (length (hs_order (hist_step s op))) \<and>
    (\<forall>u \<in> set us. evictable (hs_records s) u \<longrightarrow> fmlookup (hs_records (hist_step s op)) u = None)"
proof -
  have here: "fmlookup (hs_records s) u \<noteq> None" if "u \<in> set (us @ [k])" for u
  proof -
    from that order have "u \<in> set (hs_order s)" by auto
    with inv show ?thesis by (auto simp: hist_inv_def fmlookup_dom_iff)
  qed
  show ?thesis
  proof (cases op)
    case (HRecord now now' tr)
    have on: "hs_enabled s" and new: "fmlookup (hs_records s) (tr_key tr) = None"
      using gone here [of k] HRecord
      by (auto simp: record_transition_eq Let_def split: if_splits option.splits)
    let ?t = "tr_stamp now tr"
    let ?s = "insert_fresh ?t s"
    have inv': "hist_inv ?s" using inv new by (simp add: hist_inv_insert_fresh)
    have step: "fmlookup (hs_records (hist_step s op)) u = fmlookup (hs_records (evict ?s)) u" if "u \<noteq> tr_key tr" for u
      using on new HRecord that by (auto simp: record_transition_eq Let_def split: option.split)
    have ord: "hs_order (hist_step s op) = hs_order (evict ?s)"
      using on new HRecord by (auto simp: record_transition_eq Let_def split: option.split)
    have ne: "u \<noteq> tr_key tr" if "u \<in> set (us @ [k])" for u using here [OF that] new by auto
    have old: "evictable (hs_records ?s) u = evictable (hs_records s) u" if "u \<in> set (us @ [k])" for u
      using ne [OF that] by (intro evictable_same) (simp add: insert_fresh_def)
    have "hs_order ?s = us @ k # (vs @ [tr_key tr])" using order by (simp add: insert_fresh_def)
    from evict_drops [OF inv' this] gone step [of k] ne old ord show ?thesis
      using step by (simp add: insert_fresh_def)
  next
    case (HSeed recs)
    let ?s = "seed_loop recs s"
    have inv': "hist_inv ?s" using inv by (rule hist_inv_seed_loop)
    have same: "fmlookup (hs_records ?s) u = fmlookup (hs_records s) u" if "u \<in> set (us @ [k])" for u
      using here [OF that] seed_loop_keeps [of s u] by auto
    obtain zs where "hs_order ?s = us @ k # (vs @ zs)" using seed_loop_order [of recs s] order by auto
    from evict_drops [OF inv' this] gone HSeed same show ?thesis
      using evictable_same [OF same] by (auto simp: seed_history_def)
  next
    case (HSetEnabled b)
    with gone here [of k] show ?thesis by (simp add: set_enabled_def)
  qed
qed

text \<open>
  C29: whatever is recorded, seeded or toggled, a step drops a record from the history only if it is
  finished or was seeded at startup (in flight or not), never more records than the limit asks for,
  and the oldest first: with it go all older ones that may be dropped. So a migration that this
  operator recorded itself stays until it is finished.
\<close>

theorem history_drops_oldest_evictable:
  assumes "hs_order (hist_run enabled limit ops) = us @ k # vs"
    and "fmlookup (hs_records (hist_run enabled limit (ops @ [op]))) k = None"
  shows "(\<exists>rec. fmlookup (hs_records (hist_run enabled limit ops)) k = Some rec \<and> (hr_terminal rec \<or> hr_seeded rec)) \<and>
    hs_limit (hist_run enabled limit ops) \<le> int (length (hs_order (hist_run enabled limit (ops @ [op])))) \<and>
    (\<forall>u rec. u \<in> set us \<longrightarrow> fmlookup (hs_records (hist_run enabled limit ops)) u = Some rec \<longrightarrow>
       hr_terminal rec \<or> hr_seeded rec \<longrightarrow> fmlookup (hs_records (hist_run enabled limit (ops @ [op]))) u = None)"
proof -
  have run: "hist_run enabled limit (ops @ [op]) = hist_step (hist_run enabled limit ops) op"
    by (simp add: hist_run_def)
  from hist_step_drops [OF hist_run_inv assms [unfolded run]] show ?thesis
    by (auto simp: evictable_def run split: option.splits)
qed

text \<open>A migration recorded in flight stays, and its record stays one that was not seeded.\<close>

lemma in_flight_stays:
  assumes "fmlookup (hs_records (hist_run enabled limit ops)) k = Some rec"
    and "\<not> hr_terminal rec" and "\<not> hr_seeded rec"
  shows "\<exists>rec'. fmlookup (hs_records (hist_run enabled limit (ops @ [op]))) k = Some rec' \<and> \<not> hr_seeded rec'"
proof -
  have "hist_run enabled limit (ops @ [op]) = hist_step (hist_run enabled limit ops) op"
    by (simp add: hist_run_def)
  with in_flight_kept [OF hist_run_inv assms] show ?thesis by metis
qed

section \<open>Seeded records are evicted, in flight or not\<close>

lemma seed_loop_all_seeded:
  "(\<And>k rec. fmlookup (hs_records s) k = Some rec \<Longrightarrow> hr_seeded rec) \<Longrightarrow>
   fmlookup (hs_records (seed_loop recs s)) k = Some rec \<Longrightarrow> hr_seeded rec"
proof (induction recs arbitrary: s)
  case Nil
  then show ?case by simp
next
  case (Cons r recs)
  show ?case
  proof (cases "fmlookup (hs_records s) (hrecord_key r)")
    case None
    show ?thesis
      using Cons.prems(2) None
      by (intro Cons.IH [of "s\<lparr>hs_records := fmupd (hrecord_key r) (seeded_record r) (hs_records s),
            hs_order := hs_order s @ [hrecord_key r]\<rparr>"])
         (auto intro: Cons.prems(1) split: if_splits)
  next
    case (Some x)
    then have "fmlookup (hs_records (seed_loop recs s)) k = Some rec" using Cons.prems(2) by simp
    with Cons.prems(1) show ?thesis by (rule Cons.IH)
  qed
qed

text \<open>
  At startup the limit is absolute. The records rebuilt from Migration objects are all
  marked as seeded, so those beyond the limit are dropped even when their migration is still
  in flight.
\<close>

lemma startup_seed_bounded:
  "int (length (hs_order (seed_history recs (new_store enabled limit)))) \<le> hs_limit (new_store enabled limit)"
proof -
  let ?s0 = "new_store enabled limit" and ?s = "seed_loop recs (new_store enabled limit)"
  have inv: "hist_inv ?s" by (rule hist_inv_seed_loop [OF hist_inv_new])
  have seeded: "hr_seeded rec" if "fmlookup (hs_records ?s) k = Some rec" for k rec
    by (rule seed_loop_all_seeded [OF _ that]) (simp add: new_store_def)
  have "evictable (hs_records (evict ?s)) k" if k: "k \<in> set (hs_order (evict ?s))" for k
  proof -
    from k evict_spec(1) [OF inv] obtain rec where
      l: "fmlookup (hs_records (evict ?s)) k = Some rec"
      by (auto simp: hist_inv_def fmlookup_dom_iff)
    from evict_spec(4) [OF inv l] have "hr_seeded rec" by (rule seeded)
    with l show ?thesis by (simp add: evictable_def)
  qed
  then have "int (length (hs_order (evict ?s))) \<le> hs_limit ?s \<or> hs_order (evict ?s) = []"
    using evict_spec(2) [OF inv] by (metis last_in_set)
  moreover have "0 < hs_limit ?s" using inv by (simp add: hist_inv_def)
  ultimately show ?thesis unfolding seed_history_def by auto
qed

end
