(* ===== verification/HistoryMetrics.thy ===== *)
theory HistoryMetrics
  imports HistorySpec
begin

text \<open>
  The numbers of the history: the steps of a record lie inside its life, one after the other;
  the downtime of a finished migration is at most its total time; the record of a migration in
  the store is the fold of its own transitions; and the summary's counts and averages.
\<close>

section \<open>Steps inside a span\<close>

definition working_phase :: "string \<Rightarrow> bool" where
  "working_phase phase \<longleftrightarrow> phase \<noteq> phase_completed \<and> phase \<noteq> phase_failed"

fun steps_in :: "instant \<Rightarrow> hstep list \<Rightarrow> instant \<Rightarrow> bool" where
  "steps_in lo [] hi = (lo \<le> hi)"
| "steps_in lo (st # sts) hi =
     (lo \<le> st_started_at st \<and> working_phase (st_phase st) \<and>
      (case st_ended_at st of
         None \<Rightarrow> sts = [] \<and> st_started_at st \<le> hi
       | Some e \<Rightarrow> st_started_at st \<le> e \<and>
           st_duration_ms st = milliseconds (time_sub e (st_started_at st)) \<and> steps_in e sts hi))"

definition all_closed :: "hstep list \<Rightarrow> bool" where
  "all_closed sts \<longleftrightarrow> list_all (\<lambda>st. st_ended_at st \<noteq> None) sts"

lemma steps_in_le: "steps_in lo sts hi \<Longrightarrow> lo \<le> hi"
  by (induction sts arbitrary: lo) (auto split: option.splits intro: order_trans)

lemma steps_in_mono: "steps_in lo sts hi \<Longrightarrow> hi \<le> hi' \<Longrightarrow> steps_in lo sts hi'"
  by (induction sts arbitrary: lo) (auto split: option.splits)

lemma steps_in_snoc_open:
  "steps_in lo sts hi \<Longrightarrow> all_closed sts \<Longrightarrow> hi \<le> tr_time tr \<Longrightarrow> working_phase (tr_phase tr) \<Longrightarrow>
   steps_in lo (sts @ [open_step tr]) (tr_time tr)"
  by (induction sts arbitrary: lo) (auto simp: open_step_def all_closed_def split: option.splits)

lemma steps_in_init_closed: "steps_in lo (sts @ [st]) hi \<Longrightarrow> all_closed sts"
  by (induction sts arbitrary: lo) (auto simp: all_closed_def split: option.splits)

lemma steps_in_last_working: "steps_in lo (sts @ [st]) hi \<Longrightarrow> working_phase (st_phase st)"
  by (induction sts arbitrary: lo) (auto split: option.splits)

lemma steps_in_close:
  "steps_in lo (sts @ [st]) hi \<Longrightarrow> st_ended_at st = None \<Longrightarrow> hi \<le> t \<Longrightarrow>
   steps_in lo (sts @ [close_step t st]) t"
  by (induction sts arbitrary: lo) (auto simp: close_step_def split: option.splits)

lemma steps_in_message:
  "steps_in lo (sts @ [st]) hi \<Longrightarrow> hi \<le> t \<Longrightarrow> steps_in lo (sts @ [st\<lparr>st_message := msg\<rparr>]) t"
  by (induction sts arbitrary: lo) (auto intro: steps_in_mono split: option.splits)

section \<open>Downtime against total time\<close>

lemma downtime_eq: "downtime now sts = sum_list (map (step_downtime now) sts)"
proof -
  have "foldl (\<lambda>ms st. ms + step_downtime now st) a sts = a + sum_list (map (step_downtime now) sts)" for a
    by (induction sts arbitrary: a) simp_all
  then show ?thesis by (simp add: downtime_def)
qed

lemma closed_downtime_bounds:
  "steps_in lo sts hi \<Longrightarrow> all_closed sts \<Longrightarrow> hi - lo \<le> max_duration \<Longrightarrow>
   0 \<le> sum_list (map (step_downtime now) sts) \<and>
   sum_list (map (step_downtime now) sts) \<le> milliseconds (time_sub hi lo)"
proof (induction sts arbitrary: lo)
  case Nil
  then show ?case by simp
next
  case (Cons st sts)
  then obtain e where e: "st_ended_at st = Some e" by (auto simp: all_closed_def)
  with Cons.prems have lo: "lo \<le> st_started_at st" and st: "st_started_at st \<le> e"
    and dur: "st_duration_ms st = milliseconds (time_sub e (st_started_at st))"
    and rest: "steps_in e sts hi" and closed: "all_closed sts"
    by (auto simp: all_closed_def)
  have ehi: "e \<le> hi" by (rule steps_in_le [OF rest])
  have short: "hi - e \<le> max_duration" using Cons.prems(3) lo st by simp
  have step: "0 \<le> step_downtime now st \<and> step_downtime now st \<le> milliseconds (time_sub e lo)"
  proof -
    have "time_sub e (st_started_at st) \<le> time_sub e lo" using lo by (simp add: time_sub_def)
    then have "milliseconds (time_sub e (st_started_at st)) \<le> milliseconds (time_sub e lo)"
      using lo st by (simp add: milliseconds_pos zdiv_mono1)
    with e dur st lo show ?thesis by (simp add: step_downtime_def)
  qed
  have "milliseconds (time_sub e lo) + milliseconds (time_sub hi e) \<le>
      milliseconds (time_sub e lo + time_sub hi e)"
    using lo st ehi by (intro milliseconds_add_le) simp_all
  also have "time_sub e lo + time_sub hi e = time_sub hi lo"
    using lo st ehi Cons.prems(3) by (intro time_sub_split) simp_all
  finally show ?case using step Cons.IH [OF rest closed short] by simp
qed

section \<open>Transitions keep the steps in order\<close>

definition span_inv :: "instant \<Rightarrow> hrecord \<Rightarrow> bool" where
  "span_inv w rec \<longleftrightarrow> steps_in (hr_started_at rec) (hr_steps rec) w"

definition finished_inv :: "instant \<Rightarrow> hrecord \<Rightarrow> bool" where
  "finished_inv w rec \<longleftrightarrow>
     (hr_terminal rec \<longrightarrow>
        all_closed (hr_steps rec) \<and> hr_completed_at rec = Some w \<and>
        hr_total_ms rec = milliseconds (time_sub w (hr_started_at rec)) \<and>
        (w - hr_started_at rec \<le> max_duration \<longrightarrow>
           0 \<le> hr_downtime_ms rec \<and> hr_downtime_ms rec \<le> hr_total_ms rec))"

lemma refresh_record_fields [simp]:
  "hr_steps (refresh_record tr rec) = hr_steps rec"
  "hr_started_at (refresh_record tr rec) = hr_started_at rec"
  "hr_phase (refresh_record tr rec) = tr_phase tr"
  "hr_completed_at (refresh_record tr rec) = hr_completed_at rec"
  "has_open_step (refresh_record tr rec) = has_open_step rec"
  by (simp_all add: refresh_record_def has_open_step_def Let_def)

lemma span_inv_closed: "span_inv w rec \<Longrightarrow> \<not> has_open_step rec \<Longrightarrow> all_closed (hr_steps rec)"
  by (cases "hr_steps rec" rule: rev_cases)
     (auto simp: span_inv_def has_open_step_def all_closed_def
       dest: steps_in_init_closed [unfolded all_closed_def])

lemma enter_phase_inv:
  assumes "steps_in (hr_started_at rec) (hr_steps rec) (tr_time tr)" and "all_closed (hr_steps rec)"
    and "hr_phase rec = tr_phase tr"
  shows "span_inv (tr_time tr) (enter_phase now tr rec) \<and> finished_inv (tr_time tr) (enter_phase now tr rec)"
proof (cases "hr_terminal rec")
  case True
  then show ?thesis
    using assms closed_downtime_bounds [OF assms(1,2)]
    by (auto simp: enter_phase_def span_inv_def finished_inv_def downtime_eq hr_terminal_def)
next
  case False
  then have "working_phase (tr_phase tr)"
    using assms(3) by (simp add: hr_terminal_def working_phase_def)
  then show ?thesis
    using False assms steps_in_snoc_open [OF assms(1,2)]
    by (simp add: enter_phase_def span_inv_def finished_inv_def hr_terminal_def)
qed

lemma apply_transition_inv:
  assumes "span_inv w rec" and "w \<le> tr_time tr"
  shows "span_inv (tr_time tr) (apply_transition now tr rec) \<and>
         finished_inv (tr_time tr) (apply_transition now tr rec)"
proof (cases "has_open_step rec")
  case False
  have "steps_in (hr_started_at rec) (hr_steps rec) (tr_time tr)"
    using assms by (auto simp: span_inv_def intro: steps_in_mono)
  then show ?thesis
    using False span_inv_closed [OF assms(1) False]
    by (simp add: apply_transition_def Let_def enter_phase_inv)
next
  case True
  then obtain sts st where steps: "hr_steps rec = sts @ [st]" and op: "st_ended_at st = None"
    by (cases "hr_steps rec" rule: rev_cases) (auto simp: has_open_step_def)
  have si: "steps_in (hr_started_at rec) (sts @ [st]) w"
    using assms(1) by (simp add: span_inv_def steps)
  have working: "working_phase (st_phase st)"
    by (rule steps_in_last_working [OF si])
  show ?thesis
  proof (cases "st_phase st = tr_phase tr")
    case same: True
    then show ?thesis
      using True steps working steps_in_message [OF si assms(2)]
      by (simp add: apply_transition_def Let_def span_inv_def finished_inv_def hr_terminal_def
          working_phase_def)
  next
    case False
    have "all_closed (sts @ [close_step (tr_time tr) st])"
      using steps_in_init_closed [OF si] by (simp add: all_closed_def close_step_def)
    then show ?thesis
      using True False steps steps_in_close [OF si op assms(2)]
      by (simp add: apply_transition_def Let_def enter_phase_inv)
  qed
qed

section \<open>The record of one migration in the store\<close>

type_synonym recording = "instant \<times> instant \<times> transition"

definition recordings :: "recording list \<Rightarrow> hist_op list" where
  "recordings trs = map (\<lambda>(now, now', tr). HRecord now now' tr) trs"

definition own_step :: "hrecord option \<Rightarrow> recording \<Rightarrow> hrecord option" where
  "own_step r x =
     (case x of (now, now', tr) \<Rightarrow>
        Some (apply_transition now' (tr_stamp now tr)
          (case r of None \<Rightarrow> fresh_record (tr_stamp now tr) | Some rec \<Rightarrow> rec)))"

definition about :: "string \<Rightarrow> recording \<Rightarrow> bool" where
  "about k x \<longleftrightarrow> (case x of (_, _, tr) \<Rightarrow> tr_key tr = k)"

definition own_history :: "string \<Rightarrow> recording list \<Rightarrow> hrecord option" where
  "own_history k trs = foldl own_step None (filter (about k) trs)"

definition own_times :: "string \<Rightarrow> recording list \<Rightarrow> instant list" where
  "own_times k trs =
     map (\<lambda>(now, _, tr). tr_time (tr_stamp now tr)) (filter (about k) trs)"

definition in_flight :: "string \<Rightarrow> recording list \<Rightarrow> bool" where
  "in_flight k trs \<longleftrightarrow>
     list_all (\<lambda>(now, _, tr). tr_key tr = k \<longrightarrow> working_phase (tr_phase tr)) trs"

lemma tr_phase_stamp [simp]: "tr_phase (tr_stamp now tr) = tr_phase tr"
  by (simp add: tr_stamp_def)

lemma own_history_snoc:
  "own_history k (trs @ [(now, now', tr)]) =
     (if tr_key tr = k then own_step (own_history k trs) (now, now', tr) else own_history k trs)"
  by (simp add: own_history_def about_def)

lemma own_step_inv:
  assumes "own_step r (now, now', tr) = Some rec"
    and "\<And>rec0. r = Some rec0 \<Longrightarrow> hr_started_at rec0 = lo \<and> span_inv w rec0 \<and> w \<le> tr_time (tr_stamp now tr)"
    and "r = None \<Longrightarrow> lo = tr_time (tr_stamp now tr)"
  shows "hr_started_at rec = lo \<and> span_inv (tr_time (tr_stamp now tr)) rec \<and>
         finished_inv (tr_time (tr_stamp now tr)) rec"
proof (cases r)
  case None
  have "span_inv lo (fresh_record (tr_stamp now tr))"
    using assms(3) None by (simp add: span_inv_def fresh_record_def zero_hrecord_def)
  from apply_transition_inv [OF this, of "tr_stamp now tr" now'] assms(1,3) None
  show ?thesis by (auto simp: own_step_def fresh_record_def)
next
  case (Some rec0)
  with assms(2) have "hr_started_at rec0 = lo" and "span_inv w rec0"
    and "w \<le> tr_time (tr_stamp now tr)" by blast+
  with apply_transition_inv [of w rec0 "tr_stamp now tr" now'] assms(1) Some
  show ?thesis by (auto simp: own_step_def)
qed

lemma own_history_None: "own_history k trs = None \<longleftrightarrow> own_times k trs = []"
proof (induction trs rule: rev_induct)
  case Nil
  then show ?case by (simp add: own_history_def own_times_def)
next
  case (snoc x trs)
  obtain now now' tr where x: "x = (now, now', tr)" by (cases x)
  show ?case using snoc
    by (simp add: x own_history_snoc) (simp add: own_times_def own_step_def about_def)
qed

lemma own_history_inv:
  "own_history k trs = Some rec \<Longrightarrow> sorted (own_times k trs) \<Longrightarrow>
   hr_started_at rec = hd (own_times k trs) \<and> span_inv (last (own_times k trs)) rec \<and>
   finished_inv (last (own_times k trs)) rec"
proof (induction trs arbitrary: rec rule: rev_induct)
  case Nil
  then show ?case by (simp add: own_history_def)
next
  case (snoc x trs)
  obtain now now' tr where x: "x = (now, now', tr)" by (cases x)
  let ?t = "tr_time (tr_stamp now tr)"
  show ?case
  proof (cases "tr_key tr = k")
    case False
    then have "own_times k (trs @ [x]) = own_times k trs" by (simp add: own_times_def about_def x)
    with False snoc show ?thesis by (simp add: x own_history_snoc)
  next
    case True
    have times: "own_times k (trs @ [x]) = own_times k trs @ [?t]"
      using True by (simp add: own_times_def about_def x)
    have srt: "sorted (own_times k trs)" and le: "\<forall>u \<in> set (own_times k trs). u \<le> ?t"
      using snoc.prems(2) by (simp_all add: times sorted_append)
    have step: "own_step (own_history k trs) (now, now', tr) = Some rec"
      using snoc.prems(1) True by (simp add: x own_history_snoc)
    have "hr_started_at rec = hd (own_times k trs @ [?t]) \<and> span_inv ?t rec \<and> finished_inv ?t rec"
    proof (rule own_step_inv [OF step, of _ "last (own_times k trs)"])
      fix rec0 assume r0: "own_history k trs = Some rec0"
      then have ne: "own_times k trs \<noteq> []" by (metis own_history_None option.distinct(1))
      with snoc.IH [OF r0 srt] le
      show "hr_started_at rec0 = hd (own_times k trs @ [?t]) \<and>
          span_inv (last (own_times k trs)) rec0 \<and> last (own_times k trs) \<le> ?t"
        by simp
    next
      assume "own_history k trs = None"
      then show "hd (own_times k trs @ [?t]) = ?t" by (simp add: own_history_None)
    qed
    then show ?thesis by (simp add: times)
  qed
qed

lemma hist_run_snoc: "hist_run e l (ops @ [op]) = hist_step (hist_run e l ops) op"
  by (simp add: hist_run_def)

lemma recordings_snoc [simp]:
  "recordings (trs @ [(now, now', tr)]) = recordings trs @ [HRecord now now' tr]"
  by (simp add: recordings_def)

lemma record_transition_enabled [simp]:
  "hs_enabled (record_transition now now' tr s) = hs_enabled s"
proof (cases "fmlookup (hs_records s) (tr_key tr)")
  case None
  then show ?thesis by (simp add: record_transition_eq insert_fresh_def Let_def split: option.splits)
next
  case (Some rec)
  then show ?thesis by (simp add: record_transition_eq Let_def)
qed

lemma enabled_recordings [simp]: "hs_enabled (hist_run True limit (recordings trs))"
proof (induction trs rule: rev_induct)
  case Nil
  then show ?case by (simp add: recordings_def hist_run_def new_store_def)
next
  case (snoc x trs)
  then show ?case by (cases x) (simp add: hist_run_snoc)
qed

lemma own_history_in_flight:
  "in_flight k trs \<Longrightarrow> own_history k trs = Some rec \<Longrightarrow> \<not> hr_terminal rec \<and> \<not> hr_seeded rec"
proof (induction trs arbitrary: rec rule: rev_induct)
  case Nil
  then show ?case by (simp add: own_history_def)
next
  case (snoc x trs)
  obtain now now' tr where x: "x = (now, now', tr)" by (cases x)
  have seeded: "\<not> hr_seeded rec0" if "own_history k trs = Some rec0" for rec0
    using snoc.IH [OF _ that] snoc.prems(1) by (simp add: in_flight_def)
  show ?case
  proof (cases "tr_key tr = k")
    case True
    then have "working_phase (tr_phase tr)" using snoc.prems(1) by (simp add: in_flight_def x)
    with snoc.prems(2) True seeded show ?thesis
      by (auto simp: x own_history_snoc own_step_def working_phase_def split: option.splits)
  next
    case False
    with snoc show ?thesis by (simp add: x own_history_snoc in_flight_def)
  qed
qed

lemma store_own_history:
  "in_flight k trs \<Longrightarrow>
   fmlookup (hs_records (hist_run True limit (recordings trs))) k = own_history k trs"
proof (induction trs rule: rev_induct)
  case Nil
  then show ?case by (simp add: recordings_def hist_run_def new_store_def own_history_def)
next
  case (snoc x trs)
  obtain now now' tr where x: "x = (now, now', tr)" by (cases x)
  let ?s = "hist_run True limit (recordings trs)"
  have fl: "in_flight k trs" using snoc.prems by (simp add: in_flight_def)
  with snoc.IH have IH: "fmlookup (hs_records ?s) k = own_history k trs" .
  show ?case
  proof (cases "tr_key tr = k")
    case True
    with record_transition_own [of ?s now now' tr] IH show ?thesis
      by (simp add: x hist_run_snoc hist_run_inv own_history_snoc own_step_def)
  next
    case False
    have "\<not> evictable (hs_records ?s) k"
      using own_history_in_flight [OF fl] by (auto simp: evictable_def IH split: option.splits)
    with record_transition_other [of ?s k tr now now'] False IH show ?thesis
      by (simp add: x hist_run_snoc hist_run_inv own_history_snoc)
  qed
qed

lemma store_last_transition:
  assumes "in_flight (tr_key tr) trs"
  shows "fmlookup (hs_records (hist_run True limit (recordings trs @ [HRecord now now' tr]))) (tr_key tr) =
         own_history (tr_key tr) (trs @ [(now, now', tr)])"
  using record_transition_own [of "hist_run True limit (recordings trs)" now now' tr]
    store_own_history [OF assms, of limit]
  by (simp add: hist_run_snoc hist_run_inv own_history_snoc own_step_def)

text \<open>
  C23: the record of a migration is the fold of its own transitions, whatever other migrations
  record in between and whatever is evicted for them, up to and including its last phase.
\<close>

theorem migrations_isolated:
  assumes "in_flight (tr_key tr) trs"
  shows "fmlookup (hs_records (hist_run True limit (recordings (trs @ [(now, now', tr)])))) (tr_key tr) =
         own_history (tr_key tr) (trs @ [(now, now', tr)])"
  by (simp add: store_last_transition [OF assms])

text \<open>
  C30: when a migration finishes, the store holds its total time, first transition to last, and a
  downtime between zero and that total, provided its transitions arrive in the order of time.
\<close>

theorem downtime_within_total:
  assumes "in_flight (tr_key tr) trs" and "\<not> working_phase (tr_phase tr)"
    and "ts = own_times (tr_key tr) (trs @ [(now, now', tr)])"
    and "sorted ts" and "last ts - hd ts \<le> max_duration"
  shows "\<exists>rec. fmlookup (hs_records (hist_run True limit (recordings (trs @ [(now, now', tr)]))))
                (tr_key tr) = Some rec \<and>
           hr_completed_at rec = Some (last ts) \<and>
           hr_total_ms rec = milliseconds (time_sub (last ts) (hd ts)) \<and>
           0 \<le> hr_downtime_ms rec \<and> hr_downtime_ms rec \<le> hr_total_ms rec"
proof -
  let ?trs = "trs @ [(now, now', tr)]"
  obtain rec where rec: "own_history (tr_key tr) ?trs = Some rec"
    by (simp add: own_history_snoc own_step_def)
  have "hr_terminal rec"
    using rec assms(2) by (auto simp: own_history_snoc own_step_def working_phase_def)
  moreover have "sorted (own_times (tr_key tr) ?trs)" using assms(3,4) by simp
  from own_history_inv [OF rec this]
  have "hr_started_at rec = hd ts" and "finished_inv (last ts) rec"
    by (simp_all add: assms(3))
  ultimately have "hr_completed_at rec = Some (last ts) \<and>
      hr_total_ms rec = milliseconds (time_sub (last ts) (hd ts)) \<and>
      0 \<le> hr_downtime_ms rec \<and> hr_downtime_ms rec \<le> hr_total_ms rec"
    using assms(5) by (simp add: finished_inv_def)
  with rec show ?thesis by (simp add: store_last_transition [OF assms(1)])
qed

section \<open>A migration recreated under the same name\<close>

text \<open>
  A record that finished and is reopened by a transition of a new migration of the same name
  keeps the old completion time and the old start: a record can be in flight and completed.
\<close>

lemma reopened_record_stays_completed:
  assumes "fmlookup (hs_records (hist_run True limit ops)) (tr_key tr) = Some rec"
    and "hs_enabled (hist_run True limit ops)"
    and "hr_terminal rec" and "hr_completed_at rec = Some t" and "\<not> has_open_step rec"
    and "working_phase (tr_phase tr)"
  shows "\<exists>rec'. fmlookup (hs_records (hist_run True limit (ops @ [HRecord now now' tr]))) (tr_key tr) = Some rec' \<and>
           \<not> hr_terminal rec' \<and> hr_completed_at rec' = Some t \<and>
           hr_started_at rec' = hr_started_at rec \<and> hr_total_ms rec' = hr_total_ms rec"
proof -
  have "fmlookup (hs_records (hist_run True limit (ops @ [HRecord now now' tr]))) (tr_key tr) =
      Some (apply_transition now' (tr_stamp now tr) rec)"
    using record_transition_own [OF hist_run_inv assms(2)] assms(1) by (simp add: hist_run_snoc)
  moreover have "hr_completed_at (apply_transition now' (tr_stamp now tr) rec) = Some t"
    and "hr_total_ms (apply_transition now' (tr_stamp now tr) rec) = hr_total_ms rec"
    using assms(4-6)
    by (simp_all add: apply_transition_def enter_phase_def Let_def hr_terminal_def working_phase_def
        refresh_record_def has_open_step_def)
  ultimately show ?thesis using assms(6) by (simp add: working_phase_def)
qed

section \<open>The summary\<close>

definition closed_steps :: "string \<Rightarrow> hstep list \<Rightarrow> hstep list" where
  "closed_steps phase sts = filter (\<lambda>st. st_phase st = phase \<and> st_ended_at st \<noteq> None) sts"

lemma acc_step_lookup:
  "fmlookup (acc_step m st) p =
     (if st_phase st = p \<and> st_ended_at st \<noteq> None
      then (case (case fmlookup m p of None \<Rightarrow> (0, 0) | Some a \<Rightarrow> a) of
              (t, c) \<Rightarrow> Some (t + st_duration_ms st, c + 1))
      else fmlookup m p)"
  by (auto simp: acc_step_def Let_def split: option.splits prod.splits)

lemma acc_steps_lookup:
  "fmlookup (foldl acc_step m sts) p =
     (if closed_steps p sts = [] then fmlookup m p
      else (let (total, count) = (case fmlookup m p of None \<Rightarrow> (0, 0) | Some a \<Rightarrow> a)
            in Some (total + sum_list (map st_duration_ms (closed_steps p sts)),
                     count + int (length (closed_steps p sts)))))"
proof (induction sts arbitrary: m)
  case Nil
  then show ?case by (simp add: closed_steps_def)
next
  case (Cons st sts)
  have "closed_steps p (st # sts) =
      (if st_phase st = p \<and> st_ended_at st \<noteq> None then [st] else []) @ closed_steps p sts"
    by (simp add: closed_steps_def)
  then show ?case
    using Cons.IH [of "acc_step m st"]
    by (cases "fmlookup m p") (simp_all add: acc_step_lookup Let_def split: prod.splits)
qed

lemma acc_record_fields:
  "sa_total (acc_record a rec) = sa_total a + 1"
  "sa_completed (acc_record a rec) = sa_completed a + of_bool (hr_phase rec = phase_completed)"
  "sa_failed (acc_record a rec) = sa_failed a + of_bool (hr_phase rec = phase_failed)"
  "sa_active (acc_record a rec) = sa_active a + of_bool (\<not> hr_terminal rec)"
  "sa_finished (acc_record a rec) = sa_finished a + of_bool (hr_terminal rec)"
  "sa_total_ms (acc_record a rec) = sa_total_ms a + of_bool (hr_terminal rec) * hr_total_ms rec"
  "sa_downtime_ms (acc_record a rec) = sa_downtime_ms a + of_bool (hr_terminal rec) * hr_downtime_ms rec"
  "sa_phases (acc_record a rec) = foldl acc_step (sa_phases a) (hr_steps rec)"
  by (auto simp: acc_record_def Let_def hr_terminal_def phase_completed_def phase_failed_def)

definition count_of :: "(hrecord \<Rightarrow> bool) \<Rightarrow> hrecord list \<Rightarrow> int" where
  "count_of P recs = int (length (filter P recs))"

lemma acc_records_fields:
  "sa_total (foldl acc_record a recs) = sa_total a + int (length recs)"
  "sa_completed (foldl acc_record a recs) =
     sa_completed a + count_of (\<lambda>r. hr_phase r = phase_completed) recs"
  "sa_failed (foldl acc_record a recs) = sa_failed a + count_of (\<lambda>r. hr_phase r = phase_failed) recs"
  "sa_active (foldl acc_record a recs) = sa_active a + count_of (\<lambda>r. \<not> hr_terminal r) recs"
  "sa_finished (foldl acc_record a recs) = sa_finished a + count_of hr_terminal recs"
  "sa_total_ms (foldl acc_record a recs) =
     sa_total_ms a + sum_list (map hr_total_ms (filter hr_terminal recs))"
  "sa_downtime_ms (foldl acc_record a recs) =
     sa_downtime_ms a + sum_list (map hr_downtime_ms (filter hr_terminal recs))"
  "sa_phases (foldl acc_record a recs) = foldl acc_step (sa_phases a) (concat (map hr_steps recs))"
  by (induction recs arbitrary: a) (simp_all add: acc_record_fields count_of_def)

lemma count_of_split:
  "int (length recs) =
     count_of (\<lambda>r. \<not> hr_terminal r) recs + count_of (\<lambda>r. hr_phase r = phase_completed) recs +
     count_of (\<lambda>r. hr_phase r = phase_failed) recs"
  "count_of hr_terminal recs =
     count_of (\<lambda>r. hr_phase r = phase_completed) recs + count_of (\<lambda>r. hr_phase r = phase_failed) recs"
  by (induction recs) (auto simp: count_of_def hr_terminal_def phase_completed_def phase_failed_def)

text \<open>
  C38: the summary partitions the records into active, completed and failed ones; its averages
  are the truncated means over the finished records, and those per phase the means over the
  closed steps of that phase, listed exactly for the phases that have one.
\<close>

theorem summarize_correct:
  "su_total (summarize fdiv recs) = int (length recs) \<and>
   su_total (summarize fdiv recs) =
     su_active (summarize fdiv recs) + su_completed (summarize fdiv recs) + su_failed (summarize fdiv recs) \<and>
   su_completed (summarize fdiv recs) = count_of (\<lambda>r. hr_phase r = phase_completed) recs \<and>
   su_failed (summarize fdiv recs) = count_of (\<lambda>r. hr_phase r = phase_failed) recs \<and>
   su_avg_total_ms (summarize fdiv recs) =
     sum_list (map hr_total_ms (filter hr_terminal recs)) sdiv count_of hr_terminal recs \<and>
   su_avg_downtime_ms (summarize fdiv recs) =
     sum_list (map hr_downtime_ms (filter hr_terminal recs)) sdiv count_of hr_terminal recs \<and>
   fmlookup (su_phase_avg_ms (summarize fdiv recs)) p =
     (let sts = closed_steps p (concat (map hr_steps recs))
      in if sts = [] then None
         else Some (sum_list (map st_duration_ms sts) sdiv int (length sts)))"
proof -
  have avg: "x sdiv count_of hr_terminal recs = 0" if "\<not> 0 < count_of hr_terminal recs" for x
    using that
    by (simp add: count_of_def signed_divide_int_def)
  show ?thesis
    using count_of_split(1) [of recs]
    by (simp add: summarize_def Let_def acc_records_fields zero_acc_def acc_steps_lookup avg)
qed

end
