(* ===== verification/RestApi.thy ===== *)
theory RestApi
  imports WorkloadController HistoryMetrics
begin

text \<open>
  The REST API of the coordinator (\<open>operator/pkg/restapi\<close>): the routing table, the decoded
  requests, the handlers and their answers. A handler that takes the registry's lock twice lets
  other requests in between: their effect on the registry is the argument \<open>mid\<close>, the identity
  when there is none. A request body is here the decoded value, or \<open>None\<close> when decoding failed;
  theory HttpApi has the decoding and the encoding of the answers.
\<close>

section \<open>Requests and answers\<close>

record message =
  me_pod_name :: string
  me_pod_address :: string
  me_container_port :: int
  me_is_new :: bool
  me_is_mig :: bool
  me_process_migration :: bool
  me_volume_migration :: bool
  me_checkpoint_dir :: string
  me_sync_rounds :: int

definition zero_message :: message where
  "zero_message =
     \<lparr>me_pod_name = [], me_pod_address = [], me_container_port = 0, me_is_new = False,
      me_is_mig = False, me_process_migration = False, me_volume_migration = False,
      me_checkpoint_dir = [], me_sync_rounds = 0\<rparr>"

record remove_response =
  rr_needs_checkpoint :: bool
  rr_process_migration :: bool
  rr_volume_migration :: bool
  rr_dest_address :: string

record poll_response =
  po_pod_name :: string
  po_migrating :: bool
  po_process_migration :: bool
  po_volume_migration :: bool
  po_checkpoint_dir :: string
  po_sync_rounds :: int
  po_sync_round :: int

record migrate_request =
  mr_deployment :: string
  mr_origin_node :: string
  mr_dest_node :: string
  mr_label :: string
  mr_workload :: string
  mr_namespace :: string
  mr_pod_name :: string
  mr_source_node :: string
  mr_target_node :: string

record legacy_pod =
  lp_pod_name :: string
  lp_pod_address :: string
  lp_migrating :: bool

record api_pod =
  ap_name :: string
  ap_address :: string
  ap_container_port :: int
  ap_node :: string
  ap_workload :: string
  ap_namespace :: string
  ap_migrating :: bool
  ap_checkpoint_ready :: bool
  ap_restored :: bool
  ap_process_migration :: bool
  ap_volume_migration :: bool
  ap_sync_round :: int
  ap_sync_rounds :: int
  ap_registered_at :: "instant option"
  ap_last_seen :: "instant option"

record api_migration =
  am_name :: string
  am_namespace :: string
  am_workload :: string
  am_pod_name :: string
  am_source_node :: string
  am_target_node :: string
  am_phase :: string
  am_message :: string
  am_source_pod :: string
  am_destination_pod :: string
  am_process_migration :: bool
  am_volume_migration :: bool
  am_sync_round :: int
  am_sync_rounds :: int
  am_start_time :: "instant option"
  am_completion_time :: "instant option"

datatype 'f body =
    BError string
  | BStatus string
  | BMessage message
  | BRemove remove_response
  | BCopyInitiated string
  | BSyncRecorded string int int
  | BRestored string
  | BPoll poll_response
  | BMigrationStarted string string string
  | BLegacyPods "legacy_pod list"
  | BPods "api_pod list"
  | BNodes "string list"
  | BMigrations "api_migration list"
  | BHistoryOff
  | BHistory "'f summary" "hrecord list"
  | BHistoryConfig bool

datatype 'f response = Response (code_of: nat) (body_of: "'f body")

abbreviation invalid_body :: "'f response" where
  "invalid_body \<equiv> Response 400 (BError ''invalid request body'')"

definition not_registered :: "string \<Rightarrow> 'f response" where
  "not_registered n = Response 404 (BError (''pod '' @ quote n @ '' not registered''))"

section \<open>The agents' endpoints\<close>

text \<open>\<open>rec, _ := Get(..)\<close>: the zero record when the pod is unknown.\<close>

definition get_or_zero :: "string \<Rightarrow> registry \<Rightarrow> pod_record" where
  "get_or_zero n m = (case get_record n m of None \<Rightarrow> zero_pod_record | Some rec \<Rightarrow> rec)"

definition handle_register ::
    "instant \<Rightarrow> (registry \<Rightarrow> registry) \<Rightarrow> message option \<Rightarrow> registry \<Rightarrow> 'f response \<times> registry" where
  "handle_register now mid req m =
     (case req of
        None \<Rightarrow> (invalid_body, m)
      | Some msg \<Rightarrow>
          (if me_pod_name msg = [] then (Response 400 (BError ''podName is required''), m)
           else
             (let name = me_pod_name msg;
                  ((prev, is_new), m1) = register now name (me_pod_address msg) (me_container_port msg) m;
                  m2 = mid m1;
                  rec = get_or_zero name m2
              in if is_new
                 then (Response 201 (BMessage (zero_message\<lparr>me_pod_name := name,
                         me_pod_address := me_pod_address msg, me_is_new := True,
                         me_process_migration := pr_process_migration rec,
                         me_volume_migration := pr_volume_migration rec\<rparr>)), m2)
                 else (Response 200 (BMessage
                         \<lparr>me_pod_name = name, me_pod_address = pr_address prev,
                          me_container_port = me_container_port msg, me_is_new = False,
                          me_is_mig = pr_migrating rec,
                          me_process_migration = pr_process_migration rec,
                          me_volume_migration = pr_volume_migration rec,
                          me_checkpoint_dir = pr_checkpoint_dir rec,
                          me_sync_rounds = pr_sync_rounds rec\<rparr>), m2))))"

definition handle_remove :: "string option \<Rightarrow> registry \<Rightarrow> 'f response" where
  "handle_remove req m =
     (case req of
        None \<Rightarrow> invalid_body
      | Some name \<Rightarrow>
          (case get_record name m of
             None \<Rightarrow> not_registered name
           | Some rec \<Rightarrow>
               Response 200 (BRemove
                 \<lparr>rr_needs_checkpoint = pr_migrating rec,
                  rr_process_migration = pr_process_migration rec,
                  rr_volume_migration = pr_volume_migration rec,
                  rr_dest_address = (if pr_migrating rec then pr_dest_address rec else [])\<rparr>)))"

definition handle_copy :: "(string \<times> string) option \<Rightarrow> registry \<Rightarrow> 'f response \<times> registry" where
  "handle_copy req m =
     (case req of
        None \<Rightarrow> (invalid_body, m)
      | Some (name, dir) \<Rightarrow>
          (case mark_checkpoint_ready name dir m of
             (False, m') \<Rightarrow> (not_registered name, m')
           | (True, m') \<Rightarrow> (Response 200 (BCopyInitiated name), m')))"

definition handle_sync ::
    "(registry \<Rightarrow> registry) \<Rightarrow> (string \<times> int) option \<Rightarrow> registry \<Rightarrow> 'f response \<times> registry" where
  "handle_sync mid req m =
     (case req of
        None \<Rightarrow> (invalid_body, m)
      | Some (name, rnd) \<Rightarrow>
          (case record_sync_round name rnd m of
             (False, m') \<Rightarrow> (not_registered name, m')
           | (True, m1) \<Rightarrow>
               (let m2 = mid m1; rec = get_or_zero name m2;
                    remaining = i64 (pr_sync_rounds rec - pr_sync_round rec)
                in (Response 200 (BSyncRecorded name (pr_sync_round rec)
                      (if remaining < 0 then 0 else remaining)), m2))))"

definition handle_restored :: "string option \<Rightarrow> registry \<Rightarrow> 'f response \<times> registry" where
  "handle_restored req m =
     (case req of
        None \<Rightarrow> (invalid_body, m)
      | Some name \<Rightarrow>
          (case mark_restored name m of
             (False, m') \<Rightarrow> (not_registered name, m')
           | (True, m') \<Rightarrow> (Response 200 (BRestored name), m')))"

definition handle_poll :: "string \<Rightarrow> registry \<Rightarrow> 'f response" where
  "handle_poll name m =
     (if name = [] then Response 400 (BError ''podName query parameter is required'')
      else (case get_record name m of
              None \<Rightarrow> not_registered name
            | Some rec \<Rightarrow>
                Response 200 (BPoll
                  \<lparr>po_pod_name = pr_name rec, po_migrating = pr_migrating rec,
                   po_process_migration = pr_process_migration rec,
                   po_volume_migration = pr_volume_migration rec,
                   po_checkpoint_dir = pr_checkpoint_dir rec, po_sync_rounds = pr_sync_rounds rec,
                   po_sync_round = pr_sync_round rec\<rparr>)))"

section \<open>Starting a migration\<close>

record server =
  sv_default_namespace :: string
  sv_has_client :: bool
  sv_dashboard_disabled :: bool

definition or_else :: "string \<Rightarrow> string \<Rightarrow> string" where
  "or_else a b = (if a = [] then b else a)"

fun contains :: "string \<Rightarrow> string \<Rightarrow> bool" where
  "contains [] p = (p = [])"
| "contains (c # s) p = (has_prefix (c # s) p \<or> contains s p)"

definition detected_kind :: "('c, 'l, 's) kube \<Rightarrow> string \<Rightarrow> string \<Rightarrow> 'c \<Rightarrow> string" where
  "detected_kind K ns name c =
     (case k_get_stateful_set K ns name c of
        Inr _ \<Rightarrow> workload_kind_stateful_set
      | Inl _ \<Rightarrow>
          (case k_get_deployment K ns name c of
             Inr _ \<Rightarrow> workload_kind_deployment
           | Inl _ \<Rightarrow> []))"

definition label_override :: "string \<Rightarrow> placement_label option" where
  "label_override label =
     (case split_n2 (CHR '':'') label of
        [key, val] \<Rightarrow> if label \<noteq> [] then Some \<lparr>pl_key = key, pl_value = val\<rparr> else None
      | _ \<Rightarrow> None)"

definition legacy_workload :: "string \<Rightarrow> string \<Rightarrow> string \<Rightarrow> string \<Rightarrow> workload" where
  "legacy_workload ns name kind label =
     \<lparr>mw_namespace = ns, mw_name = name, mw_resource_version = 0, mw_generation = 0,
      mw_deletion = None,
      mw_spec = \<lparr>ws_workload_ref = \<lparr>wr_kind = kind, wr_name = name\<rparr>,
        ws_placement_label = label_override label, ws_checkpoint_dir = [], ws_transfer_port = 0,
        ws_layer_count = 0, ws_process_migration = None, ws_volume_migration = None,
        ws_pre_sync_rounds = None\<rparr>,
      mw_status = zero_workload_status\<rparr>"

definition ensure_migratable_workload ::
    "('c, 'l, 's) kube \<Rightarrow> string \<Rightarrow> string \<Rightarrow> string \<Rightarrow> 'c \<Rightarrow> (go_err + workload) \<times> 'c" where
  "ensure_migratable_workload K ns name label c =
     (case k_get_workload K ns name c of
        Inr mw \<Rightarrow> (Inr mw, c)
      | Inl e \<Rightarrow>
          (if \<not> is_not_found e then (Inl e, c)
           else
             (let kind = detected_kind K ns name c in
              if kind = []
              then (Inl (errorf (''no StatefulSet or Deployment named '' @ quote name @
                      '' in namespace '' @ quote ns)), c)
              else (let mw = legacy_workload ns name kind label in
                    case k_create_workload K mw c of
                      (Inl e', c') \<Rightarrow> (if is_already_exists e' then Inr mw else Inl e', c')
                    | (Inr mw', c') \<Rightarrow> (Inr mw', c')))))"

definition new_migration :: "string \<Rightarrow> string \<Rightarrow> string \<Rightarrow> string \<Rightarrow> string \<Rightarrow> migration" where
  "new_migration ns workload pod source target =
     \<lparr>mg_namespace = ns, mg_name = [], mg_generate_name = workload @ ''-'',
      mg_resource_version = 0, mg_creation = 0, mg_deletion = None, mg_finalizers = [],
      mg_spec = \<lparr>ms_workload_name = workload, ms_pod_name = pod, ms_source_node = source,
        ms_target_node = target\<rparr>,
      mg_status = zero_migration_status\<rparr>"

definition handle_migrate ::
    "('c, 'l, 's) kube \<Rightarrow> server \<Rightarrow> migrate_request option \<Rightarrow> 'c \<Rightarrow> 'f response \<times> 'c" where
  "handle_migrate K sv req c =
     (case req of
        None \<Rightarrow> (invalid_body, c)
      | Some r \<Rightarrow>
          (let workload = or_else (mr_workload r) (mr_deployment r);
               source = or_else (mr_source_node r) (mr_origin_node r);
               target = or_else (mr_target_node r) (mr_dest_node r);
               ns = or_else (mr_namespace r) (sv_default_namespace sv)
           in if workload = [] \<or> source = [] \<or> target = []
              then (Response 400 (BError
                     ''workload (or deployment), sourceNode (or originNode) and targetNode (or destNode) are required''), c)
              else (case ensure_migratable_workload K ns workload (mr_label r) c of
                      (Inl e, c') \<Rightarrow>
                        (Response (if is_not_found e \<or> contains (text_of e) ''no StatefulSet or Deployment''
                                   then 404 else 500) (BError (text_of e)), c')
                    | (Inr _, c') \<Rightarrow>
                        (case k_create_migration K (new_migration ns workload (mr_pod_name r) source target) c' of
                           (Inl e, c'') \<Rightarrow> (Response 500 (BError (text_of e)), c'')
                         | (Inr mig, c'') \<Rightarrow>
                             (Response 200 (BMigrationStarted workload (mg_name mig) ns), c'')))))"

section \<open>Queries\<close>

definition handle_legacy_pods :: "registry \<Rightarrow> 'f response" where
  "handle_legacy_pods m =
     Response 200 (BLegacyPods (map (\<lambda>rec. \<lparr>lp_pod_name = pr_name rec,
       lp_pod_address = pr_address rec, lp_migrating = pr_migrating rec\<rparr>) (list_records m)))"

definition shown_node :: "('c, 'l, 's) kube \<Rightarrow> server \<Rightarrow> 'c \<Rightarrow> pod_record \<Rightarrow> string" where
  "shown_node K sv c rec =
     (let ns = or_else (pr_workload_namespace rec) (sv_default_namespace sv) in
      if sv_has_client sv \<and> ns \<noteq> []
      then (case k_get_pod K ns (pr_name rec) c of Inr p \<Rightarrow> pd_node_name p | Inl _ \<Rightarrow> pr_node rec)
      else pr_node rec)"

definition unless_zero :: "instant \<Rightarrow> instant option" where
  "unless_zero t = (if time_is_zero t then None else Some t)"

definition api_pod_of :: "('c, 'l, 's) kube \<Rightarrow> server \<Rightarrow> 'c \<Rightarrow> pod_record \<Rightarrow> api_pod" where
  "api_pod_of K sv c rec =
     \<lparr>ap_name = pr_name rec, ap_address = pr_address rec, ap_container_port = pr_container_port rec,
      ap_node = shown_node K sv c rec, ap_workload = pr_workload_name rec,
      ap_namespace = pr_workload_namespace rec, ap_migrating = pr_migrating rec,
      ap_checkpoint_ready = pr_checkpoint_ready rec, ap_restored = pr_restored rec,
      ap_process_migration = pr_process_migration rec, ap_volume_migration = pr_volume_migration rec,
      ap_sync_round = pr_sync_round rec, ap_sync_rounds = pr_sync_rounds rec,
      ap_registered_at = unless_zero (pr_registered_at rec),
      ap_last_seen = unless_zero (pr_last_seen rec)\<rparr>"

definition handle_api_pods :: "('c, 'l, 's) kube \<Rightarrow> server \<Rightarrow> 'c \<Rightarrow> registry \<Rightarrow> 'f response" where
  "handle_api_pods K sv c m = Response 200 (BPods (map (api_pod_of K sv c) (list_records m)))"

definition node_ready :: "node \<Rightarrow> bool" where
  "node_ready nd = ready_condition (nd_conditions nd)"

definition handle_api_nodes :: "('c, 'l, 's) kube \<Rightarrow> 'c \<Rightarrow> 'f response" where
  "handle_api_nodes K c =
     (case k_list_nodes K c of
        Inl e \<Rightarrow> Response 500 (BError (text_of e))
      | Inr nds \<Rightarrow>
          Response 200 (BNodes (map nd_name (filter (\<lambda>nd. \<not> (nd_unschedulable nd \<or> \<not> node_ready nd)) nds))))"

definition api_migration_of :: "migration \<Rightarrow> api_migration" where
  "api_migration_of mig =
     (let s = mg_status mig; spec = mg_spec mig in
      \<lparr>am_name = mg_name mig, am_namespace = mg_namespace mig, am_workload = ms_workload_name spec,
       am_pod_name = ms_pod_name spec, am_source_node = ms_source_node spec,
       am_target_node = ms_target_node spec,
       am_phase = (if mst_phase s = NoPhase then ''Pending'' else phase_string (mst_phase s)),
       am_message = mst_message s, am_source_pod = mst_source_pod s,
       am_destination_pod = mst_destination_pod s,
       am_process_migration = mst_process_migration s, am_volume_migration = mst_volume_migration s,
       am_sync_round = mst_sync_round s, am_sync_rounds = mst_sync_rounds s,
       am_start_time = mst_start_time s, am_completion_time = mst_completion_time s\<rparr>)"

definition handle_api_migrations :: "('c, 'l, 's) kube \<Rightarrow> 'c \<Rightarrow> 'f response" where
  "handle_api_migrations K c =
     (case k_list_migrations K c of
        Inl e \<Rightarrow> Response 500 (BError (text_of e))
      | Inr migs \<Rightarrow> Response 200 (BMigrations (map api_migration_of migs)))"

section \<open>The history endpoints\<close>

definition handle_history ::
    "(int \<Rightarrow> int \<Rightarrow> 'f::zero) \<Rightarrow> instant \<Rightarrow> (string \<Rightarrow> instant) \<Rightarrow> store option \<Rightarrow> 'f response" where
  "handle_history fdiv now clock h =
     (case h of
        None \<Rightarrow> Response 200 BHistoryOff
      | Some s \<Rightarrow>
          (if \<not> hs_enabled s then Response 200 BHistoryOff
           else (let recs = snapshot now clock s in Response 200 (BHistory (summarize fdiv recs) recs))))"

definition handle_history_config_get :: "store option \<Rightarrow> 'f response" where
  "handle_history_config_get h =
     (case h of
        None \<Rightarrow> Response 503 (BError ''history module not configured'')
      | Some s \<Rightarrow> Response 200 (BHistoryConfig (hs_enabled s)))"

definition handle_history_config_set ::
    "bool option option \<Rightarrow> store option \<Rightarrow> 'f response \<times> store option" where
  "handle_history_config_set req h =
     (case h of
        None \<Rightarrow> (Response 503 (BError ''history module not configured''), None)
      | Some s \<Rightarrow>
          (case req of
             None \<Rightarrow> (invalid_body, Some s)
           | Some None \<Rightarrow> (Response 400 (BError ''enabled is required''), Some s)
           | Some (Some b) \<Rightarrow> (Response 200 (BHistoryConfig b), Some (set_enabled b s))))"

section \<open>Routing\<close>

text \<open>A routed request: the endpoint with what its handler reads of the request.\<close>

datatype request =
    Healthz
  | Ready
  | Register "message option"
  | Remove "string option"
  | Copy "(string \<times> string) option"
  | Migrate "migrate_request option"
  | Sync "(string \<times> int) option"
  | Restored "string option"
  | Poll string
  | LegacyPods
  | ApiPods
  | ApiNodes
  | ApiMigrations
  | HistoryGet
  | HistoryConfigGet
  | HistoryConfigSet "bool option option"

datatype endpoint =
    EHealthz | EReady | ERegister | ERemove | ECopy | EMigrate | ESync | ERestored | EPoll
  | ELegacyPods | EApiPods | EApiNodes | EApiMigrations | EHistory | EHistoryConfigGet
  | EHistoryConfigSet | EDashboard

definition routes :: "server \<Rightarrow> (string \<times> string \<times> endpoint) list" where
  "routes sv =
     [(''GET'', ''/healthz'', EHealthz), (''GET'', ''/ready'', EReady),
      (''POST'', ''/register'', ERegister), (''POST'', ''/remove'', ERemove),
      (''POST'', ''/copy'', ECopy), (''POST'', ''/migrate'', EMigrate),
      (''POST'', ''/sync'', ESync), (''POST'', ''/restored'', ERestored),
      (''GET'', ''/poll'', EPoll), (''GET'', ''/pods'', ELegacyPods),
      (''GET'', ''/api/v1/pods'', EApiPods), (''GET'', ''/api/v1/nodes'', EApiNodes),
      (''GET'', ''/api/v1/migrations'', EApiMigrations), (''POST'', ''/api/v1/migrations'', EMigrate),
      (''GET'', ''/api/v1/history'', EHistory), (''GET'', ''/api/v1/history/config'', EHistoryConfigGet),
      (''POST'', ''/api/v1/history/config'', EHistoryConfigSet)] @
     (if sv_dashboard_disabled sv then [] else [(''GET'', ''/dashboard/'', EDashboard)])"

text \<open>The readings of the clock while a request is served.\<close>

record rest_clock =
  rc_now :: instant
  rc_snapshot :: instant
  rc_downtime :: "string \<Rightarrow> instant"

fun serve ::
    "('c, 'l, 's) kube \<Rightarrow> server \<Rightarrow> (int \<Rightarrow> int \<Rightarrow> 'f::zero) \<Rightarrow> rest_clock \<Rightarrow> (registry \<Rightarrow> registry) \<Rightarrow>
     request \<Rightarrow> 'c world \<Rightarrow> 'f response \<times> 'c world" where
  "serve K sv fdiv ck mid Healthz w = (Response 200 (BStatus ''ok''), w)"
| "serve K sv fdiv ck mid Ready w = (Response 200 (BStatus ''ready''), w)"
| "serve K sv fdiv ck mid (Register req) w =
     (case handle_register (rc_now ck) mid req (w_registry w) of (r, m) \<Rightarrow> (r, w\<lparr>w_registry := m\<rparr>))"
| "serve K sv fdiv ck mid (Remove req) w = (handle_remove req (w_registry w), w)"
| "serve K sv fdiv ck mid (Copy req) w =
     (case handle_copy req (w_registry w) of (r, m) \<Rightarrow> (r, w\<lparr>w_registry := m\<rparr>))"
| "serve K sv fdiv ck mid (Migrate req) w = on_cluster (handle_migrate K sv req) w"
| "serve K sv fdiv ck mid (Sync req) w =
     (case handle_sync mid req (w_registry w) of (r, m) \<Rightarrow> (r, w\<lparr>w_registry := m\<rparr>))"
| "serve K sv fdiv ck mid (Restored req) w =
     (case handle_restored req (w_registry w) of (r, m) \<Rightarrow> (r, w\<lparr>w_registry := m\<rparr>))"
| "serve K sv fdiv ck mid (Poll name) w = (handle_poll name (w_registry w), w)"
| "serve K sv fdiv ck mid LegacyPods w = (handle_legacy_pods (w_registry w), w)"
| "serve K sv fdiv ck mid ApiPods w = (handle_api_pods K sv (w_cluster w) (w_registry w), w)"
| "serve K sv fdiv ck mid ApiNodes w = (handle_api_nodes K (w_cluster w), w)"
| "serve K sv fdiv ck mid ApiMigrations w = (handle_api_migrations K (w_cluster w), w)"
| "serve K sv fdiv ck mid HistoryGet w =
     (handle_history fdiv (rc_snapshot ck) (rc_downtime ck) (w_history w), w)"
| "serve K sv fdiv ck mid HistoryConfigGet w = (handle_history_config_get (w_history w), w)"
| "serve K sv fdiv ck mid (HistoryConfigSet req) w =
     (case handle_history_config_set req (w_history w) of (r, h) \<Rightarrow> (r, w\<lparr>w_history := h\<rparr>))"

end
