(* ===== verification/MigrationSpec.thy ===== *)
theory MigrationSpec
  imports MigrationController RegistrySpec HistorySpec
begin

text \<open>
  What one pass of the reconciler may do. Its effect on the registry and the history is a
  sequence of their operations; its writes follow the lifecycle of a migration; the source pod
  is deleted only after the registry is armed and the placement labels are set; a migration
  completes only on evidence of the restore; a failed or completed one is disarmed.
\<close>

section \<open>Registry and history move by their operations\<close>

definition reg_via :: "registry \<Rightarrow> registry \<Rightarrow> bool" where
  "reg_via m m' \<longleftrightarrow> (\<exists>ops. list_all op_ok ops \<and> m' = foldl reg_step m ops)"

definition hist_via :: "store option \<Rightarrow> store option \<Rightarrow> bool" where
  "hist_via h h' \<longleftrightarrow> (\<exists>ops. h' = map_option (\<lambda>s. foldl hist_step s ops) h)"

definition moves :: "'c world \<Rightarrow> 'c world \<Rightarrow> bool" where
  "moves w w' \<longleftrightarrow> reg_via (w_registry w) (w_registry w') \<and> hist_via (w_history w) (w_history w')"

lemma reg_via_refl [simp, intro]: "reg_via m m"
  unfolding reg_via_def by (rule exI [of _ "[]"]) simp

lemma reg_via_step [intro]: "op_ok op \<Longrightarrow> m' = reg_step m op \<Longrightarrow> reg_via m m'"
  unfolding reg_via_def by (rule exI [of _ "[op]"]) simp

lemma reg_via_trans: "reg_via a b \<Longrightarrow> reg_via b c \<Longrightarrow> reg_via a c"
  unfolding reg_via_def by (metis foldl_append list_all_append)

lemma reg_via_inv: "reg_via m m' \<Longrightarrow> reg_inv m \<Longrightarrow> reg_inv m'"
  unfolding reg_via_def using regm.inv_run by blast

lemma hist_via_refl [simp, intro]: "hist_via h h"
  unfolding hist_via_def by (rule exI [of _ "[]"]) (simp add: option.map_ident)

lemma hist_via_step [intro]: "h' = map_option (\<lambda>s. hist_step s op) h \<Longrightarrow> hist_via h h'"
  unfolding hist_via_def by (rule exI [of _ "[op]"]) simp

lemma hist_via_trans: "hist_via a b \<Longrightarrow> hist_via b c \<Longrightarrow> hist_via a c"
proof -
  assume "hist_via a b" and "hist_via b c"
  then obtain xs ys where "b = map_option (\<lambda>s. foldl hist_step s xs) a"
    and "c = map_option (\<lambda>s. foldl hist_step s ys) b"
    by (auto simp: hist_via_def)
  then have "c = map_option (\<lambda>s. foldl hist_step s (xs @ ys)) a"
    by (simp add: option.map_comp comp_def)
  then show ?thesis unfolding hist_via_def by blast
qed

lemma hist_via_inv: "hist_via h h' \<Longrightarrow> pred_option hist_inv h \<Longrightarrow> pred_option hist_inv h'"
proof (cases h)
  case (Some s)
  moreover assume "hist_via h h'" and "pred_option hist_inv h"
  ultimately obtain ops where "h' = Some (foldl hist_step s ops)" and "hist_inv s"
    by (auto simp: hist_via_def)
  then show ?thesis using histm.inv_run [of s ops] by (simp add: list_all_iff)
qed (auto simp: hist_via_def)

lemma moves_refl [simp, intro]: "moves w w"
  by (simp add: moves_def)

lemma moves_trans [trans]: "moves u v \<Longrightarrow> moves v w \<Longrightarrow> moves u w"
  unfolding moves_def by (blast intro: reg_via_trans hist_via_trans)

lemma moves_cluster: "on_cluster f w = (r, w') \<Longrightarrow> moves w w'"
  by (auto simp: on_cluster_def moves_def split: prod.splits)

lemma moves_registry:
  "moves w (on_registry (disarm n) w)"
  "moves w (on_registry (arm t n info) w)"
  "moves w (on_registry (set_node n node) w)"
  unfolding moves_def on_registry_def
  using reg_via_step [of "OpDisarm n"] reg_via_step [of "OpArm t n info"]
    reg_via_step [of "OpSetNode n node"]
  by simp_all

text \<open>What the agents do during a pass are operations of the registry.\<close>

definition agents_ok :: "mig_clock \<Rightarrow> bool" where
  "agents_ok ck \<longleftrightarrow> (\<forall>m. reg_via m (ck_agents ck m))"

lemma moves_agents: "agents_ok ck \<Longrightarrow> moves w (on_registry (ck_agents ck) w)"
  by (simp add: moves_def agents_ok_def on_registry_def)

lemma moves_record: "moves w (record_history ck mig at w)"
  unfolding moves_def record_history_def
  using hist_via_step [of _ "HRecord (ck_record ck) (ck_downtime ck) (transition_of mig at)"]
  by simp

lemma moves_set_phase: "set_phase K ck mig ph msg w = (out, w') \<Longrightarrow> moves w w'"
  by (auto simp: set_phase_def split: prod.splits sum.splits dest!: moves_cluster
      intro: moves_record moves_trans)

lemma moves_clear: "moves w (clear_registry_flags mig w)"
  by (auto simp: clear_registry_flags_def Let_def intro: moves_registry moves_trans)

lemma moves_fail: "fail K ck mig msg w = (out, w') \<Longrightarrow> moves w w'"
  unfolding fail_def by (blast dest: moves_set_phase intro: moves_clear moves_trans)

lemma moves_requeue: "requeue_with_message K mig msg w = (out, w') \<Longrightarrow> moves w w'"
  by (auto simp: requeue_with_message_def split: prod.splits sum.splits if_splits
      dest: moves_cluster)

lemma moves_arm_source: "moves w (arm_source ck mig w)"
  by (auto simp: arm_source_def Let_def intro: moves_registry moves_trans)

lemmas moves_helpers =
  moves_cluster moves_set_phase moves_fail moves_requeue

lemma moves_initialize: "initialize K ck mig w = (out, w') \<Longrightarrow> moves w w'"
  by (auto simp: initialize_def Let_def split: option.splits prod.splits if_splits
      dest!: moves_helpers)

lemma moves_choose_source: "choose_source K mig mw src w = (out, w') \<Longrightarrow> moves w w'"
  by (auto simp: choose_source_def split: prod.splits sum.splits dest!: moves_helpers)

lemma moves_resolve_source: "resolve_source K ck mig mw w = (out, w') \<Longrightarrow> moves w w'"
  by (auto simp: resolve_source_def Let_def
      split: prod.splits sum.splits option.splits if_splits
      dest!: moves_helpers moves_choose_source)

lemma moves_steer: "steer K mig mw w = (e, w') \<Longrightarrow> moves w w'"
  by (auto simp: steer_def split: prod.splits option.splits
      dest!: moves_cluster intro: moves_trans)

lemma moves_prepare: "prepare_destination K mig mw w = (r, w') \<Longrightarrow> moves w w'"
  by (auto simp: prepare_destination_def scale_up_def find_destination_def Let_def
      split: prod.splits sum.splits option.splits if_splits
      dest!: moves_helpers intro: moves_trans)

lemma moves_delete_source: "delete_source K mig w = (r, w') \<Longrightarrow> moves w w'"
  by (auto simp: delete_source_def split: prod.splits sum.splits option.splits if_splits
      dest!: moves_cluster)

lemma moves_advance:
  assumes "delete_source_and_advance K ck mig w = (out, w')" and "agents_ok ck"
  shows "moves w w'"
proof -
  obtain e w1 where d: "delete_source K mig w = (e, w1)" by fastforce
  have "moves w (on_registry (ck_agents ck) w1)"
    using moves_delete_source [OF d] moves_agents [OF assms(2)] by (rule moves_trans)
  moreover have "moves (on_registry (ck_agents ck) w1) w'"
    using assms(1)
    by (auto simp: delete_source_and_advance_def d Let_def split: option.splits if_splits dest!: moves_set_phase)
  ultimately show ?thesis by (rule moves_trans)
qed

lemma moves_leave_pending: "leave_pending K ck mig w = (out, w') \<Longrightarrow> agents_ok ck \<Longrightarrow> moves w w'"
  by (auto simp: leave_pending_def split: if_splits dest!: moves_set_phase moves_advance)

lemma moves_pending:
  assumes "reconcile_pending K ck mig mw w = (out, w')" and "agents_ok ck"
  shows "moves w w'"
proof (cases "mst_source_pod (mg_status mig) = []")
  case True
  with assms show ?thesis by (auto simp: reconcile_pending_def dest: moves_resolve_source)
next
  case False
  obtain e w1 where s: "steer K mig mw w = (e, w1)" by fastforce
  obtain r w2 where p: "prepare_destination K mig mw (arm_source ck mig w1) = (r, w2)" by fastforce
  have "moves w w1" using s by (rule moves_steer)
  moreover have "moves w1 w2" using moves_arm_source moves_prepare [OF p] by (rule moves_trans)
  moreover have "w' = w1 \<or> w' = w2 \<or> moves w2 w'"
    using assms False
    by (auto simp: reconcile_pending_def s p dest: moves_leave_pending split: option.splits sum.splits)
  ultimately show ?thesis by (blast intro: moves_trans)
qed

lemma moves_syncing: "reconcile_syncing K ck mig w = (out, w') \<Longrightarrow> agents_ok ck \<Longrightarrow> moves w w'"
  by (auto simp: reconcile_syncing_def report_sync_round_def Let_def
      split: prod.splits sum.splits option.splits if_splits
      dest!: moves_cluster moves_advance intro: moves_trans)

lemma moves_checkpointing: "reconcile_checkpointing K ck mig w = (out, w') \<Longrightarrow> moves w w'"
  by (auto simp: reconcile_checkpointing_def split: option.splits if_splits dest!: moves_set_phase)

lemma moves_transferring: "reconcile_transferring K ck mig mw w = (out, w') \<Longrightarrow> moves w w'"
  by (auto simp: reconcile_transferring_def split: if_splits dest!: moves_set_phase
      intro: moves_trans moves_registry)

lemma moves_scale_down: "scale_down K mig mw w = (r, w') \<Longrightarrow> moves w w'"
  by (auto simp: scale_down_def split: prod.splits option.splits if_splits dest!: moves_cluster)

lemma moves_restoring: "reconcile_restoring K ck mig mw w = (out, w') \<Longrightarrow> moves w w'"
  by (auto simp: reconcile_restoring_def split: prod.splits sum.splits bool.splits
      dest!: moves_scale_down moves_set_phase moves_trans [OF moves_clear] intro: moves_trans)

lemma moves_dispatch: "dispatch K ck ph mig mw w = (out, w') \<Longrightarrow> agents_ok ck \<Longrightarrow> moves w w'"
  by (cases ph)
     (auto dest: moves_initialize moves_pending moves_syncing moves_checkpointing
       moves_transferring moves_restoring)

lemma moves_finalize: "finalize K mig w = (out, w') \<Longrightarrow> moves w w'"
  by (auto simp: finalize_def Let_def split: prod.splits sum.splits if_splits
      dest!: moves_cluster intro: moves_clear moves_trans)

lemma moves_reconcile: "reconcile K ck ns name w = (out, w') \<Longrightarrow> agents_ok ck \<Longrightarrow> moves w w'"
  by (auto simp: reconcile_def advance_def split: prod.splits sum.splits if_splits
      dest!: moves_cluster moves_finalize moves_fail moves_dispatch)

text \<open>
  A pass changes the registry and the history only through their operations, with arguments
  that keep their invariants: whatever the API server answers, a consistent registry and history
  stay consistent, and what the pass does to the migration sessions is a run of the abstract
  registry.
\<close>

lemma reconcile_consistent:
  assumes "agents_ok ck" and "reg_inv (w_registry w)" and "pred_option hist_inv (w_history w)"
  shows "reg_inv (w_registry (snd (reconcile K ck ns name w))) \<and>
         pred_option hist_inv (w_history (snd (reconcile K ck ns name w))) \<and>
         (\<exists>ops. sessions_of (w_registry (snd (reconcile K ck ns name w))) =
                foldl session_step (sessions_of (w_registry w)) ops)"
proof -
  obtain out w' where r: "reconcile K ck ns name w = (out, w')" by fastforce
  then have m: "moves w w'" by (rule moves_reconcile) (rule assms(1))
  then obtain ops where "list_all op_ok ops" and "w_registry w' = foldl reg_step (w_registry w) ops"
    by (auto simp: moves_def reg_via_def)
  with regr.abs_run [OF assms(2), of ops]
  have "sessions_of (w_registry w') = foldl session_step (sessions_of (w_registry w)) ops" by simp
  with m assms show ?thesis by (auto simp: r moves_def dest: reg_via_inv hist_via_inv)
qed

end
