(* ===== verification/MigrationWrites.thy ===== *)
theory MigrationWrites
  imports MigrationSpec
begin

text \<open>
  What one pass of the reconciler asks the API server to write, seen by running it on a client
  that logs (theory Kube): the observation does not change the behaviour, every write follows the
  lifecycle, and the writes that stop the source come last.
\<close>

section \<open>Observation\<close>

definition wlog :: "('c \<times> 'l kwrite list) world \<Rightarrow> 'l kwrite list" where
  "wlog w = snd (w_cluster w)"

definition watched :: "'c world \<Rightarrow> ('c \<times> 'l kwrite list) world" where
  "watched w = \<lparr>w_cluster = (w_cluster w, []), w_registry = w_registry w, w_history = w_history w\<rparr>"

definition unwatched :: "('c \<times> 'l kwrite list) world \<Rightarrow> 'c world" where
  "unwatched w =
     \<lparr>w_cluster = fst (w_cluster w), w_registry = w_registry w, w_history = w_history w\<rparr>"

text \<open>The writes of a pass, and the world it leaves.\<close>

definition pass_writes ::
    "('c, 'l, 's) kube \<Rightarrow> mig_clock \<Rightarrow> string \<Rightarrow> string \<Rightarrow> 'c world \<Rightarrow> 'l kwrite list" where
  "pass_writes K ck ns name w = wlog (snd (reconcile (spied K) ck ns name (watched w)))"

definition after_pass ::
    "('c, 'l, 's) kube \<Rightarrow> mig_clock \<Rightarrow> string \<Rightarrow> string \<Rightarrow> 'c world \<Rightarrow> 'c world" where
  "after_pass K ck ns name w = snd (reconcile K ck ns name w)"

lemma unwatched_watched [simp]: "unwatched (watched w) = w"
  by (simp add: unwatched_def watched_def)

lemma wlog_watched [simp]: "wlog (watched w) = []"
  by (simp add: wlog_def watched_def)

lemma watched_fields [simp]:
  "w_registry (watched w) = w_registry w" "w_history (watched w) = w_history w"
  "fst (w_cluster (watched w)) = w_cluster w"
  by (simp_all add: watched_def)

lemma unwatched_fields [simp]:
  "w_registry (unwatched w) = w_registry w" "w_history (unwatched w) = w_history w"
  "w_cluster (unwatched w) = fst (w_cluster w)"
  by (simp_all add: unwatched_def)

section \<open>Observation does not change the behaviour\<close>

definition same_run :: "'r \<times> ('c \<times> 'l kwrite list) world \<Rightarrow> 'r \<times> 'c world" where
  "same_run x = (fst x, unwatched (snd x))"

lemma same_run_Pair [simp]: "same_run (r, w) = (r, unwatched w)"
  by (simp add: same_run_def)

lemma case_same_run [simp]: "(case same_run x of (r, w) \<Rightarrow> f r w) = (case x of (r, w) \<Rightarrow> f r (unwatched w))"
  by (simp add: same_run_def split: prod.split)

lemma logged_same:
  "on_cluster call (unwatched w) = same_run (on_cluster (logged good entry call) w)"
  by (cases "w_cluster w")
     (simp add: on_cluster_def logged_def unwatched_def split: prod.splits)

lemma spied_calls:
  "k_update_status (spied K) m = logged good_sum (WStatus m) (k_update_status K m)"
  "k_update_migration (spied K) m = logged good_sum (WUpdateMigration m) (k_update_migration K m)"
  "k_delete_pod (spied K) p = logged good_opt (WDeletePod p) (k_delete_pod K p)"
  "k_patch_node (spied K) o1 o2 = logged good_opt (WPatchNode o1 o2) (k_patch_node K o1 o2)"
  "k_patch_deployment (spied K) ns n d1 d2 =
     logged good_opt (WPatchDeployment ns n d1 d2) (k_patch_deployment K ns n d1 d2)"
  by (simp_all add: spied_def)

lemma same_update [simp]:
  "on_cluster (k_update_status K m) (unwatched w) = same_run (on_cluster (k_update_status (spied K) m) w)"
  "on_cluster (k_update_migration K m) (unwatched w) =
     same_run (on_cluster (k_update_migration (spied K) m) w)"
  "on_cluster (k_delete_pod K p) (unwatched w) = same_run (on_cluster (k_delete_pod (spied K) p) w)"
  by (simp_all only: spied_calls logged_same)

lemma logged_fst:
  "logged good entry call s = (fst (call (fst s)), (snd (call (fst s)), snd s @ [entry (good (fst (call (fst s))))]))"
  by (simp add: logged_def split: prod.split)

lemma same_label [simp]:
  "on_cluster (set_node_label K n k v) (unwatched w) =
     same_run (on_cluster (set_node_label (spied K) n k v) w)"
  "on_cluster (remove_node_label K n k) (unwatched w) =
     same_run (on_cluster (remove_node_label (spied K) n k) w)"
  by (auto simp: on_cluster_def set_node_label_def remove_node_label_def spied_calls logged_fst
      unwatched_def same_run_def split: prod.split sum.split)

lemma same_scale [simp]:
  "on_cluster (scale_deployment K ns n d) (unwatched w) =
     same_run (on_cluster (scale_deployment (spied K) ns n d) w)"
  by (auto simp: on_cluster_def scale_deployment_def spied_calls logged_fst
      unwatched_def same_run_def split: prod.split sum.split)

lemma same_registry [simp]: "on_registry f (unwatched w) = unwatched (on_registry f w)"
  by (simp add: on_registry_def unwatched_def)

lemma same_record [simp]:
  "record_history ck mig at (unwatched w) = unwatched (record_history ck mig at w)"
  by (simp add: record_history_def unwatched_def)

lemma same_clear [simp]:
  "clear_registry_flags mig (unwatched w) = unwatched (clear_registry_flags mig w)"
  by (simp add: clear_registry_flags_def Let_def)

lemma same_arm [simp]: "arm_source ck mig (unwatched w) = unwatched (arm_source ck mig w)"
  by (simp add: arm_source_def Let_def)

lemma same_set_phase [simp]:
  "set_phase K ck mig ph msg (unwatched w) = same_run (set_phase (spied K) ck mig ph msg w)"
  by (simp add: set_phase_def split: prod.split sum.split)

lemma same_fail [simp]: "fail K ck mig msg (unwatched w) = same_run (fail (spied K) ck mig msg w)"
  by (simp add: fail_def)

lemma same_requeue [simp]:
  "requeue_with_message K mig msg (unwatched w) = same_run (requeue_with_message (spied K) mig msg w)"
  by (simp add: requeue_with_message_def split: prod.split sum.split)

lemma same_missing [simp]: "missing_node (spied K) ns s = missing_node K ns (fst s)"
  by (induction ns) (simp_all split: sum.split)

lemma same_list_pods [simp]: "list_workload_pods (spied K) mw s = list_workload_pods K mw (fst s)"
  unfolding list_workload_pods_def workload_pod_selector_def spied_reads ..

lemma same_handlers [simp]:
  "initialize K ck mig (unwatched w) = same_run (initialize (spied K) ck mig w)"
  "choose_source K mig mw src (unwatched w) = same_run (choose_source (spied K) mig mw src w)"
  "steer K mig mw (unwatched w) = same_run (steer (spied K) mig mw w)"
  "scale_up K mig mw (unwatched w) = same_run (scale_up (spied K) mig mw w)"
  "delete_source K mig (unwatched w) = same_run (delete_source (spied K) mig w)"
  "report_sync_round K mig rec (unwatched w) = same_run (report_sync_round (spied K) mig rec w)"
  "scale_down K mig mw (unwatched w) = same_run (scale_down (spied K) mig mw w)"
  "finalize K mig (unwatched w) = same_run (finalize (spied K) mig w)"
  "reconcile_checkpointing K ck mig (unwatched w) = same_run (reconcile_checkpointing (spied K) ck mig w)"
  "reconcile_transferring K ck mig mw (unwatched w) =
     same_run (reconcile_transferring (spied K) ck mig mw w)"
  by (simp_all add: initialize_def choose_source_def steer_def scale_up_def delete_source_def
      report_sync_round_def scale_down_def finalize_def reconcile_checkpointing_def
      reconcile_transferring_def Let_def
      split: prod.split sum.split option.split)

lemma same_pending [simp]:
  "resolve_source K ck mig mw (unwatched w) = same_run (resolve_source (spied K) ck mig mw w)"
  "find_destination K mig mw (unwatched w) = same_run (find_destination (spied K) mig mw w)"
  "delete_source_and_advance K ck mig (unwatched w) =
     same_run (delete_source_and_advance (spied K) ck mig w)"
  by (simp_all add: resolve_source_def find_destination_def delete_source_and_advance_def Let_def
      split: prod.split sum.split option.split)

lemma same_prepare [simp]:
  "prepare_destination K mig mw (unwatched w) = same_run (prepare_destination (spied K) mig mw w)"
  "leave_pending K ck mig (unwatched w) = same_run (leave_pending (spied K) ck mig w)"
  by (simp_all add: prepare_destination_def leave_pending_def split: prod.split)

lemma same_evidence [simp]: "restored_evidence (spied K) mig w = restored_evidence K mig (unwatched w)"
  by (simp add: restored_evidence_def Let_def)

lemma same_phases [simp]:
  "reconcile_pending K ck mig mw (unwatched w) = same_run (reconcile_pending (spied K) ck mig mw w)"
  "reconcile_syncing K ck mig (unwatched w) = same_run (reconcile_syncing (spied K) ck mig w)"
  "reconcile_restoring K ck mig mw (unwatched w) = same_run (reconcile_restoring (spied K) ck mig mw w)"
  by (simp_all add: reconcile_pending_def reconcile_syncing_def reconcile_restoring_def
      split: prod.split sum.split option.split bool.split)

lemma same_dispatch [simp]:
  "dispatch K ck ph mig mw (unwatched w) = same_run (dispatch (spied K) ck ph mig mw w)"
  by (cases ph) simp_all

lemma same_reconcile:
  "reconcile K ck ns name (unwatched w) = same_run (reconcile (spied K) ck ns name w)"
  by (simp add: reconcile_def advance_def split: prod.split sum.split)

lemma after_pass_watched:
  "after_pass K ck ns name w = unwatched (snd (reconcile (spied K) ck ns name (watched w)))"
  using same_reconcile [of K ck ns name "watched w"] by (simp add: after_pass_def same_run_def)

end
