(* ===== verification/MigrationSafety.thy ===== *)
theory MigrationSafety
  imports MigrationWrites
begin

text \<open>
  The safety of one pass, on its writes and on the registry it leaves: the lifecycle, the order
  of arming, steering and deleting, the evidence for completion, the timeout, and what a failed
  migration leaves behind.
\<close>

section \<open>The lifecycle\<close>

text \<open>The edges a pass may take from the phase it read.\<close>

fun next_phase :: "phase \<Rightarrow> phase \<Rightarrow> bool" where
  "next_phase NoPhase q \<longleftrightarrow> q = Pending \<or> q = Failed"
| "next_phase Pending q \<longleftrightarrow> q = Syncing \<or> q = Checkpointing \<or> q = Restoring \<or> q = Failed"
| "next_phase Syncing q \<longleftrightarrow> q = Checkpointing \<or> q = Restoring \<or> q = Failed"
| "next_phase Checkpointing q \<longleftrightarrow> q = Transferring \<or> q = Failed"
| "next_phase Transferring q \<longleftrightarrow> q = Restoring \<or> q = Failed"
| "next_phase Restoring q \<longleftrightarrow> q = Completed \<or> q = Failed"
| "next_phase (OtherPhase _) q \<longleftrightarrow> q = Failed"
| "next_phase Completed q \<longleftrightarrow> False"
| "next_phase Failed q \<longleftrightarrow> False"

abbreviation phase_of :: "migration \<Rightarrow> phase" where
  "phase_of mig \<equiv> mst_phase (mg_status mig)"

text \<open>The edges go up in the order of the phases.\<close>

lemma next_phase_less: "next_phase p q \<Longrightarrow> p < q"
  by (cases p) (auto simp: less_phase_def)

lemma next_phase_terminal: "\<not> next_phase p q" if "p = Completed \<or> p = Failed"
  using that by auto

section \<open>Which writes a pass may make\<close>

text \<open>
  For a migration as it was read: a status write keeps the phase (only while pending or syncing)
  or takes an edge; the object itself is written for its finalizer only; nodes are labelled while
  pending; pods are deleted while pending or syncing and never twice; a Deployment is scaled up
  while pending and not yet scaled, and down while restoring and scaled.
\<close>

fun write_ok :: "migration \<Rightarrow> 'l kwrite \<Rightarrow> bool" where
  "write_ok mig (WStatus m _) \<longleftrightarrow>
     next_phase (phase_of mig) (phase_of m) \<or>
     phase_of m = phase_of mig \<and> (phase_of mig = Pending \<or> phase_of mig = Syncing)"
| "write_ok mig (WUpdateMigration m _) \<longleftrightarrow> m = mig\<lparr>mg_finalizers := mg_finalizers m\<rparr>"
| "write_ok mig (WPatchNode old new _) \<longleftrightarrow>
     phase_of mig = Pending \<and> new = old\<lparr>nd_labels := nd_labels new\<rparr>"
| "write_ok mig (WDeletePod p _) \<longleftrightarrow>
     (phase_of mig = Pending \<or> phase_of mig = Syncing) \<and> pd_deletion p = None"
| "write_ok mig (WPatchDeployment ns name old new _) \<longleftrightarrow>
     (phase_of mig = Pending \<and> \<not> mst_scaled_up (mg_status mig) \<and>
        new = old\<lparr>dp_replicas := Some (scaled_replicas (dp_replicas old) 1)\<rparr>) \<or>
     (phase_of mig = Restoring \<and> mst_scaled_up (mg_status mig) \<and>
        new = old\<lparr>dp_replicas := Some (scaled_replicas (dp_replicas old) (- 1))\<rparr>)"
| "write_ok mig (WCreateMigration _ _) \<longleftrightarrow> False"
| "write_ok mig (WCreateWorkload _ _) \<longleftrightarrow> False"
| "write_ok mig (WWorkloadStatus _ _) \<longleftrightarrow> False"

text \<open>
  The handlers of the phases do less: they fail a migration only before its source pod is known.
\<close>

definition early :: "migration \<Rightarrow> bool" where
  "early mig \<longleftrightarrow>
     phase_of mig = NoPhase \<or> phase_of mig = Pending \<and> mst_source_pod (mg_status mig) = []"

fun work_ok :: "migration \<Rightarrow> 'l kwrite \<Rightarrow> bool" where
  "work_ok mig (WStatus m b) \<longleftrightarrow>
     write_ok mig (WStatus m b :: 'l kwrite) \<and> (phase_of m = Failed \<longrightarrow> early mig)"
| "work_ok mig x \<longleftrightarrow> write_ok mig x"

lemma work_ok_write_ok: "work_ok mig x \<Longrightarrow> write_ok mig x"
  by (cases x) simp_all

section \<open>The log of each helper\<close>

lemma wlog_registry [simp]: "wlog (on_registry f w) = wlog w"
  by (simp add: wlog_def on_registry_def)

lemma wlog_record [simp]: "wlog (record_history ck mig at w) = wlog w"
  by (simp add: wlog_def record_history_def)

lemma wlog_clear [simp]: "wlog (clear_registry_flags mig w) = wlog w"
  by (simp add: clear_registry_flags_def Let_def)

lemma wlog_arm [simp]: "wlog (arm_source ck mig w) = wlog w"
  by (simp add: arm_source_def Let_def)

lemma log_update:
  "on_cluster (k_update_status (spied K) m) w = (r, w') \<Longrightarrow>
     wlog w' = wlog w @ [WStatus m (good_sum r)]"
  "on_cluster (k_update_migration (spied K) m) w = (r, w') \<Longrightarrow>
     wlog w' = wlog w @ [WUpdateMigration m (good_sum r)]"
  "on_cluster (k_delete_pod (spied K) p) w = (e, w') \<Longrightarrow>
     wlog w' = wlog w @ [WDeletePod p (good_opt e)]"
  by (auto simp: on_cluster_def wlog_def spied_writes split: prod.splits)

lemma log_set_label:
  "on_cluster (set_node_label (spied K) n key val) w = (e, w') \<Longrightarrow>
   (wlog w' = wlog w \<and> w' = w) \<or>
   (\<exists>nd. wlog w' = wlog w @ [WPatchNode nd (nd\<lparr>nd_labels := fmupd key val (nd_labels nd)\<rparr>) (good_opt e)])"
  by (auto simp: on_cluster_def set_node_label_def wlog_def spied_writes
      split: prod.splits sum.splits if_splits)

lemma log_remove_label:
  "on_cluster (remove_node_label (spied K) n key) w = (e, w') \<Longrightarrow>
   (wlog w' = wlog w \<and> w' = w) \<or>
   (\<exists>nd. wlog w' = wlog w @ [WPatchNode nd (nd\<lparr>nd_labels := fmdrop key (nd_labels nd)\<rparr>) (good_opt e)])"
  by (auto simp: on_cluster_def remove_node_label_def wlog_def spied_writes
      split: prod.splits sum.splits if_splits)

lemma log_scale:
  "on_cluster (scale_deployment (spied K) ns name d) w = (e, w') \<Longrightarrow>
   (wlog w' = wlog w \<and> e \<noteq> None) \<or>
   (\<exists>dep. wlog w' = wlog w @ [WPatchDeployment ns name dep
            (dep\<lparr>dp_replicas := Some (scaled_replicas (dp_replicas dep) d)\<rparr>) (good_opt e)])"
  by (auto simp: on_cluster_def scale_deployment_def wlog_def spied_writes
      split: prod.splits sum.splits if_splits)

lemma log_set_phase:
  "set_phase (spied K) ck mig ph msg w = (out, w') \<Longrightarrow>
   \<exists>b. wlog w' = wlog w @ [WStatus (in_phase ck ph msg mig) b]"
  by (auto simp: set_phase_def split: prod.splits sum.splits dest!: log_update)

lemma phase_in_phase [simp]: "phase_of (in_phase ck ph msg mig) = ph"
  by (simp add: in_phase_def on_status_def)

lemma phase_on_status [simp]: "phase_of (on_status f mig) = mst_phase (f (mg_status mig))"
  by (simp add: on_status_def)

lemma log_fail:
  "fail (spied K) ck mig msg w = (out, w') \<Longrightarrow>
   \<exists>m b. wlog w' = wlog w @ [WStatus m b] \<and> phase_of m = Failed"
  unfolding fail_def by (drule log_set_phase) auto

lemma log_requeue:
  "requeue_with_message (spied K) mig msg w = (out, w') \<Longrightarrow>
   wlog w' = wlog w \<or> (\<exists>m b. wlog w' = wlog w @ [WStatus m b] \<and> phase_of m = phase_of mig)"
  by (auto simp: requeue_with_message_def split: prod.splits sum.splits if_splits dest!: log_update)

lemma log_choose_source:
  "choose_source (spied K) mig mw src w = (out, w') \<Longrightarrow>
   \<exists>m b. wlog w' = wlog w @ [WStatus m b] \<and> phase_of m = phase_of mig"
  by (auto simp: choose_source_def source_chosen_def Let_def split: prod.splits sum.splits
      dest!: log_update)

section \<open>Every write of a pass is a permitted one\<close>

definition emits ::
    "('l kwrite \<Rightarrow> bool) \<Rightarrow> ('c \<times> 'l kwrite list) world \<Rightarrow> ('c \<times> 'l kwrite list) world \<Rightarrow> bool" where
  "emits P w w' \<longleftrightarrow> (\<exists>xs. wlog w' = wlog w @ xs \<and> list_all P xs)"

lemma emits_initialize:
  "initialize (spied K) ck mig w = (out, w') \<Longrightarrow> phase_of mig = NoPhase \<Longrightarrow> emits (work_ok mig) w w'"
  by (auto simp: emits_def initialize_def Let_def split: option.splits prod.splits if_splits
      dest!: log_fail log_set_phase simp: early_def)

lemma emits_resolve:
  "resolve_source (spied K) ck mig mw w = (out, w') \<Longrightarrow> phase_of mig = Pending \<Longrightarrow>
   mst_source_pod (mg_status mig) = [] \<Longrightarrow> emits (work_ok mig) w w'"
  by (auto simp: emits_def resolve_source_def Let_def split: option.splits prod.splits sum.splits if_splits
      dest!: log_fail log_requeue log_choose_source simp: early_def)


lemma emits_trans: "emits P u v \<Longrightarrow> emits P v w \<Longrightarrow> emits P u w"
proof -
  assume "emits P u v" and "emits P v w"
  then obtain xs ys where "wlog v = wlog u @ xs" "list_all P xs"
    "wlog w = wlog v @ ys" "list_all P ys" by (auto simp: emits_def)
  then show ?thesis unfolding emits_def by (intro exI [of _ "xs @ ys"]) simp
qed

lemma emits_refl: "wlog w' = wlog w \<Longrightarrow> emits P w w'"
  unfolding emits_def by (rule exI [of _ "[]"]) simp

lemma emits_one: "wlog w' = wlog w @ [x] \<Longrightarrow> P x \<Longrightarrow> emits P w w'"
  by (simp add: emits_def)

lemma emits_registry [simp]:
  "emits P (on_registry f w) w' = emits P w w'"
  "emits P (clear_registry_flags m w) w' = emits P w w'"
  "emits P (arm_source ck m w) w' = emits P w w'"
  by (simp_all add: emits_def)

lemma emits_set_phase:
  "set_phase (spied K) ck m ph msg w = (out, w') \<Longrightarrow> next_phase (phase_of mig) ph \<Longrightarrow>
   ph \<noteq> Failed \<Longrightarrow> emits (work_ok mig) w w'"
  by (auto simp: emits_def dest!: log_set_phase)

lemma emits_status:
  "on_cluster (k_update_status (spied K) m) w = (r, w') \<Longrightarrow> phase_of m = phase_of mig \<Longrightarrow>
   phase_of mig = Pending \<or> phase_of mig = Syncing \<Longrightarrow> emits (work_ok mig) w w'"
  by (auto simp: emits_def dest!: log_update)

lemma emits_requeue:
  "requeue_with_message (spied K) mig msg w = (out, w') \<Longrightarrow>
   phase_of mig = Pending \<Longrightarrow> emits (work_ok mig) w w'"
  by (auto simp: emits_def dest!: log_requeue)

lemma emits_scale:
  assumes "on_cluster (scale_deployment (spied K) ns name d) w = (e, w')"
    and "phase_of mig = Pending \<and> \<not> mst_scaled_up (mg_status mig) \<and> d = 1 \<or>
         phase_of mig = Restoring \<and> mst_scaled_up (mg_status mig) \<and> d = - 1"
  shows "emits (work_ok mig) w w'"
  using log_scale [OF assms(1)]
proof
  assume "wlog w' = wlog w \<and> e \<noteq> None"
  then show ?thesis by (simp add: emits_refl)
next
  assume "\<exists>dep. wlog w' = wlog w @ [WPatchDeployment ns name dep
    (dep\<lparr>dp_replicas := Some (scaled_replicas (dp_replicas dep) d)\<rparr>) (good_opt e)]"
  then obtain dep where l: "wlog w' = wlog w @ [WPatchDeployment ns name dep
    (dep\<lparr>dp_replicas := Some (scaled_replicas (dp_replicas dep) d)\<rparr>) (good_opt e)]" ..
  show ?thesis by (rule emits_one [OF l]) (use assms(2) in auto)
qed

lemma emits_scale_up:
  assumes "scale_up (spied K) mig mw w = (out, w')"
    and "phase_of mig = Pending" and "\<not> mst_scaled_up (mg_status mig)"
  shows "emits (work_ok mig) w w'"
proof -
  obtain e w1 where s: "on_cluster (scale_deployment (spied K) (mw_namespace mw)
      (wr_name (ws_workload_ref (mw_spec mw))) 1) w = (e, w1)" by fastforce
  have "emits (work_ok mig) w w1" by (rule emits_scale [OF s]) (use assms in simp)
  moreover have "w' = w1 \<or> emits (work_ok mig) w1 w'"
    using assms
    by (auto simp: scale_up_def s split: option.splits prod.splits sum.splits dest: emits_status [where mig = mig])
  ultimately show ?thesis by (blast intro: emits_trans)
qed

lemma emits_find_destination:
  "find_destination (spied K) mig mw w = (r, w') \<Longrightarrow> phase_of mig = Pending \<Longrightarrow> emits (work_ok mig) w w'"
  by (auto simp: emits_def find_destination_def Let_def
      split: prod.splits sum.splits option.splits dest!: log_update log_requeue)

lemma log_prepare:
  "prepare_destination (spied K) mig mw w = (r, w') \<Longrightarrow> phase_of mig = Pending \<Longrightarrow> emits (work_ok mig) w w'"
  by (auto simp: prepare_destination_def Let_def split: prod.splits if_splits
      intro: emits_refl dest: emits_scale_up [where mig = mig] emits_find_destination [where mig = mig])

lemma emits_label:
  "on_cluster (set_node_label (spied K) n key val) w = (e, w') \<Longrightarrow> phase_of mig = Pending \<Longrightarrow>
     emits (work_ok mig) w w'"
  "on_cluster (remove_node_label (spied K) n key) w = (e, w') \<Longrightarrow> phase_of mig = Pending \<Longrightarrow>
     emits (work_ok mig) w w'"
  by (auto simp: emits_def dest!: log_set_label log_remove_label)

lemma emits_steer:
  assumes "steer (spied K) mig mw w = (e, w')" and "phase_of mig = Pending"
  shows "emits (work_ok mig) w w'"
proof -
  obtain key val where l: "effective_placement_label mw = (key, val)" by fastforce
  obtain e1 w1 where s: "on_cluster (set_node_label (spied K) (ms_target_node (mg_spec mig)) key val) w = (e1, w1)"
    by fastforce
  have "w' = w1 \<or> emits (work_ok mig) w1 w'"
    using assms emits_label(2) [OF _ assms(2), of K _ key w1]
    by (auto simp: steer_def l s split: option.splits)
  with emits_label(1) [OF s assms(2)] show ?thesis by (blast intro: emits_trans)
qed

lemma log_delete_source:
  "delete_source (spied K) mig w = (e, w') \<Longrightarrow>
   wlog w' = wlog w \<or> (\<exists>p b. wlog w' = wlog w @ [WDeletePod p b] \<and> pd_deletion p = None \<and>
     k_get_pod K (mg_namespace mig) (mst_source_pod (mg_status mig)) (fst (w_cluster w)) = Inr p)"
  by (auto simp: delete_source_def split: prod.splits sum.splits option.splits if_splits
      dest!: log_update)

lemma emits_delete_source:
  "delete_source (spied K) m w = (e, w') \<Longrightarrow> phase_of mig = Pending \<or> phase_of mig = Syncing \<Longrightarrow>
   emits (work_ok mig) w w'"
  by (auto simp: emits_def dest!: log_delete_source)

lemma emits_advance:
  assumes "delete_source_and_advance (spied K) ck mig' w = (out, w')"
    and "phase_of mig = Pending \<or> phase_of mig = Syncing"
  shows "emits (work_ok mig) w w'"
proof -
  obtain e w1 where d: "delete_source (spied K) mig' w = (e, w1)" by fastforce
  have "emits (work_ok mig) (on_registry (ck_agents ck) w1) w'"
    using assms
    by (auto simp: delete_source_and_advance_def d Let_def simp del: emits_registry split: option.splits if_splits
        intro: emits_refl dest: emits_set_phase [where mig = mig])
  then have "emits (work_ok mig) w1 w'" by simp
  with emits_delete_source [OF d assms(2)] show ?thesis by (blast intro: emits_trans)
qed

lemma emits_leave:
  "leave_pending (spied K) ck mig' w = (out, w') \<Longrightarrow> phase_of mig = Pending \<Longrightarrow> emits (work_ok mig) w w'"
  by (cases "0 < mst_sync_rounds (mg_status mig')")
     (auto simp: leave_pending_def dest: emits_set_phase [where mig = mig] emits_advance [where mig = mig])

lemma emits_pending:
  assumes "reconcile_pending (spied K) ck mig mw w = (out, w')" and "phase_of mig = Pending"
  shows "emits (work_ok mig) w w'"
proof (cases "mst_source_pod (mg_status mig) = []")
  case True
  with assms show ?thesis by (auto simp: reconcile_pending_def dest: emits_resolve)
next
  case False
  obtain e w1 where s: "steer (spied K) mig mw w = (e, w1)" by fastforce
  obtain r w2 where p: "prepare_destination (spied K) mig mw (arm_source ck mig w1) = (r, w2)"
    by fastforce
  have "emits (work_ok mig) w w1"
    using emits_steer [OF s assms(2)] .
  moreover have "emits (work_ok mig) w1 w2"
    using log_prepare [OF p assms(2)] by simp
  moreover have "w' = w1 \<or> w' = w2 \<or> emits (work_ok mig) w2 w'"
    using assms False
    by (auto simp: reconcile_pending_def s p dest: emits_leave split: option.splits sum.splits)
  ultimately show ?thesis by (blast intro: emits_trans)
qed

lemma emits_syncing:
  assumes "reconcile_syncing (spied K) ck mig w = (out, w')" and "phase_of mig = Syncing"
  shows "emits (work_ok mig) w w'"
proof (cases "get_record (mst_source_pod (mg_status mig)) (w_registry w)")
  case None
  with assms show ?thesis by (simp add: reconcile_syncing_def emits_refl)
next
  case (Some rec)
  obtain r w1 where s: "report_sync_round (spied K) mig rec w = (r, w1)" by fastforce
  have "emits (work_ok mig) w w1" using s assms(2)
    by (auto simp: report_sync_round_def Let_def split: prod.splits sum.splits if_splits
        dest: emits_status [where mig = mig] intro: emits_refl)
  moreover have "w' = w1 \<or> emits (work_ok mig) w1 w'"
    using assms emits_advance [of K ck _ w1 out w' mig]
    by (auto simp: reconcile_syncing_def Some s split: sum.splits if_splits)
  ultimately show ?thesis by (blast intro: emits_trans)
qed

lemma emits_scale_down:
  "scale_down (spied K) mig mw w = (r, w') \<Longrightarrow> phase_of mig = Restoring \<Longrightarrow> emits (work_ok mig) w w'"
  by (auto simp: scale_down_def intro: emits_refl split: prod.splits option.splits if_splits
      dest: emits_scale)

lemma emits_restoring:
  assumes "reconcile_restoring (spied K) ck mig mw w = (out, w')" and "phase_of mig = Restoring"
  shows "emits (work_ok mig) w w'"
proof (cases "restored_evidence (spied K) mig w = Inr True")
  case False
  with assms show ?thesis
    by (auto simp: reconcile_restoring_def intro: emits_refl split: sum.splits bool.splits)
next
  case True
  obtain r w1 where s: "scale_down (spied K) mig mw w = (r, w1)" by fastforce
  have "w' = w1 \<or> emits (work_ok mig) w1 w'"
    using assms True
    by (auto simp: reconcile_restoring_def s split: sum.splits dest: emits_set_phase [where mig = mig])
  with emits_scale_down [OF s assms(2)] show ?thesis by (blast intro: emits_trans)
qed

lemma emits_dispatch:
  "dispatch (spied K) ck (phase_of mig) mig mw w = (out, w') \<Longrightarrow> emits (work_ok mig) w w'"
  by (cases "phase_of mig")
     (auto simp: reconcile_checkpointing_def reconcile_transferring_def
       intro: emits_refl
       dest: emits_initialize emits_pending emits_syncing emits_restoring emits_set_phase [where mig = mig]
       split: if_splits)

lemma emits_mono: "emits P w w' \<Longrightarrow> (\<And>x. P x \<Longrightarrow> Q x) \<Longrightarrow> emits Q w w'"
  unfolding emits_def list_all_iff by blast

lemma emits_dispatch_write:
  "dispatch (spied K) ck (phase_of mig) mig mw w = (out, w') \<Longrightarrow> emits (write_ok mig) w w'"
  by (rule emits_mono [OF emits_dispatch work_ok_write_ok])

lemma emits_finalize: "finalize (spied K) mig w = (out, w') \<Longrightarrow> emits (write_ok mig) w w'"
  by (auto simp: emits_def finalize_def Let_def split: prod.splits sum.splits if_splits dest!: log_update)

lemma next_failed: "\<not> is_terminal (mg_status mig) \<Longrightarrow> next_phase (phase_of mig) Failed"
  by (cases "phase_of mig") (simp_all add: is_terminal_def)

lemma emits_fail:
  "fail (spied K) ck mig msg w = (out, w') \<Longrightarrow> \<not> is_terminal (mg_status mig) \<Longrightarrow> emits (write_ok mig) w w'"
  by (auto simp: emits_def dest!: log_fail simp: next_failed)

lemma emits_update:
  "on_cluster (k_update_migration (spied K) m) w = (r, w') \<Longrightarrow>
   m = mig\<lparr>mg_finalizers := mg_finalizers m\<rparr> \<Longrightarrow> emits (write_ok mig) w w'"
  by (auto simp: emits_def dest!: log_update)

lemma emits_reconcile:
  assumes "reconcile (spied K) ck ns name w = (out, w')"
    and "k_get_migration K ns name (fst (w_cluster w)) = Inr mig"
  shows "emits (write_ok mig) w w'"
  using assms
  by (auto simp: reconcile_def advance_def split: prod.splits sum.splits if_splits
      dest: emits_update [where mig = mig] emits_finalize [where mig = mig] emits_fail [where mig = mig] emits_dispatch_write [where mig = mig] intro: emits_refl)

text \<open>
  C4: every write a pass makes is permitted by the migration it read: its status moves along an
  edge of the lifecycle or keeps its phase, and objects are touched only in the phases for it.
\<close>

theorem pass_writes_permitted:
  assumes "k_get_migration K ns name (w_cluster w) = Inr mig"
  shows "list_all (write_ok mig) (pass_writes K ck ns name w)"
proof -
  obtain out w' where r: "reconcile (spied K) ck ns name (watched w) = (out, w')" by fastforce
  from emits_reconcile [OF this, of mig] assms show ?thesis by (simp add: pass_writes_def emits_def r)
qed

section \<open>Failing\<close>

text \<open>A pod without an armed migration.\<close>

definition disarmed :: "string \<Rightarrow> registry \<Rightarrow> bool" where
  "disarmed n m \<longleftrightarrow> (case get_record n m of None \<Rightarrow> True | Some rec \<Rightarrow> \<not> pr_migrating rec \<and>
     \<not> pr_checkpoint_ready rec \<and> \<not> pr_restored rec \<and> \<not> pr_dest_registered rec)"

definition flags_cleared :: "migration \<Rightarrow> registry \<Rightarrow> bool" where
  "flags_cleared mig m \<longleftrightarrow>
     (\<forall>n \<in> {mst_source_pod (mg_status mig), mst_destination_pod (mg_status mig)} - {[]}. disarmed n m)"

lemma flags_cleared_clear [simp]:
  "flags_cleared mig (w_registry (clear_registry_flags mig w))"
  by (auto simp: flags_cleared_def clear_registry_flags_def disarmed_def get_record_def
      on_registry_def Let_def reg_simps split: option.split)

lemma registry_cluster: "on_cluster f w = (r, w') \<Longrightarrow> w_registry w' = w_registry w"
  by (auto simp: on_cluster_def split: prod.splits)

lemma registry_set_phase: "set_phase K ck mig ph msg w = (out, w') \<Longrightarrow> w_registry w' = w_registry w"
  by (auto simp: set_phase_def record_history_def split: prod.splits sum.splits
      dest!: registry_cluster)

definition failed_from :: "migration \<Rightarrow> migration \<Rightarrow> bool" where
  "failed_from mig m \<longleftrightarrow>
     phase_of m = Failed \<and> mst_completion_time (mg_status m) \<noteq> None \<and>
     mst_scaled_up (mg_status m) = mst_scaled_up (mg_status mig)"

text \<open>All that \<open>fail\<close> does.\<close>

lemma fail_effect:
  assumes "fail (spied K) ck mig msg w = (out, w')"
  shows "\<exists>m b. wlog w' = wlog w @ [WStatus m b] \<and> failed_from mig m \<and> mst_message (mg_status m) = msg \<and>
           flags_cleared mig (w_registry w')"
proof -
  from assms have s: "set_phase (spied K) ck (with_completion ck mig) Failed msg
      (clear_registry_flags mig w) = (out, w')"
    by (simp add: fail_def)
  from log_set_phase [OF s] registry_set_phase [OF s] show ?thesis
    by (auto simp: failed_from_def in_phase_def with_completion_def on_status_def)
qed

definition fails_cleanly ::
    "migration \<Rightarrow> ('c \<times> 'l kwrite list) world \<Rightarrow> ('c \<times> 'l kwrite list) world \<Rightarrow> bool" where
  "fails_cleanly mig w w' \<longleftrightarrow>
     (\<forall>xs m b. wlog w' = wlog w @ xs \<longrightarrow> WStatus m b \<in> set xs \<longrightarrow> phase_of m = Failed \<longrightarrow>
        xs = [WStatus m b] \<and> failed_from mig m \<and> flags_cleared mig (w_registry w'))"

lemma fails_cleanly_fail: "fail (spied K) ck mig msg w = (out, w') \<Longrightarrow> fails_cleanly mig w w'"
  by (drule fail_effect) (auto simp: fails_cleanly_def)

lemma fails_cleanly_refl: "wlog w' = wlog w \<Longrightarrow> fails_cleanly mig w w'"
  by (simp add: fails_cleanly_def)

lemma fails_cleanly_other:
  "wlog w' = wlog w @ [x] \<Longrightarrow> (\<And>m b. x = WStatus m b \<Longrightarrow> phase_of m \<noteq> Failed) \<Longrightarrow>
   fails_cleanly mig w w'"
  by (auto simp: fails_cleanly_def)

lemma fails_cleanly_set_phase:
  "set_phase (spied K) ck m ph msg w = (out, w') \<Longrightarrow> ph \<noteq> Failed \<Longrightarrow> fails_cleanly mig w w'"
  by (auto simp: fails_cleanly_def dest!: log_set_phase)

lemma fails_cleanly_initialize:
  "initialize (spied K) ck mig w = (out, w') \<Longrightarrow> fails_cleanly mig w w'"
  by (auto simp: initialize_def Let_def split: option.splits prod.splits if_splits
      intro: fails_cleanly_refl
      dest: fails_cleanly_fail fails_cleanly_set_phase [where mig = mig])

lemma fails_cleanly_resolve:
  "resolve_source (spied K) ck mig mw w = (out, w') \<Longrightarrow> phase_of mig = Pending \<Longrightarrow>
   fails_cleanly mig w w'"
  by (auto simp: resolve_source_def Let_def
      split: option.splits prod.splits sum.splits if_splits
      intro: fails_cleanly_refl fails_cleanly_other
      dest: fails_cleanly_fail dest!: log_requeue log_choose_source)

lemma fails_cleanly_late:
  "emits (work_ok mig) w w' \<Longrightarrow> \<not> early mig \<Longrightarrow> fails_cleanly mig w w'"
  by (force simp: emits_def fails_cleanly_def list_all_iff)

lemma fails_cleanly_dispatch:
  assumes "dispatch (spied K) ck (phase_of mig) mig mw w = (out, w')"
  shows "fails_cleanly mig w w'"
proof (cases "early mig")
  case False
  with emits_dispatch [OF assms] show ?thesis by (rule fails_cleanly_late)
next
  case True
  with assms show ?thesis
    by (auto simp: early_def reconcile_pending_def dest: fails_cleanly_initialize fails_cleanly_resolve)
qed

lemma fails_cleanly_update:
  "on_cluster (k_update_migration (spied K) m) w = (r, w') \<Longrightarrow> fails_cleanly mig w w'"
  by (auto simp: fails_cleanly_def dest!: log_update)

lemma fails_cleanly_finalize: "finalize (spied K) mig w = (out, w') \<Longrightarrow> fails_cleanly mig w w'"
  by (auto simp: fails_cleanly_def finalize_def Let_def split: prod.splits sum.splits if_splits
      dest!: log_update)

lemma fails_cleanly_reconcile:
  assumes "reconcile (spied K) ck ns name w = (out, w')"
    and "k_get_migration K ns name (fst (w_cluster w)) = Inr mig"
  shows "fails_cleanly mig w w'"
  using assms
  by (auto simp: reconcile_def advance_def split: prod.splits sum.splits if_splits
      intro: fails_cleanly_refl
      dest: fails_cleanly_update [where mig = mig] fails_cleanly_finalize fails_cleanly_fail
        fails_cleanly_dispatch)

lemma fails_cleanly_pass:
  assumes "k_get_migration K ns name (w_cluster w) = Inr mig"
    and "WStatus m b \<in> set (pass_writes K ck ns name w)" and "phase_of m = Failed"
  shows "pass_writes K ck ns name w = [WStatus m b] \<and> failed_from mig m \<and>
         flags_cleared mig (w_registry (after_pass K ck ns name w))"
proof -
  obtain out w' where r: "reconcile (spied K) ck ns name (watched w) = (out, w')" by fastforce
  from fails_cleanly_reconcile [OF this, of mig] assms show ?thesis
    by (simp add: fails_cleanly_def pass_writes_def after_pass_watched r)
qed

text \<open>
  C22: a pass that fails a migration writes nothing but that status, stamps the completion time,
  and leaves neither the source nor the destination pod armed; the replica it scaled up for the
  destination stays, since no Deployment is patched and the flag is kept.
\<close>

theorem failing_disarms_but_keeps_replica:
  assumes "k_get_migration K ns name (w_cluster w) = Inr mig"
    and "WStatus m b \<in> set (pass_writes K ck ns name w)" and "phase_of m = Failed"
  shows "pass_writes K ck ns name w = [WStatus m b] \<and>
         mst_completion_time (mg_status m) \<noteq> None \<and>
         flags_cleared mig (w_registry (after_pass K ck ns name w)) \<and>
         mst_scaled_up (mg_status m) = mst_scaled_up (mg_status mig)"
  using fails_cleanly_pass [OF assms] by (simp add: failed_from_def)

text \<open>
  C28: a migration that stayed in a phase for more than ten minutes is failed by the next pass
  that sees it, in that one write, with the phase in the message.
\<close>

theorem phase_timeout_fails:
  assumes "k_get_migration K ns name (w_cluster w) = Inr mig"
    and "k_get_workload K (mg_namespace mig) (ms_workload_name (mg_spec mig)) (w_cluster w) = Inr mw"
    and "\<not> being_deleted mig" and "migration_finalizer \<in> set (mg_finalizers mig)"
    and "phase_of mig \<noteq> NoPhase" and "phase_of mig \<noteq> Completed" and "phase_of mig \<noteq> Failed"
    and "mst_last_transition_time (mg_status mig) = Some t"
    and "t + 600000000000 < ck_expired ck"
  shows "\<exists>m b. pass_writes K ck ns name w = [WStatus m b] \<and> phase_of m = Failed \<and>
           mst_message (mg_status m) = expiry_message mig \<and>
           flags_cleared mig (w_registry (after_pass K ck ns name w))"
proof -
  obtain out w' where r: "reconcile (spied K) ck ns name (watched w) = (out, w')" by fastforce
  have "phase_timeout < time_sub (ck_expired ck) t"
    using assms(9)
    by (simp add: time_sub_def phase_timeout_def minute_def second_def max_duration_def)
  then have "phase_expired ck mig"
    using assms(5-8) by (simp add: phase_expired_def is_terminal_def)
  then have "fail (spied K) ck mig (expiry_message mig) (watched w) = (out, w')"
    using r assms(1-7) by (simp add: reconcile_def advance_def is_terminal_def)
  from fail_effect [OF this] show ?thesis
    by (auto simp: pass_writes_def after_pass_watched r failed_from_def)
qed

text \<open>
  A finished migration is left alone: unless it is being deleted, a pass over it writes
  nothing, changes nothing and asks for no other pass.
\<close>

lemma finished_is_final:
  assumes "k_get_migration K ns name (w_cluster w) = Inr mig"
    and "phase_of mig = Completed \<or> phase_of mig = Failed" and "\<not> being_deleted mig"
  shows "reconcile K ck ns name w = (stop, w) \<and> pass_writes K ck ns name w = []"
  using assms by (auto simp: reconcile_def pass_writes_def is_terminal_def)

end
