(* ===== verification/MigrationFlow.thy ===== *)
theory MigrationFlow
  imports MigrationSafety
begin

text \<open>
  The two ends of the downtime window in one pass: what has happened before the source pod is
  deleted, and what is known when the migration is completed.
\<close>

section \<open>Before the source pod is deleted\<close>

fun not_delete :: "'l kwrite \<Rightarrow> bool" where
  "not_delete (WDeletePod _ _) \<longleftrightarrow> False"
| "not_delete _ \<longleftrightarrow> True"

text \<open>A label patch or a status update that succeeded.\<close>

fun settled :: "'l kwrite \<Rightarrow> bool" where
  "settled (WPatchNode _ _ b) \<longleftrightarrow> b"
| "settled (WStatus _ b) \<longleftrightarrow> b"
| "settled _ \<longleftrightarrow> False"

fun is_status :: "'l kwrite \<Rightarrow> bool" where
  "is_status (WStatus _ _) \<longleftrightarrow> True"
| "is_status _ \<longleftrightarrow> False"

lemma settled_not_delete: "settled x \<Longrightarrow> not_delete x"
  by (cases x) simp_all

text \<open>The helpers and the handlers that never delete a pod.\<close>

lemma no_delete_helpers:
  "on_cluster (k_update_status (spied K) m) w = (r, w') \<Longrightarrow> emits not_delete w w'"
  "set_phase (spied K) ck m ph msg w = (out, w') \<Longrightarrow> emits not_delete w w'"
  "fail (spied K) ck m msg w = (out, w') \<Longrightarrow> emits not_delete w w'"
  "requeue_with_message (spied K) m msg w = (out, w') \<Longrightarrow> emits not_delete w w'"
  "choose_source (spied K) m mw src w = (out, w') \<Longrightarrow> emits not_delete w w'"
  "on_cluster (set_node_label (spied K) n key val) w = (e, w') \<Longrightarrow> emits not_delete w w'"
  "on_cluster (remove_node_label (spied K) n key) w = (e, w') \<Longrightarrow> emits not_delete w w'"
  "on_cluster (scale_deployment (spied K) ns n d) w = (e, w') \<Longrightarrow> emits not_delete w w'"
  by (auto simp: emits_def
      dest!: log_update log_set_phase log_fail log_requeue log_choose_source log_set_label
        log_remove_label log_scale)

lemma no_delete_resolve: "resolve_source (spied K) ck mig mw w = (out, w') \<Longrightarrow> emits not_delete w w'"
  by (auto simp: resolve_source_def Let_def
      split: option.splits prod.splits sum.splits if_splits
      intro: emits_refl dest: no_delete_helpers)

lemma no_delete_steer: "steer (spied K) mig mw w = (e, w') \<Longrightarrow> emits not_delete w w'"
  by (auto simp: steer_def split: option.splits prod.splits
      dest!: no_delete_helpers intro: emits_trans)

lemma no_delete_prepare:
  "prepare_destination (spied K) mig mw w = (r, w') \<Longrightarrow> emits not_delete w w'"
  by (auto simp: prepare_destination_def scale_up_def find_destination_def Let_def
      split: option.splits prod.splits sum.splits if_splits
      dest!: no_delete_helpers intro: emits_trans emits_refl)

text \<open>What precedes the hand-over to the downtime has succeeded.\<close>

lemma settled_steer: "steer (spied K) mig mw w = (None, w') \<Longrightarrow> emits settled w w'"
proof -
  assume "steer (spied K) mig mw w = (None, w')"
  then obtain key val w1 where
    "on_cluster (set_node_label (spied K) (ms_target_node (mg_spec mig)) key val) w = (None, w1)" and
    "on_cluster (remove_node_label (spied K) (ms_source_node (mg_spec mig)) key) w1 = (None, w')"
    by (auto simp: steer_def split: prod.splits option.splits)
  then have "emits settled w w1" and "emits settled w1 w'"
    by (auto simp: emits_def good_opt_def dest!: log_set_label log_remove_label)
  then show ?thesis by (rule emits_trans)
qed

lemma settled_update:
  "on_cluster (k_update_status (spied K) m) w = (Inr m', w') \<Longrightarrow>
   emits settled w w' \<and> w_registry w' = w_registry w"
  by (auto simp: emits_def good_sum_def dest: log_update registry_cluster)

lemma settled_prepare:
  "prepare_destination (spied K) mig mw w = (Inr mig', w') \<Longrightarrow>
   emits settled w w' \<and> w_registry w' = w_registry w"
  by (auto simp: prepare_destination_def find_destination_def Let_def
      split: option.splits prod.splits sum.splits if_splits
      intro: emits_refl dest: settled_update)

lemma registry_steer: "steer K mig mw w = (e, w') \<Longrightarrow> w_registry w' = w_registry w"
  by (auto simp: steer_def split: prod.splits option.splits dest!: registry_cluster)

text \<open>The hand-over itself: at most the deletion, then at most one status write.\<close>

definition delete_tail :: "'l kwrite list \<Rightarrow> bool" where
  "delete_tail xs \<longleftrightarrow>
     (\<exists>ds ss. xs = ds @ ss \<and> (ds = [] \<or> (\<exists>p b. ds = [WDeletePod p b])) \<and> list_all is_status ss)"

lemma delete_tail_set_phase:
  "set_phase (spied K) ck m ph msg w = (out, w') \<Longrightarrow> emits is_status w w'"
  by (auto simp: emits_def dest!: log_set_phase)

lemma delete_tail_advance:
  assumes "delete_source_and_advance (spied K) ck mig w = (out, w')"
  shows "(\<exists>xs. wlog w' = wlog w @ xs \<and> delete_tail xs) \<and> w_registry w' = ck_agents ck (w_registry w)"
proof -
  obtain e w1 where d: "delete_source (spied K) mig w = (e, w1)" by fastforce
  have reg1: "w_registry w1 = w_registry w"
    using d by (auto simp: delete_source_def split: prod.splits sum.splits option.splits if_splits
        dest!: registry_cluster)
  let ?w2 = "on_registry (ck_agents ck) w1"
  have "w' = ?w2 \<or> emits is_status ?w2 w' \<and> w_registry w' = w_registry ?w2"
    using assms
    by (auto simp: delete_source_and_advance_def d Let_def simp del: emits_registry split: option.splits if_splits
        dest: delete_tail_set_phase registry_set_phase)
  then have "emits is_status ?w2 w'" and "w_registry w' = w_registry ?w2"
    by (auto intro: emits_refl)
  then have "emits is_status w1 w'" and "w_registry w' = w_registry ?w2" by simp_all
  moreover from this(2) have reg: "w_registry w' = ck_agents ck (w_registry w)"
    using reg1 by (simp add: on_registry_def)
  ultimately have "emits is_status w1 w'" by simp
  then obtain ss where "wlog w' = wlog w1 @ ss" and "list_all is_status ss"
    by (auto simp: emits_def)
  moreover
  from log_delete_source [OF d]
  obtain ds where "wlog w1 = wlog w @ ds" and "ds = [] \<or> (\<exists>p b. ds = [WDeletePod p b])" by auto
  ultimately have "wlog w' = wlog w @ (ds @ ss)" and "delete_tail (ds @ ss)"
    by (auto simp: delete_tail_def)
  with reg show ?thesis by blast
qed

lemma delete_tail_leave:
  assumes "leave_pending (spied K) ck mig w = (out, w')"
  shows "(\<exists>xs. wlog w' = wlog w @ xs \<and> delete_tail xs) \<and>
    (w_registry w' = ck_agents ck (w_registry w) \<or> emits not_delete w w')"
proof (cases "0 < mst_sync_rounds (mg_status mig)")
  case False
  with assms delete_tail_advance show ?thesis by (fastforce simp: leave_pending_def)
next
  case True
  with assms obtain msg where s: "set_phase (spied K) ck mig Syncing msg w = (out, w')"
    by (simp add: leave_pending_def)
  from delete_tail_set_phase [OF s] no_delete_helpers(2) [OF s] show ?thesis
    by (force simp: emits_def delete_tail_def)
qed

definition armed_for :: "migration \<Rightarrow> registry \<Rightarrow> bool" where
  "armed_for mig m \<longleftrightarrow>
     (case get_record (mst_source_pod (mg_status mig)) m of
        None \<Rightarrow> False
      | Some rec \<Rightarrow>
          pr_migrating rec \<and>
          pr_process_migration rec = mst_process_migration (mg_status mig) \<and>
          pr_volume_migration rec = mst_volume_migration (mg_status mig) \<and>
          pr_node rec = ms_source_node (mg_spec mig))"

lemma armed_for_arm_source [simp]: "armed_for mig (w_registry (arm_source ck mig w))"
  by (simp add: armed_for_def arm_source_def on_registry_def get_record_def reg_simps Let_def
      arm_info_of_def)

lemma pending_delete:
  assumes run: "reconcile_pending (spied K) ck mig mw w = (out, w')"
    and log: "wlog w' = wlog w @ xs" and del: "WDeletePod p b \<in> set xs"
  shows "mst_source_pod (mg_status mig) \<noteq> [] \<and>
         (\<exists>m. armed_for mig m \<and> w_registry w' = ck_agents ck m) \<and>
         (\<exists>pre post. xs = pre @ WDeletePod p b # post \<and> list_all settled pre \<and> list_all is_status post)"
proof -
  have dead: "\<not> emits not_delete w w'"
    using log del by (force simp: emits_def list_all_iff)
  then have src: "mst_source_pod (mg_status mig) \<noteq> []"
    using run by (auto simp: reconcile_pending_def dest: no_delete_resolve)
  obtain e w1 where s: "steer (spied K) mig mw w = (e, w1)" by fastforce
  obtain r w2 where p: "prepare_destination (spied K) mig mw (arm_source ck mig w1) = (r, w2)"
    by fastforce
  have nd1: "emits not_delete w w1" using s by (rule no_delete_steer)
  have nd2: "emits not_delete w1 w2" using no_delete_prepare [OF p] by simp
  from run src dead nd1 have e: "e = None"
    by (auto simp: reconcile_pending_def s split: option.splits)
  with run src dead nd1 nd2 obtain mig' where r: "r = Inr mig'"
    by (cases r) (auto simp: reconcile_pending_def s p dest: emits_trans)
  with run src e have l: "leave_pending (spied K) ck mig' w2 = (out, w')"
    by (simp add: reconcile_pending_def s p)
  have "emits settled w w1" using s e by (simp add: settled_steer)
  moreover have "emits settled w1 w2" and reg: "w_registry w2 = w_registry (arm_source ck mig w1)"
    using settled_prepare [OF p [unfolded r]] by simp_all
  ultimately obtain pre where pre: "wlog w2 = wlog w @ pre" "list_all settled pre"
    by (auto dest: emits_trans simp: emits_def)
  obtain ys where ys: "wlog w' = wlog w2 @ ys" "delete_tail ys"
    using delete_tail_leave [OF l] by blast
  have xs: "xs = pre @ ys" using log pre ys by simp
  have "WDeletePod p b \<in> set ys" using del xs pre(2) by (auto simp: list_all_iff dest: settled_not_delete)
  with ys(2) obtain ss where "ys = WDeletePod p b # ss" and "list_all is_status ss"
    by (force simp: delete_tail_def list_all_iff)
  moreover have "\<not> emits not_delete w2 w'"
    using dead nd1 nd2 by (blast intro: emits_trans)
  then have "armed_for mig (w_registry w2) \<and> w_registry w' = ck_agents ck (w_registry w2)"
    using delete_tail_leave [OF l] reg by simp
  then have "\<exists>m. armed_for mig m \<and> w_registry w' = ck_agents ck m" by blast
  ultimately show ?thesis using src xs pre(2) by auto
qed

text \<open>A write that is neither the finalizer nor a failure comes from the handler of the phase.\<close>

lemma reconcile_dispatch:
  assumes run: "reconcile (spied K) ck ns name w = (out, w')"
    and get: "k_get_migration K ns name (fst (w_cluster w)) = Inr mig"
    and other: "\<not> emits P w w'"
    and upd: "\<And>m b. P (WUpdateMigration m b)"
    and bad: "\<And>m b. phase_of m = Failed \<Longrightarrow> P (WStatus m b)"
  shows "\<exists>mw out'. dispatch (spied K) ck (phase_of mig) mig mw w = (out', w') \<and>
    k_get_workload K (mg_namespace mig) (ms_workload_name (mg_spec mig)) (fst (w_cluster w)) = Inr mw"
proof -
  have U: "emits P w1 w2" if "on_cluster (k_update_migration (spied K) m) w1 = (r, w2)" for m r w1 w2
    using that upd by (auto simp: emits_def dest!: log_update)
  have F: "emits P w1 w2" if "fail (spied K) ck m msg w1 = (o1, w2)" for m msg w1 w2 o1
    using that bad by (auto simp: emits_def dest!: log_fail)
  have "emits P w w'" if "finalize (spied K) mig w = (out, w')"
    using that by (auto simp: finalize_def Let_def intro: emits_refl
        split: prod.splits sum.splits if_splits dest!: U)
  moreover have "emits P w w" by (simp add: emits_refl)
  ultimately show ?thesis
    using run get other
    by (auto simp: reconcile_def advance_def split: prod.splits sum.splits if_splits dest: U F)
qed

text \<open>
  C5: when a pass over a pending migration deletes the source pod, the registry that the agents
  find from then on is armed for this migration with its mechanisms and source node, and what they
  do to it is what the pass leaves; every label patch and status write before the deletion has
  succeeded, and only the status follows it.
\<close>

theorem source_deleted_last:
  assumes "k_get_migration K ns name (w_cluster w) = Inr mig" and "phase_of mig = Pending"
    and "WDeletePod p b \<in> set (pass_writes K ck ns name w)"
  shows "mst_source_pod (mg_status mig) \<noteq> [] \<and>
         (\<exists>m. armed_for mig m \<and> w_registry (after_pass K ck ns name w) = ck_agents ck m) \<and>
         (\<exists>pre post. pass_writes K ck ns name w = pre @ WDeletePod p b # post \<and>
            list_all settled pre \<and> list_all is_status post)"
proof -
  obtain out w' where r: "reconcile (spied K) ck ns name (watched w) = (out, w')" by fastforce
  have log: "wlog w' = wlog (watched w) @ pass_writes K ck ns name w"
    by (simp add: pass_writes_def r)
  have "\<not> emits not_delete (watched w) w'"
    using assms(3) log by (force simp: emits_def list_all_iff)
  from reconcile_dispatch [OF r _ this, of mig] assms(1,2)
  obtain mw out' where "reconcile_pending (spied K) ck mig mw (watched w) = (out', w')" by auto
  from pending_delete [OF this log assms(3)] show ?thesis by (simp add: after_pass_watched r)
qed

section \<open>Completing\<close>

text \<open>What counts as proof that the destination runs.\<close>

definition restore_seen :: "('c, 'l, 's) kube \<Rightarrow> migration \<Rightarrow> 'c world \<Rightarrow> bool" where
  "restore_seen K mig w \<longleftrightarrow>
     (\<exists>rec. get_record (mst_destination_pod (mg_status mig)) (w_registry w) = Some rec \<and> pr_restored rec) \<or>
     (\<exists>p. k_get_pod K (mg_namespace mig) (mst_destination_pod (mg_status mig)) (w_cluster w) = Inr p \<and>
          pd_node_name p = ms_target_node (mg_spec mig) \<and> is_pod_ready p)"

lemma restored_evidence_seen: "restored_evidence K mig w = Inr True \<Longrightarrow> restore_seen K mig w"
  by (auto simp: restored_evidence_def restore_seen_def Let_def
      split: option.splits sum.splits if_splits)

lemma scale_down_keeps:
  "scale_down K mig mw w = (Inr mig1, w1) \<Longrightarrow>
   mst_source_pod (mg_status mig1) = mst_source_pod (mg_status mig) \<and>
   mst_destination_pod (mg_status mig1) = mst_destination_pod (mg_status mig) \<and>
   \<not> mst_scaled_up (mg_status mig1)"
  by (auto simp: scale_down_def on_status_def split: prod.splits option.splits if_splits)

text \<open>The patch that takes one replica from the Deployment of the workload, as it is in the cluster.\<close>

definition replica_taken ::
    "('c, 'l, 's) kube \<Rightarrow> workload \<Rightarrow> 'c \<Rightarrow> 'l kwrite \<Rightarrow> bool" where
  "replica_taken K mw c x \<longleftrightarrow>
     (let ns = mw_namespace mw; name = wr_name (ws_workload_ref (mw_spec mw))
      in \<exists>dep. k_get_deployment K ns name c = Inr dep \<and>
           x = WPatchDeployment ns name dep
                 (dep\<lparr>dp_replicas := Some (scaled_replicas (dp_replicas dep) (- 1))\<rparr>) True)"

lemma log_scale_down:
  assumes "scale_down (spied K) mig mw w = (Inr mig1, w1)"
  shows "if mst_scaled_up (mg_status mig)
    then \<exists>x. replica_taken K mw (fst (w_cluster w)) x \<and> wlog w1 = wlog w @ [x] else wlog w1 = wlog w"
  using assms
  by (auto simp: scale_down_def on_cluster_def scale_deployment_def wlog_def spied_writes replica_taken_def
      good_opt_def Let_def split: prod.splits sum.splits option.splits if_splits)

definition completes_well ::
    "('c, 'l, 's) kube \<Rightarrow> migration \<Rightarrow> workload \<Rightarrow> 'c world \<Rightarrow> 'l kwrite list \<Rightarrow> registry \<Rightarrow> migration \<Rightarrow> bool \<Rightarrow> bool" where
  "completes_well K mig mw w xs reg m b \<longleftrightarrow>
     restore_seen K mig w \<and> mst_completion_time (mg_status m) \<noteq> None \<and>
     \<not> mst_scaled_up (mg_status m) \<and> flags_cleared mig reg \<and>
     (if mst_scaled_up (mg_status mig)
      then \<exists>x. replica_taken K mw (w_cluster w) x \<and> xs = [x, WStatus m b] else xs = [WStatus m b])"

lemma emits_not_completed:
  "emits (write_ok mig) w w' \<Longrightarrow> wlog w' = wlog w @ xs \<Longrightarrow> WStatus m b \<in> set xs \<Longrightarrow>
   phase_of m = Completed \<Longrightarrow> phase_of mig = Restoring"
  by (cases "phase_of mig") (force simp: emits_def list_all_iff)+

lemma restoring_completes:
  assumes run: "reconcile_restoring (spied K) ck mig mw w = (out, w')"
    and log: "wlog w' = wlog w @ xs" and st: "WStatus m b \<in> set xs"
  shows "completes_well K mig mw (unwatched w) xs (w_registry w') m b"
proof -
  have ev: "restored_evidence K mig (unwatched w) = Inr True"
    using run log st
    by (auto simp: reconcile_restoring_def split: sum.splits bool.splits)
  obtain r w1 where s: "scale_down (spied K) mig mw w = (r, w1)" by fastforce
  have quiet: "emits (\<lambda>x. \<not> is_status x) w w1"
    using s by (auto simp: scale_down_def emits_def split: prod.splits option.splits if_splits
        dest!: log_scale)
  with run ev st log obtain mig1 where r: "r = Inr mig1"
    by (cases r) (force simp: reconcile_restoring_def s emits_def list_all_iff)+
  let ?done = "with_completion ck mig1"
  obtain msg where sp: "set_phase (spied K) ck ?done Completed msg (clear_registry_flags mig1 w1) = (out, w')"
    using run ev by (simp add: reconcile_restoring_def s r)
  from log_set_phase [OF sp] obtain b' where "wlog w' = wlog w1 @ [WStatus (in_phase ck Completed msg ?done) b']"
    by auto
  with quiet log st have m: "m = in_phase ck Completed msg ?done" and l: "wlog w' = wlog w1 @ [WStatus m b]"
    by (force simp: emits_def list_all_iff)+
  have cl: "w_cluster (unwatched w) = fst (w_cluster w)" by (simp add: unwatched_def)
  have "if mst_scaled_up (mg_status mig)
      then \<exists>x. replica_taken K mw (w_cluster (unwatched w)) x \<and> xs = [x, WStatus m b] else xs = [WStatus m b]"
    using log_scale_down [OF s [unfolded r]] l log unfolding cl by (auto split: if_splits)
  note writes = this
  note keep = scale_down_keeps [OF s [unfolded r]]
  have "flags_cleared mig (w_registry w')"
    using registry_set_phase [OF sp] flags_cleared_clear [of mig1 w1] keep
    by (simp add: flags_cleared_def)
  moreover have "mst_completion_time (mg_status m) \<noteq> None \<and> \<not> mst_scaled_up (mg_status m)"
    using keep by (simp add: m in_phase_def with_completion_def on_status_def)
  ultimately show ?thesis using restored_evidence_seen [OF ev] writes by (simp add: completes_well_def)
qed

text \<open>
  C6: a migration is completed only from Restoring and only when the destination agent has
  reported the restore or the destination pod is Ready on the target node; the pass stamps the
  completion time and leaves neither pod armed. If the migration had scaled a Deployment up, the
  write before the status is the patch that takes one replica from it, which has succeeded;
  otherwise the status is the only write.
\<close>

theorem completed_on_evidence:
  assumes get: "k_get_migration K ns name (w_cluster w) = Inr mig"
    and st: "WStatus m b \<in> set (pass_writes K ck ns name w)" and ph: "phase_of m = Completed"
  shows "phase_of mig = Restoring \<and> restore_seen K mig w \<and>
         mst_completion_time (mg_status m) \<noteq> None \<and> \<not> mst_scaled_up (mg_status m) \<and>
         flags_cleared mig (w_registry (after_pass K ck ns name w)) \<and>
         (if mst_scaled_up (mg_status mig)
          then \<exists>mw x. k_get_workload K (mg_namespace mig) (ms_workload_name (mg_spec mig)) (w_cluster w) = Inr mw \<and>
                 replica_taken K mw (w_cluster w) x \<and> pass_writes K ck ns name w = [x, WStatus m b]
          else pass_writes K ck ns name w = [WStatus m b])"
proof -
  obtain out w' where r: "reconcile (spied K) ck ns name (watched w) = (out, w')" by fastforce
  have log: "wlog w' = wlog (watched w) @ pass_writes K ck ns name w"
    by (simp add: pass_writes_def r)
  have "emits (write_ok mig) (watched w) w'" using emits_reconcile [OF r, of mig] get by simp
  from emits_not_completed [OF this log st ph] have ph0: "phase_of mig = Restoring" .
  let ?P = "\<lambda>x :: 'b kwrite. \<forall>m b. x = WStatus m b \<longrightarrow> phase_of m \<noteq> Completed"
  have "\<not> emits ?P (watched w) w'"
    using log st ph by (force simp: emits_def list_all_iff)
  from reconcile_dispatch [OF r _ this, of mig] get ph0
  obtain mw out' where rest: "reconcile_restoring (spied K) ck mig mw (watched w) = (out', w')"
    and mw: "k_get_workload K (mg_namespace mig) (ms_workload_name (mg_spec mig)) (w_cluster w) = Inr mw"
    by auto
  from restoring_completes [OF rest log st] ph0 mw show ?thesis
    by (auto simp: completes_well_def after_pass_watched r split: if_splits)
qed

end
