(* ===== verification/Coordinator.thy ===== *)
theory Coordinator
  imports RestApi MigrationFlow
begin

text \<open>
  The coordinator as a whole: its startup (\<open>operator/main.go\<close>), and every order in which the
  agents' requests, the passes of the two reconcilers, restarts and changes of the cluster can
  follow each other. The registry and the history are consistent in every state it reaches.
\<close>

section \<open>Startup\<close>

text \<open>
  \<open>seeder\<close> tells whether the seed client could be built. A failed seeding is skipped.
\<close>

definition startup ::
    "('c, 'l, 's) kube \<Rightarrow> (workload \<Rightarrow> registered_pod \<Rightarrow> instant \<times> instant) \<Rightarrow> bool \<Rightarrow> bool \<Rightarrow> int \<Rightarrow>
     'c \<Rightarrow> 'c world" where
  "startup K clock seeder history_enabled history_limit c =
     (let reg = new_registry; hist = new_store history_enabled history_limit in
      if \<not> seeder then \<lparr>w_cluster = c, w_registry = reg, w_history = Some hist\<rparr>
      else \<lparr>w_cluster = c, w_registry = snd (seed_registry K clock c reg),
            w_history = Some (if history_enabled then snd (seed_history_from K c hist) else hist)\<rparr>)"

section \<open>Steps of the system\<close>

datatype 'c event =
    Serve rest_clock "registry \<Rightarrow> registry" request
  | MigrationPass mig_clock string string
  | WorkloadPass string string
  | ClusterChange "'c \<Rightarrow> 'c"
  | Restart "workload \<Rightarrow> registered_pod \<Rightarrow> instant \<times> instant" bool bool int

fun coord_step ::
    "('c, 'l, 's) kube \<Rightarrow> server \<Rightarrow> (int \<Rightarrow> int \<Rightarrow> 'f::zero) \<Rightarrow> 'c world \<Rightarrow> 'c event \<Rightarrow> 'c world" where
  "coord_step K sv fdiv w (Serve ck mid req) = snd (serve K sv fdiv ck mid req w)"
| "coord_step K sv fdiv w (MigrationPass ck ns name) = snd (reconcile K ck ns name w)"
| "coord_step K sv fdiv w (WorkloadPass ns name) = snd (reconcile_workload K ns name w)"
| "coord_step K sv fdiv w (ClusterChange f) = w\<lparr>w_cluster := f (w_cluster w)\<rparr>"
| "coord_step K sv fdiv w (Restart clock seeder enabled limit) =
     startup K clock seeder enabled limit (w_cluster w)"

text \<open>What runs between the two lock acquisitions of a handler, or during a pass, are operations of the registry.\<close>

fun event_ok :: "'c event \<Rightarrow> bool" where
  "event_ok (Serve ck mid req) \<longleftrightarrow> (\<forall>m. reg_via m (mid m))"
| "event_ok (MigrationPass ck ns name) \<longleftrightarrow> agents_ok ck"
| "event_ok _ \<longleftrightarrow> True"

definition consistent :: "'c world \<Rightarrow> bool" where
  "consistent w \<longleftrightarrow> reg_inv (w_registry w) \<and> pred_option hist_inv (w_history w)"

section \<open>Every step keeps the invariants\<close>

lemma reg_via_register: "reg_via m (snd (register now n a p m))"
  by (rule reg_via_step [of "OpRegister now n a p"]) simp_all

lemma reg_via_sync: "record_sync_round n k m = (b, m') \<Longrightarrow> reg_via m m'"
  by (rule reg_via_step [of "OpSync n k"]) simp_all

lemma reg_via_copy: "mark_checkpoint_ready n d m = (b, m') \<Longrightarrow> reg_via m m'"
  by (rule reg_via_step [of "OpCopy n d"]) simp_all

lemma reg_via_restored: "mark_restored n m = (b, m') \<Longrightarrow> reg_via m m'"
  by (rule reg_via_step [of "OpRestored n"]) simp_all

lemma reg_via_handlers:
  "(\<And>m. reg_via m (mid m)) \<Longrightarrow> reg_via m (snd (handle_register now mid req m))"
  "(\<And>m. reg_via m (mid m)) \<Longrightarrow> reg_via m (snd (handle_sync mid sreq m))"
  "reg_via m (snd (handle_copy creq m))"
  "reg_via m (snd (handle_restored rreq m))"
proof -
  show "reg_via m (snd (handle_register now mid req m))" if "\<And>m. reg_via m (mid m)"
    using that reg_via_register reg_via_trans
    by (fastforce simp: handle_register_def Let_def case_prod_unfold split: option.splits)
  show "reg_via m (snd (handle_sync mid sreq m))" if "\<And>m. reg_via m (mid m)"
    using that by (auto simp: handle_sync_def Let_def split: option.splits prod.splits bool.splits
        dest!: reg_via_sync intro: reg_via_trans)
  show "reg_via m (snd (handle_copy creq m))"
    by (auto simp: handle_copy_def split: option.splits prod.splits bool.splits dest: reg_via_copy)
  show "reg_via m (snd (handle_restored rreq m))"
    by (auto simp: handle_restored_def split: option.splits prod.splits bool.splits dest: reg_via_restored)
qed

lemma hist_via_config: "hist_via h (snd (handle_history_config_set req h))"
  using hist_via_step [of "Some (set_enabled b s)" "HSetEnabled b" "Some s" for b s]
  by (auto simp: handle_history_config_set_def split: option.splits)

lemma moves_on_cluster: "moves w (snd (on_cluster f w))"
  by (simp add: moves_def on_cluster_def split: prod.splits)

lemma moves_serve:
  assumes "\<And>m. reg_via m (mid m)"
  shows "moves w (snd (serve K sv fdiv ck mid req w))"
proof (cases req)
  case (Register x)
  then show ?thesis
    using reg_via_handlers(1) [OF assms] by (simp add: moves_def case_prod_unfold)
next
  case (Sync x)
  then show ?thesis
    using reg_via_handlers(2) [OF assms] by (simp add: moves_def case_prod_unfold)
next
  case (Copy x)
  then show ?thesis using reg_via_handlers(3) by (simp add: moves_def case_prod_unfold)
next
  case (Restored x)
  then show ?thesis using reg_via_handlers(4) by (simp add: moves_def case_prod_unfold)
next
  case (Migrate x)
  then show ?thesis by (simp add: moves_on_cluster)
next
  case (HistoryConfigSet x)
  then show ?thesis using hist_via_config by (simp add: moves_def case_prod_unfold)
qed simp_all

lemma reg_via_mirror: "reg_via m (snd (mirror_loop mw recs m))"
proof (induction recs arbitrary: m)
  case Nil
  then show ?case by simp
next
  case (Cons rec recs)
  have "reg_via m (set_workload (pr_name rec) (mw_namespace mw) (mw_name mw) m)"
    by (rule reg_via_step [of "OpSetWorkload (pr_name rec) (mw_namespace mw) (mw_name mw)"]) simp_all
  from reg_via_trans [OF this Cons.IH] Cons.IH show ?case
    by (simp add: case_prod_unfold Let_def)
qed

lemma moves_workload: "moves w (snd (reconcile_workload K ns name w))"
proof (cases "k_get_workload K ns name (w_cluster w)")
  case (Inl e)
  then show ?thesis by (simp add: reconcile_workload_def)
next
  case (Inr mw)
  obtain pods m where l: "mirror_loop mw (list_records (w_registry w)) (w_registry w) = (pods, m)"
    by fastforce
  have "moves w (w\<lparr>w_registry := m\<rparr>)"
    using reg_via_mirror [of "w_registry w" mw "list_records (w_registry w)"] l
    by (simp add: moves_def)
  then show ?thesis
    by (auto simp: reconcile_workload_def Inr l Let_def split: option.splits prod.splits sum.splits
        dest!: moves_cluster intro: moves_trans)
qed

lemma consistent_moves: "moves w w' \<Longrightarrow> consistent w \<Longrightarrow> consistent w'"
  by (auto simp: consistent_def moves_def dest: reg_via_inv hist_via_inv)

lemma consistent_startup: "consistent (startup K clock seeder enabled limit c)"
proof -
  have "reg_inv (snd (seed_registry K clock c new_registry))"
    using reg_step_inv [of new_registry "OpSeed recs" for recs]
    by (auto simp: seed_registry_def flow_inv_seeded_pods split: sum.split)
  moreover have "hist_inv (snd (seed_history_from K c (new_store e limit)))" for e
    using hist_step_inv [of "new_store e limit" "HSeed recs" for recs]
    by (auto simp: seed_history_from_def hist_inv_new split: sum.split)
  ultimately show ?thesis by (simp add: consistent_def startup_def Let_def hist_inv_new)
qed

lemma consistent_step:
  assumes "consistent w" and "event_ok e"
  shows "consistent (coord_step K sv fdiv w e)"
proof (cases e)
  case (Serve ck mid req)
  with assms(2) have "\<And>m. reg_via m (mid m)" by simp
  from consistent_moves [OF moves_serve [OF this] assms(1)] Serve show ?thesis by simp
next
  case (MigrationPass ck ns name)
  obtain out w' where r: "reconcile K ck ns name w = (out, w')" by fastforce
  have "agents_ok ck" using assms(2) MigrationPass by simp
  from consistent_moves [OF moves_reconcile [OF r this] assms(1)] MigrationPass r show ?thesis by simp
next
  case (WorkloadPass ns name)
  with consistent_moves [OF moves_workload assms(1)] show ?thesis by simp
next
  case (ClusterChange f)
  with assms(1) show ?thesis by (simp add: consistent_def)
next
  case (Restart clock seeder enabled limit)
  then show ?thesis by (simp add: consistent_startup)
qed

interpretation coordm: machine "coord_step K sv fdiv" consistent event_ok
  for K :: "('c, 'l, 's) kube" and sv :: server and fdiv :: "int \<Rightarrow> int \<Rightarrow> 'f::zero"
  by unfold_locales (rule consistent_step)

definition coord_run ::
    "('c, 'l, 's) kube \<Rightarrow> server \<Rightarrow> (int \<Rightarrow> int \<Rightarrow> 'f::zero) \<Rightarrow> 'c world \<Rightarrow> 'c event list \<Rightarrow> 'c world" where
  "coord_run K sv fdiv w es = foldl (coord_step K sv fdiv) w es"

text \<open>
  C1: from startup on, whatever requests, passes, restarts and cluster changes follow in
  whatever order, and whatever the API server answers: every record is filed under its name with
  consistent flow flags, and the history's order and records agree.
\<close>

theorem coordinator_always_consistent:
  assumes "list_all event_ok es"
  shows "consistent (coord_run K sv fdiv (startup K clock seeder enabled limit c) es)"
  unfolding coord_run_def by (rule coordm.inv_run [OF consistent_startup assms])

end
