(* ===== verification/ArmingSpec.thy ===== *)
theory ArmingSpec
  imports Coordinator
begin

text \<open>
  Who starts and ends a migration in the registry: no request of an agent arms or disarms a pod or
  removes a record. A pass of the migration reconciler does, for the pods of the migration it
  reads, and a restart does, which seeds the flags from the stored statuses.
\<close>

section \<open>Requests cannot arm or disarm\<close>

definition armed :: "string \<Rightarrow> registry \<Rightarrow> bool" where
  "armed n m \<longleftrightarrow> (case get_record n m of None \<Rightarrow> False | Some rec \<Rightarrow> pr_migrating rec)"

lemma armed_register: "armed n (snd (register now k a p m)) = armed n m"
  by (simp add: armed_def get_record_def reg_simps split: option.split)

lemma armed_others:
  "armed n (snd (record_sync_round k r m)) = armed n m"
  "armed n (snd (mark_checkpoint_ready k d m)) = armed n m"
  "armed n (snd (mark_restored k m)) = armed n m"
  by (auto simp: armed_def get_record_def reg_simps Let_def split: option.splits)

text \<open>The registry after a request, with nothing in between.\<close>

definition request_effect :: "registry \<Rightarrow> registry \<Rightarrow> bool" where
  "request_effect m m' \<longleftrightarrow>
     m' = m \<or> (\<exists>now k a p. m' = snd (register now k a p m)) \<or>
     (\<exists>k r. m' = snd (record_sync_round k r m)) \<or>
     (\<exists>k d. m' = snd (mark_checkpoint_ready k d m)) \<or> (\<exists>k. m' = snd (mark_restored k m))"

lemma effect_handlers:
  "request_effect m (snd (handle_register now id x m))"
  "request_effect m (snd (handle_sync id y m))"
  "request_effect m (snd (handle_copy z m))"
  "request_effect m (snd (handle_restored u m))"
proof -
  show "request_effect m (snd (handle_register now id x m))"
    unfolding request_effect_def
    by (simp add: handle_register_def Let_def case_prod_unfold split: option.split) blast
  show "request_effect m (snd (handle_sync id y m))"
    unfolding request_effect_def
    by (simp add: handle_sync_def Let_def split: option.split prod.split bool.split) (metis snd_conv)
  show "request_effect m (snd (handle_copy z m))"
    unfolding request_effect_def
    by (simp add: handle_copy_def split: option.split prod.split bool.split) (metis snd_conv)
  show "request_effect m (snd (handle_restored u m))"
    unfolding request_effect_def
    by (simp add: handle_restored_def split: option.split prod.split bool.split) (metis snd_conv)
qed

lemma request_effect_refl [simp]: "request_effect m m"
  by (simp add: request_effect_def)

text \<open>What any number of requests do.\<close>

definition by_requests :: "(registry \<Rightarrow> registry) \<Rightarrow> bool" where
  "by_requests f \<longleftrightarrow> (\<forall>m. request_effect\<^sup>*\<^sup>* m (f m))"

lemma request_effect_armed: "request_effect m m' \<Longrightarrow> armed n m' = armed n m"
  by (auto simp: request_effect_def armed_register armed_others)

lemma request_effect_known: "request_effect m m' \<Longrightarrow> fmlookup m n \<noteq> None \<Longrightarrow> fmlookup m' n \<noteq> None"
  by (auto simp: request_effect_def reg_simps)

lemma requests_armed: "request_effect\<^sup>*\<^sup>* m m' \<Longrightarrow> armed n m' = armed n m"
  by (induction rule: rtranclp_induct) (simp_all add: request_effect_armed)

lemma requests_known: "request_effect\<^sup>*\<^sup>* m m' \<Longrightarrow> fmlookup m n \<noteq> None \<Longrightarrow> fmlookup m' n \<noteq> None"
  by (induction rule: rtranclp_induct) (auto dest: request_effect_known)

lemma serve_requests:
  assumes "by_requests mid"
  shows "request_effect\<^sup>*\<^sup>* (w_registry w) (w_registry (snd (serve K sv fdiv ck mid req w)))"
proof -
  have mid: "request_effect\<^sup>*\<^sup>* m m' \<Longrightarrow> request_effect\<^sup>*\<^sup>* m (mid m')" for m m'
    using assms by (meson by_requests_def rtranclp_trans)
  have one: "request_effect m m' \<Longrightarrow> request_effect\<^sup>*\<^sup>* m m'" for m m' by blast
  have reg: "request_effect m (snd (register now k a p m))" for now k a p m
    unfolding request_effect_def by blast
  have syn: "record_sync_round k r m = (b, m') \<Longrightarrow> request_effect m m'" for k r m b m'
    unfolding request_effect_def by (metis snd_conv)
  show ?thesis
  proof (cases req)
    case (Register x)
    have "request_effect\<^sup>*\<^sup>* m (snd (handle_register now mid x m :: 'b response \<times> registry))" for now m
      using mid [OF one [OF reg]]
      by (auto simp: handle_register_def Let_def case_prod_unfold split: option.split)
    with Register show ?thesis by (simp add: case_prod_unfold)
  next
    case (Sync x)
    have "request_effect\<^sup>*\<^sup>* m (snd (handle_sync mid x m :: 'b response \<times> registry))" for m
      using mid [OF one [OF syn]] one [OF syn]
      by (auto simp: handle_sync_def Let_def split: option.split prod.split bool.split)
    with Sync show ?thesis by (simp add: case_prod_unfold)
  qed (simp_all add: case_prod_unfold effect_handlers one on_cluster_def)
qed

section \<open>What a pass does to the registry\<close>

definition cleared :: "migration \<Rightarrow> registry \<Rightarrow> registry" where
  "cleared mig m =
     (let src = mst_source_pod (mg_status mig); dst = mst_destination_pod (mg_status mig);
          m1 = (if src \<noteq> [] then disarm src m else m)
      in if dst \<noteq> [] \<and> dst \<noteq> src then disarm dst m1 else m1)"

lemma registry_clear: "w_registry (clear_registry_flags mig w) = cleared mig (w_registry w)"
  by (simp add: clear_registry_flags_def cleared_def on_registry_def Let_def)

definition source_armed :: "mig_clock \<Rightarrow> migration \<Rightarrow> registry \<Rightarrow> registry" where
  "source_armed ck mig m =
     set_node (mst_source_pod (mg_status mig)) (ms_source_node (mg_spec mig))
       (arm (ck_arm ck) (mst_source_pod (mg_status mig)) (arm_info_of mig) m)"

lemma registry_arm: "w_registry (arm_source ck mig w) = source_armed ck mig (w_registry w)"
  by (simp add: arm_source_def source_armed_def on_registry_def Let_def)

text \<open>The registries a pass over \<open>mig\<close> can leave, from \<open>m\<close>.\<close>

definition pass_leaves :: "mig_clock \<Rightarrow> migration \<Rightarrow> registry \<Rightarrow> registry \<Rightarrow> bool" where
  "pass_leaves ck mig m m' \<longleftrightarrow>
     m' = m \<or> m' = cleared mig m \<or> m' = ck_agents ck m \<or>
     m' = set_node (mst_destination_pod (mg_status mig)) (ms_target_node (mg_spec mig)) m \<or>
     phase_of mig = Pending \<and> \<not> being_deleted mig \<and> mst_source_pod (mg_status mig) \<noteq> [] \<and>
       (m' = source_armed ck mig m \<or> m' = ck_agents ck (source_armed ck mig m))"

lemma registry_fail: "fail K ck mig msg w = (out, w') \<Longrightarrow> w_registry w' = cleared mig (w_registry w)"
  by (auto simp: fail_def registry_clear dest!: registry_set_phase)

lemma registry_requeue: "requeue_with_message K mig msg w = (out, w') \<Longrightarrow> w_registry w' = w_registry w"
  by (auto simp: requeue_with_message_def split: prod.splits sum.splits if_splits dest: registry_cluster)

lemma registry_choose: "choose_source K mig mw src w = (out, w') \<Longrightarrow> w_registry w' = w_registry w"
  by (auto simp: choose_source_def split: prod.splits sum.splits dest: registry_cluster)

lemma registry_prepare: "prepare_destination K mig mw w = (r, w') \<Longrightarrow> w_registry w' = w_registry w"
  by (auto simp: prepare_destination_def scale_up_def find_destination_def Let_def
      split: prod.splits sum.splits option.splits if_splits dest!: registry_cluster registry_requeue)

lemma registry_delete: "delete_source K mig w = (r, w') \<Longrightarrow> w_registry w' = w_registry w"
  by (auto simp: delete_source_def split: prod.splits sum.splits option.splits if_splits
      dest!: registry_cluster)

lemma registry_advance:
  assumes "delete_source_and_advance K ck mig w = (out, w')"
  shows "w_registry w' = ck_agents ck (w_registry w)"
proof -
  obtain e w1 where d: "delete_source K mig w = (e, w1)" by fastforce
  have "w_registry w' = w_registry (on_registry (ck_agents ck) w1)"
    using assms
    by (auto simp: delete_source_and_advance_def d Let_def split: option.splits if_splits
        dest!: registry_set_phase)
  with registry_delete [OF d] show ?thesis by (simp add: on_registry_def)
qed

lemma registry_initialize:
  "initialize K ck mig w = (out, w') \<Longrightarrow> w_registry w' = w_registry w \<or> w_registry w' = cleared mig (w_registry w)"
  by (auto simp: initialize_def Let_def split: option.splits prod.splits if_splits
      dest: registry_fail registry_set_phase)

lemma registry_resolve:
  "resolve_source K ck mig mw w = (out, w') \<Longrightarrow>
   w_registry w' = w_registry w \<or> w_registry w' = cleared mig (w_registry w)"
  by (auto simp: resolve_source_def Let_def split: prod.splits sum.splits option.splits if_splits
      dest: registry_fail registry_requeue registry_choose)

lemma registry_pending:
  assumes "reconcile_pending K ck mig mw w = (out, w')" and "phase_of mig = Pending" and "\<not> being_deleted mig"
  shows "pass_leaves ck mig (w_registry w) (w_registry w')"
proof (cases "mst_source_pod (mg_status mig) = []")
  case True
  with assms(1) show ?thesis
    by (auto simp: reconcile_pending_def pass_leaves_def dest: registry_resolve)
next
  case False
  obtain e w1 where s: "steer K mig mw w = (e, w1)" by fastforce
  obtain r w2 where p: "prepare_destination K mig mw (arm_source ck mig w1) = (r, w2)" by fastforce
  have w1: "w_registry w1 = w_registry w" using registry_steer [OF s] .
  have w2: "w_registry w2 = source_armed ck mig (w_registry w)"
    using registry_prepare [OF p] by (simp add: registry_arm w1)
  have "w' = w1 \<or> w' = w2 \<or> w_registry w' = w_registry w2 \<or> w_registry w' = ck_agents ck (w_registry w2)"
    using assms(1) False
    by (auto simp: reconcile_pending_def s p leave_pending_def
        split: option.splits sum.splits if_splits dest: registry_set_phase registry_advance)
  with w1 w2 assms(2,3) False show ?thesis by (auto simp: pass_leaves_def)
qed

lemma registry_syncing:
  "reconcile_syncing K ck mig w = (out, w') \<Longrightarrow>
   w_registry w' = w_registry w \<or> w_registry w' = ck_agents ck (w_registry w)"
  by (auto simp: reconcile_syncing_def report_sync_round_def Let_def
      split: prod.splits sum.splits option.splits if_splits
      dest!: registry_cluster registry_advance)

lemma registry_restoring:
  "reconcile_restoring K ck mig mw w = (out, w') \<Longrightarrow>
   w_registry w' = w_registry w \<or> w_registry w' = cleared mig (w_registry w)"
proof -
  have down: "scale_down K mig mw w = (Inr m, w1) \<Longrightarrow>
      w_registry w1 = w_registry w \<and> mst_source_pod (mg_status m) = mst_source_pod (mg_status mig) \<and>
      mst_destination_pod (mg_status m) = mst_destination_pod (mg_status mig)" for m w1
    by (auto simp: scale_down_def on_status_def split: prod.splits option.splits if_splits dest: registry_cluster)
  have err: "scale_down K mig mw w = (Inl e, w1) \<Longrightarrow> w_registry w1 = w_registry w" for e w1
    by (auto simp: scale_down_def split: prod.splits option.splits if_splits dest: registry_cluster)
  show "reconcile_restoring K ck mig mw w = (out, w') \<Longrightarrow> ?thesis"
    by (auto simp: reconcile_restoring_def registry_clear cleared_def
        split: prod.splits sum.splits bool.splits dest!: down err registry_set_phase)
qed

lemma registry_dispatch:
  assumes "dispatch K ck (phase_of mig) mig mw w = (out, w')" and "\<not> being_deleted mig"
  shows "pass_leaves ck mig (w_registry w) (w_registry w')"
proof (cases "phase_of mig")
  case Pending
  with assms show ?thesis by (auto intro: registry_pending)
next
  case Checkpointing
  with assms show ?thesis
    by (auto simp: pass_leaves_def reconcile_checkpointing_def split: option.splits if_splits
        dest: registry_set_phase)
next
  case Transferring
  with assms show ?thesis
    by (auto simp: pass_leaves_def reconcile_transferring_def on_registry_def split: if_splits
        dest!: registry_set_phase)
qed (use assms in \<open>auto simp: pass_leaves_def dest: registry_initialize registry_syncing registry_restoring\<close>)

lemma registry_finalize:
  "finalize K mig w = (out, w') \<Longrightarrow> w_registry w' = w_registry w \<or> w_registry w' = cleared mig (w_registry w)"
  by (auto simp: finalize_def registry_clear Let_def split: prod.splits sum.splits if_splits
      dest!: registry_cluster)

lemma registry_pass:
  assumes "reconcile K ck ns name w = (out, w')"
  shows "w_registry w' = w_registry w \<or>
    (\<exists>mig. k_get_migration K ns name (w_cluster w) = Inr mig \<and>
       pass_leaves ck mig (w_registry w) (w_registry w'))"
proof (cases "k_get_migration K ns name (w_cluster w)")
  case (Inl e)
  with assms show ?thesis by (simp add: reconcile_def)
next
  case (Inr mig)
  have adv: "pass_leaves ck mig (w_registry w) (w_registry w')"
    if "advance K ck mig w = (out, w')" "\<not> being_deleted mig"
    using that
    by (auto simp: advance_def pass_leaves_def split: sum.splits if_splits prod.splits
        dest: registry_fail) (auto dest!: registry_dispatch simp: pass_leaves_def)
  have "pass_leaves ck mig (w_registry w) (w_registry w')"
    using assms Inr adv
    by (auto simp: reconcile_def split: if_splits prod.splits sum.splits
        dest: registry_finalize registry_cluster intro: adv)
      (auto simp: pass_leaves_def dest: registry_finalize registry_cluster)
  with Inr show ?thesis by blast
qed

section \<open>Only passes and restarts arm and disarm\<close>

text \<open>Between the two locks of a handler and during a pass there are only requests of agents.\<close>

fun from_agents :: "'c event \<Rightarrow> bool" where
  "from_agents (Serve ck mid req) \<longleftrightarrow> by_requests mid"
| "from_agents (MigrationPass ck ns name) \<longleftrightarrow> by_requests (ck_agents ck)"
| "from_agents _ \<longleftrightarrow> True"

text \<open>The events that can turn the flag of pod \<open>n\<close> to \<open>b\<close>, in the state they happen in.\<close>

fun may_turn :: "('c, 'l, 's) kube \<Rightarrow> string \<Rightarrow> bool \<Rightarrow> 'c world \<Rightarrow> 'c event \<Rightarrow> bool" where
  "may_turn K n b w (MigrationPass ck ns name) \<longleftrightarrow>
     (case k_get_migration K ns name (w_cluster w) of
        Inl e \<Rightarrow> False
      | Inr mig \<Rightarrow>
          (if b then phase_of mig = Pending \<and> \<not> being_deleted mig \<and> n = mst_source_pod (mg_status mig)
           else n = mst_source_pod (mg_status mig) \<or> n = mst_destination_pod (mg_status mig)))"
| "may_turn K n b w (Restart clock seeder enabled limit) \<longleftrightarrow>
     (b \<longrightarrow> seeder \<and>
        (case k_list_workloads K (w_cluster w) of
           Inl e \<Rightarrow> False
         | Inr mws \<Rightarrow> list_ex (\<lambda>mw. list_ex (\<lambda>p. rp_name p = n \<and> rp_migrating p)
                        (wst_registered_pods (mw_status mw))) mws))"
| "may_turn K n b w _ \<longleftrightarrow> False"

fun is_restart :: "'c event \<Rightarrow> bool" where
  "is_restart (Restart clock seeder enabled limit) \<longleftrightarrow> True"
| "is_restart _ \<longleftrightarrow> False"

lemma armed_cleared:
  "armed n (cleared mig m) =
     (armed n m \<and> (n = [] \<or> n \<noteq> mst_source_pod (mg_status mig) \<and> n \<noteq> mst_destination_pod (mg_status mig)))"
  by (auto simp: armed_def cleared_def get_record_def reg_simps Let_def split: option.splits)

lemma armed_source_armed:
  "armed n (source_armed ck mig m) = (n = mst_source_pod (mg_status mig) \<or> armed n m)"
  by (auto simp: armed_def source_armed_def get_record_def reg_simps split: option.splits)

lemma armed_set_node: "armed n (set_node k node m) = armed n m"
  by (auto simp: armed_def get_record_def reg_simps split: option.splits)

lemma known_after:
  "fmlookup m n \<noteq> None \<Longrightarrow> fmlookup (cleared mig m) n \<noteq> None"
  "fmlookup m n \<noteq> None \<Longrightarrow> fmlookup (source_armed ck mig m) n \<noteq> None"
  "fmlookup m n \<noteq> None \<Longrightarrow> fmlookup (set_node k node m) n \<noteq> None"
  by (auto simp: cleared_def source_armed_def reg_simps Let_def)

lemma pass_leaves_armed:
  assumes "pass_leaves ck mig m m'" and "by_requests (ck_agents ck)" and "armed n m' \<noteq> armed n m"
  shows "if armed n m' then phase_of mig = Pending \<and> \<not> being_deleted mig \<and> n = mst_source_pod (mg_status mig)
         else n = mst_source_pod (mg_status mig) \<or> n = mst_destination_pod (mg_status mig)"
proof -
  have agents: "armed n (ck_agents ck x) = armed n x" for x
    using assms(2) by (auto simp: by_requests_def dest: requests_armed)
  show ?thesis
    using assms(1,3)
    by (auto simp: pass_leaves_def armed_cleared armed_source_armed armed_set_node agents)
qed

lemma pass_leaves_known:
  assumes "pass_leaves ck mig m m'" and "by_requests (ck_agents ck)" and "fmlookup m n \<noteq> None"
  shows "fmlookup m' n \<noteq> None"
proof -
  have agents: "fmlookup x n \<noteq> None \<Longrightarrow> fmlookup (ck_agents ck x) n \<noteq> None" for x
    using assms(2) requests_known by (fastforce simp: by_requests_def)
  show ?thesis using assms(1,3) agents known_after by (auto simp: pass_leaves_def)
qed

lemma mirror_armed:
  "armed n (snd (mirror_loop mw recs m)) = armed n m"
  "fmlookup m n \<noteq> None \<Longrightarrow> fmlookup (snd (mirror_loop mw recs m)) n \<noteq> None"
  by (auto simp: armed_def get_record_def mirror_loop_lookup split: option.splits)

lemma registry_workload_pass:
  "w_registry (snd (reconcile_workload K ns name w)) = w_registry w \<or>
   (\<exists>mw recs. w_registry (snd (reconcile_workload K ns name w)) = snd (mirror_loop mw recs (w_registry w)))"
proof (cases "k_get_workload K ns name (w_cluster w)")
  case (Inr mw)
  obtain pods m where l: "mirror_loop mw (list_records (w_registry w)) (w_registry w) = (pods, m)"
    by fastforce
  then have m: "m = snd (mirror_loop mw (list_records (w_registry w)) (w_registry w))" by simp
  have "w_registry (snd (reconcile_workload K ns name w)) = w_registry w \<or>
      w_registry (snd (reconcile_workload K ns name w)) = m"
    by (auto simp: reconcile_workload_def Inr l Let_def split: option.splits prod.splits sum.splits
        dest!: registry_cluster)
  with m show ?thesis by blast
qed (simp add: reconcile_workload_def)

lemma armed_startup:
  assumes "armed n (w_registry (startup K clock seeder enabled limit (w_cluster w)))"
  shows "may_turn K n True w (Restart clock seeder enabled limit)"
proof -
  have "seeder" using assms by (cases seeder) (simp_all add: startup_def armed_def get_record_def reg_simps)
  with assms obtain mws r where l: "k_list_workloads K (w_cluster w) = Inr mws"
    and r: "find (\<lambda>r. pr_name r = n) (seeded_pods clock mws) = Some r" "pr_migrating r"
    by (auto simp: startup_def armed_def get_record_def reg_simps seed_registry_def Let_def
        split: sum.splits option.splits)
  then have "r \<in> set (seeded_pods clock mws)" and "pr_name r = n" by (auto simp: find_Some_iff)
  then obtain mw p where "mw \<in> set mws" "p \<in> set (wst_registered_pods (mw_status mw))"
    and "rp_name p = n" and "rp_migrating p"
    using r(2) by (auto simp: seeded_pods_def case_prod_unfold) (auto simp: seeded_pod_def)
  with \<open>seeder\<close> l show ?thesis by (auto simp: list_ex_iff)
qed

lemma step_armed:
  assumes "from_agents e" and "armed n (w_registry (coord_step K sv fdiv w e)) \<noteq> armed n (w_registry w)"
  shows "may_turn K n (armed n (w_registry (coord_step K sv fdiv w e))) w e"
proof (cases e)
  case (Serve ck mid req)
  with assms serve_requests [of mid w K sv fdiv ck req] show ?thesis
    by (auto dest: requests_armed)
next
  case (MigrationPass ck ns name)
  obtain out w' where r: "reconcile K ck ns name w = (out, w')" by fastforce
  with assms MigrationPass registry_pass [OF r] obtain mig
    where "k_get_migration K ns name (w_cluster w) = Inr mig"
      and "pass_leaves ck mig (w_registry w) (w_registry w')" by auto
  with pass_leaves_armed [OF this(2), of n] assms MigrationPass r show ?thesis by auto
next
  case (WorkloadPass ns name)
  with assms registry_workload_pass [of K ns name w] show ?thesis by (auto simp: mirror_armed)
next
  case (Restart clock seeder enabled limit)
  with armed_startup [of n K clock seeder enabled limit w] show ?thesis by auto
qed (use assms in simp)

lemma step_known:
  assumes "from_agents e" and "\<not> is_restart e" and "fmlookup (w_registry w) n \<noteq> None"
  shows "fmlookup (w_registry (coord_step K sv fdiv w e)) n \<noteq> None"
proof (cases e)
  case (Serve ck mid req)
  with assms serve_requests [of mid w K sv fdiv ck req] show ?thesis
    using requests_known by fastforce
next
  case (MigrationPass ck ns name)
  obtain out w' where r: "reconcile K ck ns name w = (out, w')" by fastforce
  with assms MigrationPass registry_pass [OF r] pass_leaves_known show ?thesis by fastforce
next
  case (WorkloadPass ns name)
  with assms(3) registry_workload_pass [of K ns name w] mirror_armed(2) show ?thesis
    by (metis coord_step.simps(3))
qed (use assms in simp_all)

text \<open>
  C35: however requests, passes of both reconcilers, restarts and cluster changes follow each
  other: the flag that makes a pod a migration's source changes only in a pass of the migration
  reconciler, and then to armed only for the source pod of the pending migration it reads and to
  disarmed only for the source or destination pod of it, or by a restart, and then to armed only
  for a pod that a workload's status shows as migrating. A record disappears only by a restart. So
  no agent starts or ends a migration by its requests, in whatever order.
\<close>

theorem arming_needs_a_pass:
  assumes "list_all from_agents es"
  shows "(armed n (w_registry (coord_run K sv fdiv w es)) \<noteq> armed n (w_registry w) \<longrightarrow>
      (\<exists>xs e ys. es = xs @ e # ys \<and>
         armed n (w_registry (coord_run K sv fdiv w xs)) = armed n (w_registry w) \<and>
         may_turn K n (armed n (w_registry (coord_run K sv fdiv w es))) (coord_run K sv fdiv w xs) e)) \<and>
    (fmlookup (w_registry w) n \<noteq> None \<longrightarrow> fmlookup (w_registry (coord_run K sv fdiv w es)) n = None \<longrightarrow>
      list_ex is_restart es)"
  using assms
proof (induction es rule: rev_induct)
  case Nil
  then show ?case by (simp add: coord_run_def)
next
  case (snoc e es)
  have run: "coord_run K sv fdiv w (es @ [e]) = coord_step K sv fdiv (coord_run K sv fdiv w es) e"
    by (simp add: coord_run_def)
  have ok: "from_agents e" and oks: "list_all from_agents es" using snoc.prems by simp_all
  note IH = snoc.IH [OF oks]
  show ?case
  proof (intro conjI impI)
    assume turned: "armed n (w_registry (coord_run K sv fdiv w (es @ [e]))) \<noteq> armed n (w_registry w)"
    show "\<exists>xs e' ys. es @ [e] = xs @ e' # ys \<and>
         armed n (w_registry (coord_run K sv fdiv w xs)) = armed n (w_registry w) \<and>
         may_turn K n (armed n (w_registry (coord_run K sv fdiv w (es @ [e])))) (coord_run K sv fdiv w xs) e'"
    proof (cases "armed n (w_registry (coord_run K sv fdiv w es)) = armed n (w_registry w)")
      case True
      with step_armed [OF ok, of n K sv fdiv "coord_run K sv fdiv w es"] turned run show ?thesis
        by (intro exI [of _ es] exI [of _ e] exI [of _ "[]"]) simp
    next
      case False
      with IH obtain xs e' ys where "es = xs @ e' # ys"
        and "armed n (w_registry (coord_run K sv fdiv w xs)) = armed n (w_registry w)"
        and "may_turn K n (armed n (w_registry (coord_run K sv fdiv w es))) (coord_run K sv fdiv w xs) e'" by blast
      with False turned show ?thesis
        by (intro exI [of _ xs] exI [of _ e'] exI [of _ "ys @ [e]"]) simp
    qed
  next
    assume "fmlookup (w_registry w) n \<noteq> None" and "fmlookup (w_registry (coord_run K sv fdiv w (es @ [e]))) n = None"
    with IH step_known [OF ok, of "coord_run K sv fdiv w es" n K sv fdiv] run
    show "list_ex is_restart (es @ [e])" by auto
  qed
qed

end
