(* ===== verification/RestSpec.thy ===== *)
theory RestSpec
  imports ArmingSpec
begin

text \<open>
  What the agents can rely on when they talk to the coordinator: what the answers to \<open>/register\<close>, \<open>/remove\<close> and \<open>/migrate\<close> mean, when a waiting phase ends, and
  which states of the registry give an agent a misleading answer.
\<close>

section \<open>What the answers mean\<close>

text \<open>
  What a registering agent is to be told of its pod: the address the pod registered before, the
  last checkpoint directory set for it, and the order of the migration it is armed for, if any
  (process and volume mechanism, sync rounds).
\<close>

record briefing =
  br_address :: string
  br_dir :: string
  br_order :: "(bool \<times> bool \<times> int) option"

definition order_of :: "arm_info \<Rightarrow> bool \<times> bool \<times> int" where
  "order_of info = (ai_process_migration info, ai_volume_migration info, ai_sync_rounds info)"

definition blank_briefing :: briefing where
  "blank_briefing = \<lparr>br_address = [], br_dir = [], br_order = None\<rparr>"

definition or_dir :: "string \<Rightarrow> briefing \<Rightarrow> briefing" where
  "or_dir d b = (if d = [] then b else b\<lparr>br_dir := d\<rparr>)"

definition briefing_of :: "pod_record \<Rightarrow> briefing" where
  "briefing_of rec =
     \<lparr>br_address = pr_address rec, br_dir = pr_checkpoint_dir rec,
      br_order = (if pr_migrating rec
        then Some (pr_process_migration rec, pr_volume_migration rec, pr_sync_rounds rec) else None)\<rparr>"

text \<open>The briefing of pod \<open>n\<close> follows the registry's calls; \<open>None\<close> is an unknown pod.\<close>

fun briefing_step :: "string \<Rightarrow> briefing option \<Rightarrow> reg_op \<Rightarrow> briefing option" where
  "briefing_step n s (OpRegister now k a p) =
     (if k = n then Some ((case s of None \<Rightarrow> blank_briefing | Some b \<Rightarrow> b)\<lparr>br_address := a\<rparr>) else s)"
| "briefing_step n s (OpArm now k info) =
     (if k = n
      then Some (or_dir (ai_checkpoint_dir info)
             ((case s of None \<Rightarrow> blank_briefing | Some b \<Rightarrow> b)\<lparr>br_order := Some (order_of info)\<rparr>))
      else s)"
| "briefing_step n s (OpCopy k d) = (if k = n then map_option (or_dir d) s else s)"
| "briefing_step n s (OpDisarm k) = (if k = n then map_option (\<lambda>b. b\<lparr>br_order := None\<rparr>) s else s)"
| "briefing_step n s (OpDelete k) = (if k = n then None else s)"
| "briefing_step n s (OpSeed recs) =
     (if s = None then map_option briefing_of (find (\<lambda>rec. pr_name rec = n) recs) else s)"
| "briefing_step n s _ = s"

definition briefing_after :: "string \<Rightarrow> reg_op list \<Rightarrow> briefing option" where
  "briefing_after n ops = foldl (briefing_step n) None ops"

lemma briefing_of_update [simp]:
  "briefing_of (register_update now a p rec) = (briefing_of rec)\<lparr>br_address := a\<rparr>"
  "briefing_of (arm_update info rec) =
     or_dir (ai_checkpoint_dir info) ((briefing_of rec)\<lparr>br_order := Some (order_of info)\<rparr>)"
  "briefing_of (disarm_update rec) = (briefing_of rec)\<lparr>br_order := None\<rparr>"
  "briefing_of (rec\<lparr>pr_restored := b\<rparr>) = briefing_of rec"
  "briefing_of (rec\<lparr>pr_node := node\<rparr>) = briefing_of rec"
  "briefing_of (rec\<lparr>pr_workload_namespace := ns, pr_workload_name := w\<rparr>) = briefing_of rec"
  "briefing_of (rec\<lparr>pr_sync_round := k\<rparr>) = briefing_of rec"
  "briefing_of (rec\<lparr>pr_checkpoint_ready := b\<rparr>) = briefing_of rec"
  "briefing_of (rec\<lparr>pr_checkpoint_ready := b, pr_checkpoint_dir := d\<rparr>) = (briefing_of rec)\<lparr>br_dir := d\<rparr>"
  "briefing_of (zero_pod_record\<lparr>pr_name := n, pr_registered_at := t\<rparr>) = blank_briefing"
  "briefing_of (zero_pod_record\<lparr>pr_name := n, pr_address := a, pr_container_port := p,
     pr_registrations := k, pr_registered_at := t, pr_last_seen := u\<rparr>) = blank_briefing\<lparr>br_address := a\<rparr>"
  by (auto simp: briefing_of_def or_dir_def order_of_def blank_briefing_def zero_pod_record_def)

lemma briefing_reg_step:
  "map_option briefing_of (fmlookup (reg_step m op) n) =
     briefing_step n (map_option briefing_of (fmlookup m n)) op"
proof (cases "fmlookup m n")
  case None
  then show ?thesis by (cases op) (auto simp: reg_simps)
next
  case (Some rec)
  then show ?thesis
    by (cases op) (auto simp: reg_simps or_dir_def Let_def simp del: map_option_eq_Some)
qed

lemma briefing_run: "map_option briefing_of (fmlookup (reg_run ops) n) = briefing_after n ops"
  by (induction ops rule: rev_induct)
     (simp_all add: briefing_after_def reg_simps briefing_reg_step)

lemma reg_run_append: "reg_run (xs @ ys) = foldl reg_step (reg_run xs) ys"
  by (simp add: reg_run_def)

text \<open>The answer to a registration agrees with a briefing.\<close>

definition agrees :: "message \<Rightarrow> briefing option \<Rightarrow> bool" where
  "agrees a b \<longleftrightarrow>
     me_checkpoint_dir a = (case b of None \<Rightarrow> [] | Some x \<Rightarrow> br_dir x) \<and>
     (case (case b of None \<Rightarrow> None | Some x \<Rightarrow> br_order x) of
        Some (process, volume, rounds) \<Rightarrow>
          me_is_mig a \<and> me_process_migration a = process \<and> me_volume_migration a = volume \<and>
          me_sync_rounds a = rounds
      | None \<Rightarrow> \<not> me_is_mig a \<and> me_sync_rounds a = 0)"

lemma agrees_record:
  assumes "reg_inv m" and "rec = get_or_zero n m"
  shows "agrees \<lparr>me_pod_name = nm, me_pod_address = ad, me_container_port = p, me_is_new = b,
      me_is_mig = pr_migrating rec, me_process_migration = pr_process_migration rec,
      me_volume_migration = pr_volume_migration rec, me_checkpoint_dir = pr_checkpoint_dir rec,
      me_sync_rounds = pr_sync_rounds rec\<rparr> (map_option briefing_of (fmlookup m n))"
  using assms reg_invD [OF assms(1), of n]
  by (cases "fmlookup m n")
     (auto simp: agrees_def get_or_zero_def get_record_def briefing_of_def flow_inv_def)

text \<open>
  C19: the answer to a registration on every branch, after any history \<open>ops\<close> of the registry and
  with any other calls \<open>mids\<close> between the two times the handler takes the lock. An unreadable body
  and an empty pod name are refused with 400 and change nothing. Otherwise the registration is
  the next call. A pod unknown until then gets 201, \<open>isNew\<close> and its own address, and is not told
  of a migration; a known one gets 200 with the address it had before and, with their values
  after \<open>mids\<close>, whether a migration of it is armed, the mechanisms and rounds it was armed with
  last, and its checkpoint directory.
\<close>

theorem register_answers:
  assumes "list_all op_ok (ops @ mids)"
  shows "case handle_register now (\<lambda>m. foldl reg_step m mids) req (reg_run ops) of (answer, m') \<Rightarrow>
    (case req of
       None \<Rightarrow> code_of answer = 400 \<and> m' = reg_run ops
     | Some msg \<Rightarrow>
         (let n = me_pod_name msg;
              after = ops @ OpRegister now n (me_pod_address msg) (me_container_port msg) # mids
          in if n = [] then code_of answer = 400 \<and> m' = reg_run ops
             else m' = reg_run after \<and>
               (\<exists>a. body_of answer = BMessage a \<and> me_pod_name a = n \<and>
                 (case briefing_after n ops of
                    None \<Rightarrow> code_of answer = 201 \<and> me_is_new a \<and> \<not> me_is_mig a \<and>
                      me_pod_address a = me_pod_address msg
                  | Some b \<Rightarrow> code_of answer = 200 \<and> \<not> me_is_new a \<and>
                      me_pod_address a = br_address b \<and> me_container_port a = me_container_port msg \<and>
                      agrees a (briefing_after n after)))))"
proof (cases "req = None \<or> me_pod_name (the req) = []")
  case True
  then show ?thesis by (cases req) (auto simp: handle_register_def)
next
  case False
  then obtain msg where req: "req = Some msg" and ne: "me_pod_name msg \<noteq> []" by auto
  let ?n = "me_pod_name msg" and ?a = "me_pod_address msg" and ?p = "me_container_port msg"
  let ?after = "ops @ OpRegister now ?n ?a ?p # mids"
  have m': "foldl reg_step (snd (register now ?n ?a ?p (reg_run ops))) mids = reg_run ?after"
    by (simp add: reg_run_append)
  have inv: "reg_inv (reg_run ?after)" using assms by (intro reg_run_inv) simp
  have before: "briefing_after ?n ops = map_option briefing_of (fmlookup (reg_run ops) ?n)"
    and after: "briefing_after ?n ?after = map_option briefing_of (fmlookup (reg_run ?after) ?n)"
    by (simp_all add: briefing_run)
  show ?thesis
  proof (cases "fmlookup (reg_run ops) ?n")
    case None
    then obtain m1 where r: "register now ?n ?a ?p (reg_run ops) = ((zero_pod_record, True), m1)"
      by (simp add: register_def)
    with ne None m' show ?thesis
      by (simp add: req handle_register_def Let_def before zero_message_def)
  next
    case (Some rec)
    then obtain m1 where r: "register now ?n ?a ?p (reg_run ops) = ((rec, False), m1)"
      by (simp add: register_def)
    with ne Some m' agrees_record [OF inv refl, of ?n] show ?thesis
      by (simp add: req handle_register_def Let_def before after briefing_of_def)
  qed
qed

text \<open>
  C12: when \<open>/remove\<close> hands a source agent an endpoint to stream to, the pod is armed and the
  endpoint is the host and port of the last registration under its name, made after the pod was
  armed, with no deregistration, disarming or other registration since.
\<close>

theorem remove_answers_destination:
  assumes "list_all op_ok ops" and "list_all no_seeded_dest ops"
    and "handle_remove (Some n) (reg_run ops) = Response 200 (BRemove r)"
    and "rr_dest_address r \<noteq> []"
  shows "rr_needs_checkpoint r \<and>
         (\<exists>xs now a p ys. ops = xs @ OpRegister now n a p # ys \<and> armed_after n xs \<and>
            rr_dest_address r = join_host_port a p \<and> \<not> list_ex (touches_dest n) ys)"
proof -
  from assms(3) obtain rec where rec: "fmlookup (reg_run ops) n = Some rec"
    by (auto simp: handle_remove_def get_record_def not_registered_def split: option.splits)
  with assms(3) have r: "rr_needs_checkpoint r = pr_migrating rec"
    "rr_dest_address r = (if pr_migrating rec then pr_dest_address rec else [])"
    by (auto simp: handle_remove_def get_record_def)
  with assms(4) have "pr_migrating rec" and "pr_dest_address rec \<noteq> []"
    by (auto split: if_splits)
  with dest_address_origin [OF assms(1,2) rec] r show ?thesis by simp
qed

section \<open>Starting a migration\<close>

text \<open>The writes of \<open>/migrate\<close>.\<close>

definition migrate_writes ::
    "('c, 'l, 's) kube \<Rightarrow> server \<Rightarrow> migrate_request option \<Rightarrow> 'c \<Rightarrow> 'l kwrite list" where
  "migrate_writes K sv req c =
     snd (snd (handle_migrate (spied K) sv req (c, []) :: nat response \<times> 'c \<times> 'l kwrite list))"

lemma detected_kind_spied [simp]: "detected_kind (spied K) ns name s = detected_kind K ns name (fst s)"
  unfolding detected_kind_def spied_reads ..

text \<open>
  C36: a request for a migration that is refused for missing fields writes nothing; one that is
  answered with success has, as its last write, created one Migration in the requested (or the
  default) namespace with the workload and nodes of the request, the new field names taking
  precedence over the legacy ones, preceded at most by the creation of the workload object.
\<close>

theorem migrate_creates_one:
  assumes "handle_migrate (spied K) sv (Some r) (c, []) = (Response code b :: nat response, s)"
  shows "(code = 400 \<longrightarrow> snd s = []) \<and>
    (code = 200 \<longrightarrow>
      (\<exists>pre. snd s = pre @ [WCreateMigration
         (new_migration (or_else (mr_namespace r) (sv_default_namespace sv))
            (or_else (mr_workload r) (mr_deployment r)) (mr_pod_name r)
            (or_else (mr_source_node r) (mr_origin_node r))
            (or_else (mr_target_node r) (mr_dest_node r))) True] \<and>
         (pre = [] \<or> (\<exists>mw ok. pre = [WCreateWorkload mw ok] \<and>
            mw_name mw = or_else (mr_workload r) (mr_deployment r)))))"
proof -
  let ?wl = "or_else (mr_workload r) (mr_deployment r)"
  let ?ns = "or_else (mr_namespace r) (sv_default_namespace sv)"
  show ?thesis
  proof (cases "?wl = [] \<or> or_else (mr_source_node r) (mr_origin_node r) = [] \<or>
      or_else (mr_target_node r) (mr_dest_node r) = []")
    case True
    with assms show ?thesis by (auto simp: handle_migrate_def Let_def)
  next
    case False
    obtain e s1 where en: "ensure_migratable_workload (spied K) ?ns ?wl (mr_label r) (c, []) = (e, s1)"
      using prod.exhaust by blast
    have pre: "snd s1 = [] \<or> (\<exists>mw ok. snd s1 = [WCreateWorkload mw ok] \<and> mw_name mw = ?wl)"
      using en
      by (auto simp: ensure_migratable_workload_def Let_def spied_workload_writes legacy_workload_def
          split: sum.splits if_splits prod.splits)
    have "code \<noteq> 400" and "code = 200 \<longrightarrow> snd s = snd s1 @ [WCreateMigration
         (new_migration ?ns ?wl (mr_pod_name r) (or_else (mr_source_node r) (mr_origin_node r))
            (or_else (mr_target_node r) (mr_dest_node r))) True]"
      using assms False en
      by (auto simp: handle_migrate_def Let_def good_sum_def spied_migration_writes
          split: sum.splits prod.splits if_splits)
    with pre show ?thesis by blast
  qed
qed

section \<open>When a waiting phase ends\<close>

text \<open>What a pass in a waiting phase looks for, and the phase it leads to.\<close>

definition awaited :: "migration \<Rightarrow> workload \<Rightarrow> registry \<Rightarrow> bool" where
  "awaited mig mw m \<longleftrightarrow>
     (if phase_of mig = Checkpointing
      then (\<exists>rec. get_record (mst_source_pod (mg_status mig)) m = Some rec \<and> pr_checkpoint_ready rec)
      else if wr_kind (ws_workload_ref (mw_spec mw)) = workload_kind_stateful_set
      then (\<exists>rec. get_record (mst_source_pod (mg_status mig)) m = Some rec \<and> pr_dest_registered rec)
      else (\<exists>rec. get_record (mst_destination_pod (mg_status mig)) m = Some rec))"

lemma awaited_transferring:
  "phase_of mig = Transferring \<Longrightarrow> awaited mig mw m = destination_up mig mw m"
  by (auto simp: awaited_def destination_up_def split: option.splits)

lemma awaited_checkpointing:
  "phase_of mig = Checkpointing \<Longrightarrow> awaited mig mw m =
     (case get_record (mst_source_pod (mg_status mig)) m of
        None \<Rightarrow> False | Some rec \<Rightarrow> pr_checkpoint_ready rec)"
  by (auto simp: awaited_def split: option.splits)

definition awaited_phase :: "migration \<Rightarrow> phase" where
  "awaited_phase mig = (if phase_of mig = Checkpointing then Transferring else Restoring)"

text \<open>A pass in a waiting phase.\<close>

lemma waiting_pass:
  assumes "k_get_migration K ns name (w_cluster w) = Inr mig"
    and "k_get_workload K (mg_namespace mig) (ms_workload_name (mg_spec mig)) (w_cluster w) = Inr mw"
    and "\<not> being_deleted mig" and "migration_finalizer \<in> set (mg_finalizers mig)"
    and "phase_of mig = Checkpointing \<or> phase_of mig = Transferring" and "\<not> phase_expired ck mig"
  shows "if awaited mig mw (w_registry w)
    then \<exists>m b. pass_writes K ck ns name w = [WStatus m b] \<and> phase_of m = awaited_phase mig
    else pass_writes K ck ns name w = [] \<and>
         reconcile K ck ns name w = (requeue_after requeue_interval, w)"
proof -
  have nt: "\<not> is_terminal (mg_status mig)" using assms(5) by (auto simp: is_terminal_def)
  obtain out w' where d: "dispatch (spied K) ck (phase_of mig) mig mw (watched w) = (out, w')"
    by (rule prod.exhaust)
  have run: "pass_writes K ck ns name w = wlog w'"
    using assms nt d by (simp add: pass_writes_def reconcile_def advance_def)
  have run': "reconcile K ck ns name w = (soften_conflict out, unwatched w')"
    using same_dispatch [of K ck "phase_of mig" mig mw "watched w"] assms nt d
    by (simp add: reconcile_def advance_def)
  show ?thesis
  proof (cases "awaited mig mw (w_registry w)")
    case True
    then obtain msg w0 where s: "set_phase (spied K) ck mig (awaited_phase mig) msg w0 = (out, w')"
      and "wlog w0 = []"
      using d assms(5)
      by (auto simp: awaited_checkpointing awaited_transferring awaited_phase_def
          reconcile_checkpointing_def reconcile_transferring_def)
    with log_set_phase [OF s] True show ?thesis by (auto simp: run)
  next
    case False
    then have "out = requeue_after requeue_interval \<and> w' = watched w"
      using d assms(5)
      by (auto simp: awaited_checkpointing awaited_transferring reconcile_checkpointing_def
          reconcile_transferring_def
          split: option.splits if_splits)
    with False show ?thesis
      by (simp add: run run' soften_conflict_def requeue_after_def)
  qed
qed

text \<open>
  C21: while a migration is checkpointing or transferring, a pass that finds it within its time
  moves it on exactly when the agent's report is in the registry (the source's checkpoint; the
  destination's registration), and otherwise writes nothing and comes back in three seconds.
\<close>

theorem waits_exactly_for_the_agent:
  assumes "k_get_migration K ns name (w_cluster w) = Inr mig"
    and "k_get_workload K (mg_namespace mig) (ms_workload_name (mg_spec mig)) (w_cluster w) = Inr mw"
    and "\<not> being_deleted mig" and "migration_finalizer \<in> set (mg_finalizers mig)"
    and "phase_of mig = Checkpointing \<or> phase_of mig = Transferring" and "\<not> phase_expired ck mig"
  shows "if awaited mig mw (w_registry w)
    then \<exists>m b. pass_writes K ck ns name w = [WStatus m b] \<and> phase_of m = awaited_phase mig
    else pass_writes K ck ns name w = [] \<and>
         reconcile K ck ns name w = (requeue_after requeue_interval, w)"
  by (rule waiting_pass [OF assms])

section \<open>Misleading states\<close>

text \<open>
  A \<open>/copy\<close> that arrives after its migration was disarmed survives into the next one: the
  pod is armed with the checkpoint already reported, so the next migration of it does not wait
  for its own checkpoint.
\<close>

lemma late_copy_survives_into_next_migration:
  assumes "get_record n m = Some rec"
  shows "\<exists>r. get_record n (arm now n info (snd (handle_copy (Some (n, d)) (disarm n m) :: nat response \<times> registry))) = Some r \<and>
           pr_migrating r \<and> pr_checkpoint_ready r"
  using assms
  by (simp add: handle_copy_def get_record_def mark_checkpoint_ready_def reg_simps Let_def)

text \<open>
  When a migration is armed before the source agent has registered, the first registration of
  that agent is taken for the destination: it is told that it is not new and is a migration
  target, and its own endpoint is recorded as the destination's.
\<close>

lemma armed_before_registration_misled:
  assumes "get_record (me_pod_name msg) m = None" and "me_pod_name msg \<noteq> []"
  shows "case handle_register now' id (Some msg) (arm now (me_pod_name msg) info m) of (answer, m') \<Rightarrow>
    code_of answer = 200 \<and>
    (\<exists>a. body_of answer = BMessage a \<and> \<not> me_is_new a \<and> me_is_mig a) \<and>
    pr_dest_registered (get_or_zero (me_pod_name msg) m') \<and>
    pr_dest_address (get_or_zero (me_pod_name msg) m') =
      join_host_port (me_pod_address msg) (me_container_port msg)"
  using assms
  by (simp add: handle_register_def register_def arm_def get_or_zero_def get_record_def Let_def)

text \<open>
  After a restart of the coordinator in the middle of a migration, \<open>/remove\<close> still tells the
  source agent that a checkpoint is needed, but with both mechanisms off and no destination.
\<close>

lemma restart_forgets_mechanisms:
  assumes inv: "reg_inv m" and mirror: "list_all (mirror_of m) mws"
    and list: "k_list_workloads K c = Inr mws"
    and rec: "fmlookup m n = Some rec" "pr_migrating rec" "mw \<in> set mws" "mirrors mw rec"
  shows "handle_remove (Some n) (w_registry (startup K clock True enabled limit c)) =
         Response 200 (BRemove \<lparr>rr_needs_checkpoint = True, rr_process_migration = False,
           rr_volume_migration = False, rr_dest_address = []\<rparr>)"
proof -
  let ?m = "seed_records (seeded_pods clock mws) new_registry"
  have look: "fmlookup ?m n = find (\<lambda>r. pr_name r = n) (seeded_pods clock mws)"
    by (simp add: reg_simps)
  have "fmlookup ?m n \<noteq> None"
    using seeded_pods_complete [OF inv mirror rec(1,3,4)] by (simp add: look)
  then obtain r where r: "fmlookup ?m n = Some r" by blast
  then have "r \<in> set (seeded_pods clock mws)" and n: "pr_name r = n"
    by (auto simp: look find_Some_iff)
  from seeded_pods_find [OF inv mirror this(1)] n rec(1)
  have "recovered rec r" and "forgotten r" by fastforce+
  then show ?thesis
    using r rec(2)
    by (simp add: handle_remove_def startup_def seed_registry_def list get_record_def recovered_def
        forgotten_def Let_def)
qed

end
