(* ===== verification/MigrationVersions.thy ===== *)
theory MigrationVersions
  imports MigrationSafety
begin

text \<open>
  Many passes against an API server with optimistic concurrency. A pass may read a stale copy of
  the Migration from the client's cache, and between two passes anything else may happen; since
  the server takes a status only for the version it stores, the stored phase still moves along
  the edges of the lifecycle only.
\<close>

section \<open>What is assumed of the API server\<close>

text \<open>
  \<open>stored\<close> is the version of one Migration that a cluster state holds. Resource versions grow, a
  read shows the stored version or an older one, a status update is accepted only for the stored
  version and then the stored phase is the one sent (an error leaves open whether it was
  applied), and no other write changes the phase.
\<close>

abbreviation rv :: "migration \<Rightarrow> nat" where
  "rv m \<equiv> mg_resource_version m"

definition quiet :: "('c \<Rightarrow> migration) \<Rightarrow> 'c \<Rightarrow> 'c \<Rightarrow> bool" where
  "quiet stored c c' \<longleftrightarrow> rv (stored c) \<le> rv (stored c') \<and> phase_of (stored c') = phase_of (stored c)"

definition accepted :: "('c \<Rightarrow> migration) \<Rightarrow> migration \<Rightarrow> 'c \<Rightarrow> 'c \<Rightarrow> bool" where
  "accepted stored m c c' \<longleftrightarrow>
     rv m = rv (stored c) \<and> rv (stored c) \<le> rv (stored c') \<and> phase_of (stored c') = phase_of m \<and>
     (rv (stored c') = rv (stored c) \<longrightarrow> phase_of m = phase_of (stored c))"

text \<open>A copy of some version: it is outdated, or it shows the stored phase.\<close>

definition copy_of :: "('c \<Rightarrow> migration) \<Rightarrow> 'c \<Rightarrow> migration \<Rightarrow> bool" where
  "copy_of stored c m \<longleftrightarrow>
     rv m \<le> rv (stored c) \<and> (rv m = rv (stored c) \<longrightarrow> phase_of m = phase_of (stored c))"

definition optimistic_api ::
    "('c, 'l, 's) kube \<Rightarrow> string \<Rightarrow> string \<Rightarrow> ('c \<Rightarrow> migration) \<Rightarrow> bool" where
  "optimistic_api K ns name stored \<longleftrightarrow>
     (\<forall>c m. k_get_migration K ns name c = Inr m \<longrightarrow> copy_of stored c m) \<and>
     (\<forall>m c m' c'. k_update_status K m c = (Inr m', c') \<longrightarrow>
        accepted stored m c c' \<and> rv m' = rv (stored c') \<and> phase_of m' = phase_of m) \<and>
     (\<forall>m c e c'. k_update_status K m c = (Inl e, c') \<longrightarrow>
        quiet stored c c' \<or> accepted stored m c c') \<and>
     (\<forall>m c. quiet stored c (snd (k_update_migration K m c))) \<and>
     (\<forall>n n' c. quiet stored c (snd (k_patch_node K n n' c))) \<and>
     (\<forall>p c. quiet stored c (snd (k_delete_pod K p c))) \<and>
     (\<forall>x y d d' c. quiet stored c (snd (k_patch_deployment K x y d d' c)))"

section \<open>Steps that keep the phase\<close>

lemma quiet_refl [simp, intro]: "quiet stored c c"
  by (simp add: quiet_def)

lemma quiet_trans: "quiet stored a b \<Longrightarrow> quiet stored b c \<Longrightarrow> quiet stored a c"
  by (auto simp: quiet_def)

lemma copy_of_quiet: "copy_of stored c m \<Longrightarrow> quiet stored c c' \<Longrightarrow> copy_of stored c' m"
  by (auto simp: copy_of_def quiet_def)

definition calm :: "('c \<Rightarrow> migration) \<Rightarrow> 'c world \<Rightarrow> 'c world \<Rightarrow> bool" where
  "calm stored w w' \<longleftrightarrow> quiet stored (w_cluster w) (w_cluster w')"

abbreviation in_hand :: "('c \<Rightarrow> migration) \<Rightarrow> 'c world \<Rightarrow> migration \<Rightarrow> bool" where
  "in_hand stored w m \<equiv> copy_of stored (w_cluster w) m"

lemma calm_refl [simp, intro]: "calm stored w w"
  by (simp add: calm_def)

lemma calm_trans: "calm stored u v \<Longrightarrow> calm stored v w \<Longrightarrow> calm stored u w"
  unfolding calm_def by (rule quiet_trans)

lemma in_hand_calm: "in_hand stored w m \<Longrightarrow> calm stored w w' \<Longrightarrow> in_hand stored w' m"
  unfolding calm_def by (rule copy_of_quiet)

lemma cluster_unchanged [simp]:
  "w_cluster (on_registry f w) = w_cluster w"
  "w_cluster (record_history ck m at w) = w_cluster w"
  "w_cluster (clear_registry_flags m w) = w_cluster w"
  "w_cluster (arm_source ck m w) = w_cluster w"
  by (simp_all add: on_registry_def record_history_def clear_registry_flags_def arm_source_def Let_def)

lemma copy_of_on_status [simp]:
  "mst_phase (f (mg_status m)) = mst_phase (mg_status m) \<Longrightarrow> copy_of stored c (on_status f m) = copy_of stored c m"
  by (simp add: copy_of_def on_status_def)

lemma cluster_on_cluster: "on_cluster f w = (r, w') \<Longrightarrow> f (w_cluster w) = (r, w_cluster w')"
  by (auto simp: on_cluster_def split: prod.splits)

lemma calm_objects:
  assumes "optimistic_api K ns name stored"
  shows "on_cluster (k_update_migration K m) w = (r, w') \<Longrightarrow> calm stored w w'"
    and "on_cluster (k_delete_pod K p) w = (e, w') \<Longrightarrow> calm stored w w'"
    and "on_cluster (set_node_label K n key val) w = (e, w') \<Longrightarrow> calm stored w w'"
    and "on_cluster (remove_node_label K n key) w = (e, w') \<Longrightarrow> calm stored w w'"
    and "on_cluster (scale_deployment K x y d) w = (e, w') \<Longrightarrow> calm stored w w'"
  using assms
  by (auto simp: calm_def optimistic_api_def set_node_label_def remove_node_label_def
      scale_deployment_def dest!: cluster_on_cluster split: sum.splits if_splits)
     (metis snd_conv)+

text \<open>A status update of a copy that keeps its phase.\<close>

lemma calm_status:
  assumes "optimistic_api K ns name stored"
    and "on_cluster (k_update_status K m) w = (r, w')" and "in_hand stored w m"
  shows "calm stored w w'" and "in_hand stored w' m"
    and "r = Inr m' \<Longrightarrow> in_hand stored w' m' \<and> phase_of m' = phase_of m"
proof -
  have call: "k_update_status K m (w_cluster w) = (r, w_cluster w')"
    using assms(2) by (rule cluster_on_cluster)
  then have "quiet stored (w_cluster w) (w_cluster w') \<or> accepted stored m (w_cluster w) (w_cluster w')"
    using assms(1) by (cases r) (auto simp: optimistic_api_def)
  with assms(3) show c: "calm stored w w'"
    by (auto simp: calm_def quiet_def accepted_def copy_of_def)
  from assms(3) c show "in_hand stored w' m" by (rule in_hand_calm)
  show "in_hand stored w' m' \<and> phase_of m' = phase_of m" if "r = Inr m'"
    using call assms(1) that by (auto simp: optimistic_api_def copy_of_def accepted_def)
qed

section \<open>Steps along the lifecycle\<close>

definition advances :: "('c \<Rightarrow> migration) \<Rightarrow> 'c \<Rightarrow> 'c \<Rightarrow> bool" where
  "advances stored c c' \<longleftrightarrow>
     rv (stored c) \<le> rv (stored c') \<and> next_phase\<^sup>*\<^sup>* (phase_of (stored c)) (phase_of (stored c'))"

definition goes :: "('c \<Rightarrow> migration) \<Rightarrow> 'c world \<Rightarrow> 'c world \<Rightarrow> bool" where
  "goes stored w w' \<longleftrightarrow> advances stored (w_cluster w) (w_cluster w')"

lemma advances_refl [simp]: "advances stored c c"
  by (simp add: advances_def)

lemma advances_trans: "advances stored a b \<Longrightarrow> advances stored b c \<Longrightarrow> advances stored a c"
  unfolding advances_def by (meson le_trans rtranclp_trans)

lemma calm_goes: "calm stored w w' \<Longrightarrow> goes stored w w'"
  by (auto simp: calm_def goes_def quiet_def advances_def)

lemma goes_refl [simp, intro]: "goes stored w w"
  by (simp add: goes_def)

lemma calm_then_goes: "calm stored u v \<Longrightarrow> goes stored v w \<Longrightarrow> goes stored u w"
  by (meson advances_trans calm_goes goes_def)

lemma goes_cong:
  "goes stored (on_registry f w) w' = goes stored w w'"
  "goes stored (clear_registry_flags m w) w' = goes stored w w'"
  "goes stored (arm_source ck m w) w' = goes stored w w'"
  "goes stored w (record_history ck m at w') = goes stored w w'"
  by (simp_all add: goes_def)

lemma goes_set_phase:
  assumes api: "optimistic_api K ns name stored"
    and run: "set_phase K ck m ph msg w = (out, w')"
    and hand: "in_hand stored w m" and edge: "next_phase (phase_of m) ph"
  shows "goes stored w w'"
proof -
  obtain r w1 where u: "on_cluster (k_update_status K (in_phase ck ph msg m)) w = (r, w1)" by fastforce
  have c: "w_cluster w' = w_cluster w1"
    using run by (auto simp: set_phase_def u split: sum.splits)
  have "quiet stored (w_cluster w) (w_cluster w1) \<or>
      accepted stored (in_phase ck ph msg m) (w_cluster w) (w_cluster w1)"
    using cluster_on_cluster [OF u] api by (cases r) (auto simp: optimistic_api_def)
  then have "advances stored (w_cluster w) (w_cluster w1)"
  proof
    assume "accepted stored (in_phase ck ph msg m) (w_cluster w) (w_cluster w1)"
    then show ?thesis
      using hand edge
      by (auto simp: accepted_def copy_of_def advances_def in_phase_def on_status_def)
  qed (auto simp: quiet_def advances_def)
  then show ?thesis by (simp add: goes_def c)
qed

lemma in_hand_other [simp]:
  "in_hand stored (on_registry f w) m = in_hand stored w m"
  "in_hand stored (clear_registry_flags m' w) m = in_hand stored w m"
  "in_hand stored (arm_source ck m' w) m = in_hand stored w m"
  by simp_all

lemma goes_fail:
  assumes "optimistic_api K ns name stored" and "fail K ck m msg w = (out, w')"
    and "in_hand stored w m" and "\<not> is_terminal (mg_status m)"
  shows "goes stored w w'"
  using goes_set_phase [OF assms(1) assms(2) [unfolded fail_def]] assms(3,4) next_failed [of m]
  by (simp add: with_completion_def goes_cong)

lemma goes_requeue:
  assumes "optimistic_api K ns name stored" and "requeue_with_message K m msg w = (out, w')"
    and "in_hand stored w m"
  shows "calm stored w w'"
  using assms(2,3)
  by (auto simp: requeue_with_message_def split: prod.splits sum.splits if_splits
      dest: calm_status(1) [OF assms(1)])

section \<open>The handlers\<close>

lemma goes_initialize:
  assumes "optimistic_api K ns name stored" and "initialize K ck m w = (out, w')"
    and "in_hand stored w m" and "phase_of m = NoPhase"
  shows "goes stored w w'"
  using assms(2-4)
  by (auto simp: initialize_def Let_def is_terminal_def split: option.splits prod.splits if_splits
      dest: goes_fail [OF assms(1)] goes_set_phase [OF assms(1)])

lemma calm_choose_source:
  assumes "optimistic_api K ns name stored" and "choose_source K m mw src w = (out, w')"
    and "in_hand stored w m"
  shows "calm stored w w'"
  using assms(2,3)
  by (auto simp: choose_source_def source_chosen_def Let_def split: prod.splits sum.splits
      dest!: calm_status(1) [OF assms(1)])

lemma goes_resolve:
  assumes "optimistic_api K ns name stored" and "resolve_source K ck m mw w = (out, w')"
    and "in_hand stored w m" and "phase_of m = Pending"
  shows "goes stored w w'"
  using assms(2-4)
  by (auto simp: resolve_source_def Let_def is_terminal_def
      split: option.splits prod.splits sum.splits if_splits
      dest: goes_fail [OF assms(1)] goes_requeue [OF assms(1)] calm_choose_source [OF assms(1)]
      intro: calm_goes)

lemma calm_steer:
  assumes "optimistic_api K ns name stored" and "steer K m mw w = (e, w')"
  shows "calm stored w w'"
  using assms(2)
  by (auto simp: steer_def split: prod.splits option.splits
      dest!: calm_objects(3,4) [OF assms(1)] intro: calm_trans)

lemma calm_scale_up:
  assumes api: "optimistic_api K ns name stored" and run: "scale_up K m mw w = (out, w')"
    and hand: "in_hand stored w m"
  shows "calm stored w w'"
proof -
  obtain e w1 where s: "on_cluster (scale_deployment K (mw_namespace mw)
      (wr_name (ws_workload_ref (mw_spec mw))) 1) w = (e, w1)" by fastforce
  note c = calm_objects(5) [OF api s]
  have "in_hand stored w1 m" using hand c by (rule in_hand_calm)
  then have "w' = w1 \<or> calm stored w1 w'"
    using run by (auto simp: scale_up_def s split: option.splits prod.splits sum.splits
        dest: calm_status(1) [OF api])
  with c show ?thesis by (blast intro: calm_trans)
qed

lemma calm_find_destination:
  assumes api: "optimistic_api K ns name stored" and run: "find_destination K m mw w = (r, w')"
    and hand: "in_hand stored w m"
  shows "calm stored w w' \<and> (\<forall>m'. r = Inr m' \<longrightarrow> in_hand stored w' m' \<and> phase_of m' = phase_of m)"
  using run hand
  by (auto simp: find_destination_def Let_def split: prod.splits sum.splits option.splits
      dest: calm_status(1) [OF api] goes_requeue [OF api])
     (auto dest: calm_status(3) [OF api _ _ refl])

lemma calm_prepare:
  assumes api: "optimistic_api K ns name stored" and run: "prepare_destination K m mw w = (r, w')"
    and hand: "in_hand stored w m"
  shows "calm stored w w' \<and> (\<forall>m'. r = Inr m' \<longrightarrow> in_hand stored w' m' \<and> phase_of m' = phase_of m)"
  using run hand
  by (auto simp: prepare_destination_def Let_def split: prod.splits if_splits
      dest: calm_scale_up [OF api] calm_find_destination [OF api])

lemma calm_delete_source:
  assumes "optimistic_api K ns name stored" and "delete_source K m w = (e, w')"
  shows "calm stored w w'"
  using assms(2)
  by (auto simp: delete_source_def split: prod.splits sum.splits option.splits if_splits
      dest: calm_objects(2) [OF assms(1)])

lemma goes_advance:
  assumes api: "optimistic_api K ns name stored"
    and run: "delete_source_and_advance K ck m w = (out, w')"
    and hand: "in_hand stored w m" and ph: "phase_of m = Pending \<or> phase_of m = Syncing"
  shows "goes stored w w'"
proof -
  obtain e w1 where d: "delete_source K m w = (e, w1)" by fastforce
  note c = calm_delete_source [OF api d]
  have "in_hand stored w1 m" using hand c by (rule in_hand_calm)
  then have hand': "in_hand stored (on_registry (ck_agents ck) w1) m" by simp
  have "goes stored (on_registry (ck_agents ck) w1) w'"
    using run ph
    by (auto simp: delete_source_and_advance_def d Let_def simp del: goes_cong split: option.splits if_splits
        dest: goes_set_phase [OF api _ hand'])
  then have "goes stored w1 w'" by (simp add: goes_cong)
  with c show ?thesis by (rule calm_then_goes)
qed

lemma goes_leave:
  assumes "optimistic_api K ns name stored" and "leave_pending K ck m w = (out, w')"
    and "in_hand stored w m" and "phase_of m = Pending"
  shows "goes stored w w'"
  using assms(2-4)
  by (auto simp: leave_pending_def split: if_splits
      dest: goes_set_phase [OF assms(1)] goes_advance [OF assms(1)])

lemma goes_pending:
  assumes api: "optimistic_api K ns name stored"
    and run: "reconcile_pending K ck m mw w = (out, w')"
    and hand: "in_hand stored w m" and ph: "phase_of m = Pending"
  shows "goes stored w w'"
proof (cases "mst_source_pod (mg_status m) = []")
  case True
  with assms show ?thesis by (auto simp: reconcile_pending_def dest: goes_resolve)
next
  case False
  obtain e w1 where s: "steer K m mw w = (e, w1)" by fastforce
  obtain r w2 where p: "prepare_destination K m mw (arm_source ck m w1) = (r, w2)" by fastforce
  note c1 = calm_steer [OF api s]
  have "in_hand stored (arm_source ck m w1) m" using in_hand_calm [OF hand c1] by simp
  from calm_prepare [OF api p this]
  have c2: "calm stored w1 w2" and
    r: "\<forall>m'. r = Inr m' \<longrightarrow> in_hand stored w2 m' \<and> phase_of m' = phase_of m"
    by (simp_all add: calm_def)
  have "w' = w1 \<or> w' = w2 \<or> goes stored w2 w'"
    using run False r ph
    by (auto simp: reconcile_pending_def s p dest: goes_leave [OF api] split: option.splits sum.splits)
  with c1 c2 show ?thesis by (blast intro: calm_goes calm_then_goes calm_trans)
qed

lemma goes_syncing:
  assumes api: "optimistic_api K ns name stored"
    and run: "reconcile_syncing K ck m w = (out, w')"
    and hand: "in_hand stored w m" and ph: "phase_of m = Syncing"
  shows "goes stored w w'"
proof (cases "get_record (mst_source_pod (mg_status m)) (w_registry w)")
  case None
  with run show ?thesis by (simp add: reconcile_syncing_def)
next
  case (Some rec)
  let ?m1 = "on_status (\<lambda>s. s\<lparr>mst_sync_round := i32 (pr_sync_round rec)\<rparr>) m"
  obtain r w1 where s: "report_sync_round K m rec w = (r, w1)" by fastforce
  obtain q w0 where q: "on_cluster (k_update_status K ?m1) w = (q, w0)" by fastforce
  have "in_hand stored w ?m1" using hand by simp
  note u = calm_status [OF api q this]
  have "calm stored w w1 \<and> (\<forall>m'. r = Inr m' \<longrightarrow> in_hand stored w1 m' \<and> phase_of m' = phase_of m)"
    using s hand u
    by (auto simp: report_sync_round_def q Let_def split: sum.splits if_splits)
  moreover from this have "w' = w1 \<or> goes stored w1 w'"
    using run ph
    by (auto simp: reconcile_syncing_def Some s split: sum.splits if_splits
        dest: goes_advance [OF api])
  ultimately show ?thesis by (blast intro: calm_goes calm_then_goes)
qed

lemma goes_restoring:
  assumes api: "optimistic_api K ns name stored"
    and run: "reconcile_restoring K ck m mw w = (out, w')"
    and hand: "in_hand stored w m" and ph: "phase_of m = Restoring"
  shows "goes stored w w'"
proof -
  obtain r w1 where s: "scale_down K m mw w = (r, w1)" by fastforce
  have c: "calm stored w w1" and r: "\<forall>m'. r = Inr m' \<longrightarrow> phase_of m' = Restoring \<and> rv m' = rv m"
    using s ph by (auto simp: scale_down_def on_status_def split: prod.splits option.splits if_splits
        dest: calm_objects(5) [OF api])
  have h: "in_hand stored w1 m'" if "r = Inr m'" for m'
    using in_hand_calm [OF hand c] r that ph by (simp add: copy_of_def)
  have "w' = w \<or> w' = w1 \<or> goes stored w1 w'"
    using run r h
    by (auto simp: reconcile_restoring_def s with_completion_def split: sum.splits bool.splits
        dest!: goes_set_phase [OF api] simp: goes_cong)
  with c show ?thesis by (blast intro: calm_goes calm_then_goes)
qed

lemma goes_dispatch:
  assumes api: "optimistic_api K ns name stored"
    and run: "dispatch K ck (phase_of m) m mw w = (out, w')" and hand: "in_hand stored w m"
  shows "goes stored w w'"
  using run hand
  by (cases "phase_of m")
     (auto simp: reconcile_checkpointing_def reconcile_transferring_def goes_cong split: if_splits
       dest: goes_initialize [OF api] goes_pending [OF api] goes_syncing [OF api]
         goes_restoring [OF api] goes_set_phase [OF api])

lemma goes_finalize:
  assumes "optimistic_api K ns name stored" and "finalize K m w = (out, w')"
  shows "goes stored w w'"
  using assms(2)
  by (auto simp: finalize_def Let_def split: prod.splits sum.splits if_splits
      dest!: calm_objects(1) [OF assms(1)] dest: calm_goes simp: goes_cong)

lemma goes_reconcile:
  assumes api: "optimistic_api K ns name stored" and run: "reconcile K ck ns name w = (out, w')"
  shows "goes stored w w'"
proof (cases "k_get_migration K ns name (w_cluster w)")
  case (Inl e)
  with run show ?thesis by (simp add: reconcile_def)
next
  case (Inr m)
  then have "in_hand stored w m" using api by (simp add: optimistic_api_def)
  with Inr run show ?thesis
    by (auto simp: reconcile_def advance_def split: prod.splits sum.splits if_splits
        dest: goes_finalize [OF api] goes_fail [OF api] goes_dispatch [OF api]
          calm_goes [OF calm_objects(1) [OF api]])
qed

section \<open>Any interleaving\<close>

text \<open>
  A history of the system: passes over this migration, and any other step that leaves its stored
  phase alone: users editing the object, the other reconcilers, the agents' requests, a restart
  of the operator that loses the registry.
\<close>

inductive interleaved ::
    "('c, 'l, 's) kube \<Rightarrow> string \<Rightarrow> string \<Rightarrow> ('c \<Rightarrow> migration) \<Rightarrow> 'c world \<Rightarrow> 'c world \<Rightarrow> bool"
  for K ns name stored w0 where
    start: "interleaved K ns name stored w0 w0"
  | pass: "interleaved K ns name stored w0 w \<Longrightarrow>
           interleaved K ns name stored w0 (snd (reconcile K ck ns name w))"
  | other: "interleaved K ns name stored w0 w \<Longrightarrow>
           quiet stored (w_cluster w) (w_cluster w') \<Longrightarrow> interleaved K ns name stored w0 w'"

lemma next_phase_star_le: "next_phase\<^sup>*\<^sup>* p q \<Longrightarrow> p \<le> q"
  by (induction rule: rtranclp_induct) (auto dest: next_phase_less)

lemma next_phase_star_final: "next_phase\<^sup>*\<^sup>* p q \<Longrightarrow> p = Completed \<or> p = Failed \<Longrightarrow> q = p"
  by (induction rule: converse_rtranclp_induct) auto

lemma interleaved_goes:
  assumes "optimistic_api K ns name stored" and "interleaved K ns name stored w0 w"
  shows "goes stored w0 w"
  using assms(2)
proof induction
  case start
  show ?case by simp
next
  case (pass w ck)
  obtain out w' where r: "reconcile K ck ns name w = (out, w')" by fastforce
  from goes_reconcile [OF assms(1) r] pass.IH show ?case
    unfolding goes_def by (simp add: r advances_trans)
next
  case (other w w')
  then have "goes stored w w'" by (simp add: calm_goes calm_def)
  with other.IH show ?case unfolding goes_def by (rule advances_trans)
qed

text \<open>
  C7: with stale reads, failed and half-applied writes, and anything else happening in between,
  the stored phase of a migration only ever follows the lifecycle: it never moves back, and a
  completed or failed migration stays as it is.
\<close>

theorem stored_phase_never_moves_back:
  assumes "optimistic_api K ns name stored" and "interleaved K ns name stored w0 w"
  shows "next_phase\<^sup>*\<^sup>* (phase_of (stored (w_cluster w0))) (phase_of (stored (w_cluster w))) \<and>
         phase_of (stored (w_cluster w0)) \<le> phase_of (stored (w_cluster w)) \<and>
         (phase_of (stored (w_cluster w0)) \<in> {Completed, Failed} \<longrightarrow>
            phase_of (stored (w_cluster w)) = phase_of (stored (w_cluster w0)))"
proof -
  have "next_phase\<^sup>*\<^sup>* (phase_of (stored (w_cluster w0))) (phase_of (stored (w_cluster w)))"
    using interleaved_goes [OF assms] by (simp add: goes_def advances_def)
  then show ?thesis by (auto dest: next_phase_star_le next_phase_star_final)
qed

end
