(* ===== verification/Minikube.thy ===== *)
theory Minikube
  imports RestSpec MigrationVersions
begin

text \<open>
  A concrete API server for one migration, on which the hypotheses about the client are seen to
  hold and runs can be evaluated: a store of one Migration and one MigratableWorkload, a few
  nodes and pods, a StatefulSet and a Deployment. A status update is taken for the stored
  version only, and is refused while \<open>mn_refuse\<close> is positive.
\<close>

section \<open>The server\<close>

record mini =
  mn_migration :: migration
  mn_workload :: workload
  mn_nodes :: "node list"
  mn_pods :: "pod list"
  mn_stateful_set :: "string stateful_set option"
  mn_deployment :: "string deployment option"
  mn_refuse :: nat

definition nope :: go_err where
  "nope = GoErr NotFound ''not found''"

definition mini_update_status :: "migration \<Rightarrow> mini \<Rightarrow> (go_err + migration) \<times> mini" where
  "mini_update_status m c =
     (if 0 < mn_refuse c then (Inl (GoErr Other ''refused''), c\<lparr>mn_refuse := mn_refuse c - 1\<rparr>)
      else if mg_resource_version m \<noteq> mg_resource_version (mn_migration c)
      then (Inl (GoErr Conflict ''conflict''), c)
      else (let m' = (mn_migration c)\<lparr>mg_resource_version := mg_resource_version m + 1,
                       mg_status := mg_status m\<rparr>
            in (Inr m', c\<lparr>mn_migration := m'\<rparr>)))"

definition mini_update_migration :: "migration \<Rightarrow> mini \<Rightarrow> (go_err + migration) \<times> mini" where
  "mini_update_migration m c =
     (if mg_resource_version m \<noteq> mg_resource_version (mn_migration c)
      then (Inl (GoErr Conflict ''conflict''), c)
      else (let m' = (mn_migration c)\<lparr>mg_resource_version := mg_resource_version m + 1,
                       mg_finalizers := mg_finalizers m\<rparr>
            in (Inr m', c\<lparr>mn_migration := m'\<rparr>)))"

definition found :: "'a option \<Rightarrow> go_err + 'a" where
  "found x = (case x of None \<Rightarrow> Inl nope | Some y \<Rightarrow> Inr y)"

definition mini_kube :: "(mini, string, string) kube" where
  "mini_kube =
     \<lparr>k_get_migration = (\<lambda>ns n c.
        if mg_namespace (mn_migration c) = ns \<and> mg_name (mn_migration c) = n
        then Inr (mn_migration c) else Inl nope),
      k_list_migrations = (\<lambda>c. Inr [mn_migration c]),
      k_create_migration = (\<lambda>m c.
        (let m' = m\<lparr>mg_name := mg_generate_name m @ ''1'', mg_resource_version := 1\<rparr>
         in (Inr m', c\<lparr>mn_migration := m'\<rparr>))),
      k_update_migration = mini_update_migration,
      k_update_status = mini_update_status,
      k_get_workload = (\<lambda>ns n c.
        if mw_namespace (mn_workload c) = ns \<and> mw_name (mn_workload c) = n
        then Inr (mn_workload c) else Inl nope),
      k_list_workloads = (\<lambda>c. Inr [mn_workload c]),
      k_create_workload = (\<lambda>mw c. (Inl (GoErr AlreadyExists ''exists''), c)),
      k_update_workload_status = (\<lambda>mw c. (Inr mw, c\<lparr>mn_workload := mw\<rparr>)),
      k_get_node = (\<lambda>n c. found (find (\<lambda>nd. nd_name nd = n) (mn_nodes c))),
      k_list_nodes = (\<lambda>c. Inr (mn_nodes c)),
      k_patch_node = (\<lambda>o1 o2 c.
        (None, c\<lparr>mn_nodes := map (\<lambda>nd. if nd_name nd = nd_name o1 then o2 else nd) (mn_nodes c)\<rparr>)),
      k_get_pod = (\<lambda>ns n c. found (find (\<lambda>p. pd_namespace p = ns \<and> pd_name p = n) (mn_pods c))),
      k_delete_pod = (\<lambda>p c. (None, c\<lparr>mn_pods := filter (\<lambda>q. pd_name q \<noteq> pd_name p) (mn_pods c)\<rparr>)),
      k_list_pods = (\<lambda>ns sel c. Inr (filter (\<lambda>p. pd_namespace p = ns) (mn_pods c))),
      k_get_stateful_set = (\<lambda>ns n c. found (mn_stateful_set c)),
      k_get_deployment = (\<lambda>ns n c. found (mn_deployment c)),
      k_patch_deployment = (\<lambda>ns n d1 d2 c. (None, c\<lparr>mn_deployment := Some d2\<rparr>)),
      k_as_selector = (\<lambda>l. Inr l)\<rparr>"

text \<open>The hypotheses on the API server hold of it.\<close>

lemma mini_optimistic: "optimistic_api mini_kube ns n mn_migration"
  by (simp add: optimistic_api_def mini_kube_def mini_update_status_def mini_update_migration_def
      copy_of_def accepted_def quiet_def Let_def)

section \<open>A scenario\<close>

definition web_node :: "string \<Rightarrow> node" where
  "web_node n = \<lparr>nd_name = n, nd_labels = fmempty, nd_unschedulable = False,
                nd_conditions = [(''Ready'', ''True'')]\<rparr>"

definition web_pod :: "string \<Rightarrow> string \<Rightarrow> bool \<Rightarrow> pod" where
  "web_pod n node ready =
     \<lparr>pd_namespace = ''ns'', pd_name = n, pd_node_name = node, pd_creation = 5, pd_deletion = None,
      pd_conditions = [(''Ready'', if ready then ''True'' else ''False'')]\<rparr>"

definition web_workload :: "string \<Rightarrow> workload" where
  "web_workload kind = legacy_workload ''ns'' ''web'' kind []"

definition web_migration :: migration where
  "web_migration =
     (new_migration ''ns'' ''web'' [] ''a'' ''b'')\<lparr>mg_name := ''web-1'', mg_resource_version := 1\<rparr>"

definition web_cluster :: "string \<Rightarrow> mini" where
  "web_cluster kind =
     \<lparr>mn_migration = web_migration, mn_workload = web_workload kind,
      mn_nodes = [web_node ''a'', web_node ''b''], mn_pods = [web_pod ''web-0'' ''a'' True],
      mn_stateful_set = Some \<lparr>ss_selector = Some ''app=web''\<rparr>,
      mn_deployment = Some \<lparr>dp_selector = Some ''app=web'', dp_replicas = Some 1\<rparr>,
      mn_refuse = 0\<rparr>"

definition web_server :: server where
  "web_server = \<lparr>sv_default_namespace = ''mig-ready'', sv_has_client = True,
                 sv_dashboard_disabled = False\<rparr>"

definition tick :: "instant \<Rightarrow> mig_clock" where
  "tick t = \<lparr>ck_expired = t, ck_start = t, ck_arm = t, ck_done = t, ck_phase = t, ck_record = t,
             ck_downtime = t, ck_agents = id\<rparr>"

definition web_world :: "string \<Rightarrow> mini world" where
  "web_world kind = \<lparr>w_cluster = web_cluster kind, w_registry = new_registry, w_history = None\<rparr>"

definition web_pass :: "instant \<Rightarrow> mini world \<Rightarrow> mini world" where
  "web_pass t w = snd (reconcile mini_kube (tick t) ''ns'' ''web-1'' w)"

definition web_serve :: "instant \<Rightarrow> request \<Rightarrow> mini world \<Rightarrow> mini world" where
  "web_serve t req w =
     snd (serve mini_kube web_server (\<lambda>a b. a :: int)
            \<lparr>rc_now = t, rc_snapshot = t, rc_downtime = (\<lambda>_. t)\<rparr> id req w)"

definition web_message :: "string \<Rightarrow> string \<Rightarrow> message" where
  "web_message n a = zero_message\<lparr>me_pod_name := n, me_pod_address := a\<rparr>"

definition run_all :: "('w \<Rightarrow> 'w) list \<Rightarrow> 'w \<Rightarrow> 'w" where
  "run_all steps w = foldl (\<lambda>w f. f w) w steps"

definition web_phase :: "mini world \<Rightarrow> phase" where
  "web_phase w = phase_of (mn_migration (w_cluster w))"

text \<open>The migration of the scenario in a later phase.\<close>

definition web_at :: "phase \<Rightarrow> (migration_status \<Rightarrow> migration_status) \<Rightarrow> string \<Rightarrow> mini world" where
  "web_at phase f kind =
     (let w = web_world kind;
          m = web_migration\<lparr>mg_finalizers := [migration_finalizer],
                mg_status := f (zero_migration_status\<lparr>mst_phase := phase,
                  mst_source_pod := ''web-0'', mst_destination_pod := ''web-0'',
                  mst_process_migration := True, mst_last_transition_time := Some 1\<rparr>)\<rparr>
      in w\<lparr>w_cluster := (w_cluster w)\<lparr>mn_migration := m\<rparr>\<rparr>)"

section \<open>Complete runs\<close>

text \<open>
  The source agent of a StatefulSet registers, the migration is prepared, the source reports its
  checkpoint, the destination registers under the same name and reports the restore.
\<close>

definition stateful_run :: "(mini world \<Rightarrow> mini world) list" where
  "stateful_run =
     [web_serve 1 (Register (Some (web_message ''web-0'' ''10.0.0.1''))),
      web_pass 1, web_pass 2, web_pass 3, web_pass 4,
      web_serve 5 (Copy (Some (''web-0'', ''/c''))), web_pass 5,
      web_serve 6 (Register (Some (web_message ''web-0'' ''10.0.0.2''))), web_pass 6,
      web_serve 7 (Restored (Some ''web-0'')), web_pass 7]"

text \<open>For a Deployment a second pod appears on the target once it is scaled up.\<close>

definition second_pod :: "mini world \<Rightarrow> mini world" where
  "second_pod w =
     w\<lparr>w_cluster := (w_cluster w)\<lparr>mn_pods := mn_pods (w_cluster w) @ [web_pod ''web-1'' ''b'' False]\<rparr>\<rparr>"

definition deployment_run :: "(mini world \<Rightarrow> mini world) list" where
  "deployment_run =
     [web_serve 1 (Register (Some (web_message ''web-0'' ''10.0.0.1''))),
      web_pass 1, web_pass 2, web_pass 3, web_pass 4, second_pod, web_pass 5,
      web_serve 5 (Copy (Some (''web-0'', ''/c''))), web_pass 6,
      web_serve 6 (Register (Some (web_message ''web-1'' ''10.0.0.2''))), web_pass 7,
      web_serve 7 (Restored (Some ''web-1'')), web_pass 8]"

text \<open>
  Two complete runs: with the agents doing their part and the API server answering, seven passes
  complete the migration of a StatefulSet and eight that of a Deployment; then no pod is armed, the
  source pod is gone and the Deployment has its replicas back.
\<close>

lemma healthy_runs_complete:
  "(let w = run_all stateful_run (web_world workload_kind_stateful_set)
    in web_phase w = Completed \<and> \<not> armed ''web-0'' (w_registry w) \<and> mn_pods (w_cluster w) = []) \<and>
   (let w = run_all deployment_run (web_world workload_kind_deployment)
    in web_phase w = Completed \<and> \<not> armed ''web-0'' (w_registry w) \<and> \<not> armed ''web-1'' (w_registry w) \<and>
       map pd_name (mn_pods (w_cluster w)) = [''web-1''] \<and>
       map_option dp_replicas (mn_deployment (w_cluster w)) = Some (Some 1))"
  by code_simp

definition refuse_one :: "mini world \<Rightarrow> mini world" where
  "refuse_one w = w\<lparr>w_cluster := (w_cluster w)\<lparr>mn_refuse := 1\<rparr>\<rparr>"

text \<open>
  The scale-up of a Deployment is repeated when the status that records it cannot be written:
  one refused status update leaves three replicas where two were asked for, and a migration that
  fails then keeps them.
\<close>

lemma scale_up_repeats_after_refused_status:
  "(let w = run_all [web_pass 1, web_pass 2, web_pass 3, refuse_one, web_pass 4, web_pass 5]
              (web_world workload_kind_deployment);
        w' = web_pass 2000000000000 w
    in map_option dp_replicas (mn_deployment (w_cluster w)) = Some (Some 3) \<and>
       web_phase w' = Failed \<and>
       map_option dp_replicas (mn_deployment (w_cluster w')) = Some (Some 3))"
  by code_simp

text \<open>
  So is the scale-down at the end: the flag is cleared in the object in hand and stored only with
  the completed status. One refused update of it takes a second replica away, here the last one, so
  that the migrated pod itself is removed; the migration counts as completed.
\<close>

definition ready_pod :: "mini world \<Rightarrow> mini world" where
  "ready_pod w =
     w\<lparr>w_cluster := (w_cluster w)\<lparr>mn_pods := map (\<lambda>p. web_pod (pd_name p) (pd_node_name p) True) (mn_pods (w_cluster w))\<rparr>\<rparr>"

lemma scale_down_repeats_after_refused_status:
  "(let w = run_all (butlast deployment_run @ [ready_pod, refuse_one, web_pass 8]) (web_world workload_kind_deployment);
        w' = web_pass 9 w
    in map_option dp_replicas (mn_deployment (w_cluster w)) = Some (Some 1) \<and> web_phase w = Restoring \<and>
       map_option dp_replicas (mn_deployment (w_cluster w')) = Some (Some 0) \<and> web_phase w' = Completed)"
  by code_simp

end
