(* ===== verification/Frames.thy ===== *)
theory Frames
  imports Prelude GoStrings Interfaces "HOL-Library.Word"
begin

text \<open>
  The frames of the transfer protocol between two Execution Agents
  (\<open>go-agent/utils/transfer.go\<close>): the 48-byte header with its big-endian fields, its encoder and
  decoder, and the ways reading one can fail. The decoder and encoder interpret the codec
  interface, so a header determines its bytes and where they end.
\<close>

section \<open>Bytes\<close>

type_synonym byte = "8 word"

definition byte_of :: "char \<Rightarrow> byte" where
  "byte_of c = word_of_nat (of_char c)"

definition char_of_byte :: "byte \<Rightarrow> char" where
  "char_of_byte b = char_of (unat b)"

lemma char_of_byte_of [simp]: "char_of_byte (byte_of c) = c"
  by (simp add: char_of_byte_def byte_of_def unat_of_nat)

text \<open>\<open>binary.BigEndian.PutUint32\<close> and \<open>Uint32\<close>.\<close>

definition be32 :: "32 word \<Rightarrow> byte list" where
  "be32 x = [ucast (drop_bit 24 x), ucast (drop_bit 16 x), ucast (drop_bit 8 x), ucast x]"

definition of_be32 :: "byte list \<Rightarrow> 32 word" where
  "of_be32 bs =
     word_of_nat (unat (bs ! 0) * 2 ^ 24 + unat (bs ! 1) * 2 ^ 16 + unat (bs ! 2) * 2 ^ 8 + unat (bs ! 3))"

lemma length_be32 [simp]: "length (be32 x) = 4"
  by (simp add: be32_def)

lemma base256: "n mod 4294967296 =
    n div 16777216 mod 256 * 16777216 + n div 65536 mod 256 * 65536 + n div 256 mod 256 * 256 + n mod (256 :: nat)"
proof -
  have "n mod (256 * 256) = 256 * (n div 256 mod 256) + n mod 256" by (rule mod_mult2_eq)
  moreover have "n mod (65536 * 256) = 65536 * (n div 65536 mod 256) + n mod 65536" by (rule mod_mult2_eq)
  moreover have "n mod (16777216 * 256) = 16777216 * (n div 16777216 mod 256) + n mod 16777216"
    by (rule mod_mult2_eq)
  ultimately show ?thesis by simp
qed

lemma unat_byte: "unat (ucast (drop_bit k x) :: byte) = unat x div 2 ^ k mod 256" for x :: "32 word"
  unfolding unsigned_ucast_eq unat_drop_bit_eq by (simp add: drop_bit_eq_div take_bit_eq_mod)

lemma of_be32_be32 [simp]: "of_be32 (be32 x @ bs) = x"
proof -
  have u0: "unat (ucast x :: byte) = unat x mod 256" using unat_byte [of 0 x] by simp
  have "unat x mod 4294967296 = unat x" using unsigned_less [of x, where ?'a = nat] by simp
  with base256 [of "unat x"] have sum: "unat x div 2 ^ 24 mod 256 * 2 ^ 24 + unat x div 2 ^ 16 mod 256 * 2 ^ 16 +
      unat x div 2 ^ 8 mod 256 * 2 ^ 8 + unat x mod 256 = unat x"
    by simp
  have "of_be32 (be32 x @ bs) = word_of_nat (unat (ucast (drop_bit 24 x) :: byte) * 2 ^ 24 +
      unat (ucast (drop_bit 16 x) :: byte) * 2 ^ 16 + unat (ucast (drop_bit 8 x) :: byte) * 2 ^ 8 +
      unat (ucast x :: byte))"
    by (simp only: of_be32_def be32_def append.simps nth_Cons_0 nth_Cons_Suc One_nat_def
        numeral_2_eq_2 numeral_3_eq_3)
  also have "\<dots> = word_of_nat (unat x)" by (simp only: unat_byte u0 sum)
  finally show ?thesis by simp
qed

section \<open>The header\<close>

definition frame_magic :: "32 word" where
  "frame_magic = 0xDEADBEEF"

definition frame_version :: "32 word" where
  "frame_version = 1"

definition frame_header_size :: nat where
  "frame_header_size = 48"

definition frame_name_size :: nat where
  "frame_name_size = 32"

definition ack_byte :: byte where
  "ack_byte = 0x06"

type_synonym frame_kind = "32 word"

definition kind_layer :: frame_kind where
  "kind_layer = 0"

definition kind_checkpoint_file :: frame_kind where
  "kind_checkpoint_file = 1"

definition kind_done :: frame_kind where
  "kind_done = 2"

record frame_header =
  fh_kind :: frame_kind
  fh_ordinal :: int
  fh_name :: string

definition zero_frame_header :: frame_header where
  "zero_frame_header = \<lparr>fh_kind = 0, fh_ordinal = 0, fh_name = []\<rparr>"

text \<open>The name field: \<open>copy\<close> into a zeroed buffer.\<close>

definition name_field :: "string \<Rightarrow> byte list" where
  "name_field n = take frame_name_size (map byte_of n) @ replicate (frame_name_size - length n) 0"

definition header_bytes :: "frame_header \<Rightarrow> byte list" where
  "header_bytes h =
     be32 frame_magic @ be32 frame_version @ be32 (fh_kind h) @ be32 (word_of_int (fh_ordinal h)) @
     name_field (fh_name h)"

text \<open>\<open>WriteFrameHeader\<close>: the bytes it writes, or its error. Writing can fail with any error.\<close>

definition write_frame_header :: "frame_header \<Rightarrow> go_err + byte list" where
  "write_frame_header h =
     (if frame_name_size < length (fh_name h)
      then Inl (errorf (''frame name '' @ quote (fh_name h) @ '' longer than '' @
             itoa (int frame_name_size) @ '' bytes''))
      else Inr (header_bytes h))"

text \<open>\<open>%08X\<close> of a 32-bit value.\<close>

definition hex_upper :: "nat \<Rightarrow> char" where
  "hex_upper d = (if d < 10 then char_of (48 + d) else char_of (55 + d))"

definition hex8 :: "32 word \<Rightarrow> string" where
  "hex8 x = map (\<lambda>k. hex_upper (unat x div 16 ^ k mod 16)) (rev [0..<8])"

text \<open>\<open>io.ReadFull\<close> of a stream that ends after its bytes.\<close>

definition read_full :: "nat \<Rightarrow> byte list \<Rightarrow> (go_err + byte list) \<times> byte list" where
  "read_full n s =
     (if n \<le> length s then (Inr (take n s), drop n s)
      else (Inl (errorf (if s = [] then ''EOF'' else ''unexpected EOF'')), []))"

text \<open>\<open>ReadFrameHeader\<close>: the header or the error, and what is left of the stream.\<close>

definition read_frame_header :: "byte list \<Rightarrow> (go_err + frame_header) \<times> byte list" where
  "read_frame_header s =
     (case read_full frame_header_size s of
        (Inl e, rest) \<Rightarrow> (Inl (wrap_err ''read frame header'' e), rest)
      | (Inr buf, rest) \<Rightarrow>
          (if of_be32 buf \<noteq> frame_magic
           then (Inl (errorf (''bad frame magic 0x'' @ hex8 (of_be32 buf))), rest)
           else if of_be32 (drop 4 buf) \<noteq> frame_version
           then (Inl (errorf (''unsupported frame version '' @ itoa (uint (of_be32 (drop 4 buf))))), rest)
           else (Inr \<lparr>fh_kind = of_be32 (drop 8 buf),
                      fh_ordinal = uint (of_be32 (drop 12 buf)),
                      fh_name = map char_of_byte (trim_right 0 (take frame_name_size (drop 16 buf)))\<rparr>, rest)))"

section \<open>Round trip\<close>

text \<open>The headers that survive: a name that fits and does not end in NUL, a 32-bit ordinal.\<close>

definition header_ok :: "frame_header \<Rightarrow> bool" where
  "header_ok h \<longleftrightarrow>
     length (fh_name h) \<le> frame_name_size \<and>
     (fh_name h = [] \<or> last (fh_name h) \<noteq> CHR 0x00) \<and>
     0 \<le> fh_ordinal h \<and> fh_ordinal h < 2 ^ 32"

lemma length_header_bytes [simp]:
  "length (fh_name h) \<le> frame_name_size \<Longrightarrow> length (header_bytes h) = frame_header_size"
  by (simp add: header_bytes_def name_field_def frame_name_size_def frame_header_size_def)

lemma byte_of_zero [simp]: "byte_of c = 0 \<longleftrightarrow> c = CHR 0x00"
proof
  assume "byte_of c = 0"
  then have "char_of_byte (byte_of c) = char_of_byte 0" by (rule arg_cong)
  then show "c = CHR 0x00" by (simp only: char_of_byte_of) (simp add: char_of_byte_def char_of_def)
qed (simp add: byte_of_def)

lemma name_field_trim:
  assumes "length n \<le> frame_name_size" and "n = [] \<or> last n \<noteq> CHR 0x00"
  shows "map char_of_byte (trim_right 0 (name_field n)) = n"
proof -
  have "trim_right 0 (map byte_of n) = map byte_of n"
    using assms(2) by (intro trim_right_id) (auto simp: last_map)
  then show ?thesis
    using assms(1) by (simp add: name_field_def trim_right_replicate comp_def)
qed

lemma read_header_bytes:
  assumes "header_ok h"
  shows "read_frame_header (header_bytes h @ rest) = (Inr h, rest)"
proof -
  have len: "length (fh_name h) \<le> frame_name_size" using assms by (simp add: header_ok_def)
  have full: "read_full frame_header_size (header_bytes h @ rest) = (Inr (header_bytes h), rest)"
    using len by (simp add: read_full_def)
  have parts: "of_be32 (header_bytes h) = frame_magic"
    "of_be32 (drop 4 (header_bytes h)) = frame_version"
    "of_be32 (drop 8 (header_bytes h)) = fh_kind h"
    "of_be32 (drop 12 (header_bytes h)) = word_of_int (fh_ordinal h)"
    "drop 16 (header_bytes h) = name_field (fh_name h)"
    by (simp_all add: header_bytes_def)
  have "uint (word_of_int (fh_ordinal h) :: 32 word) = fh_ordinal h"
    using assms by (simp add: header_ok_def uint_word_of_int)
  moreover have "length (name_field (fh_name h)) = frame_name_size"
    using len by (simp add: name_field_def)
  moreover have "map char_of_byte (trim_right 0 (name_field (fh_name h))) = fh_name h"
    using assms by (intro name_field_trim) (simp_all add: header_ok_def)
  ultimately show ?thesis
    by (simp add: read_frame_header_def full parts)
qed

definition decode_header :: "byte list \<Rightarrow> (frame_header \<times> byte list) option" where
  "decode_header s =
     (case read_frame_header s of (Inl _, _) \<Rightarrow> None | (Inr h, rest) \<Rightarrow> Some (h, rest))"

interpretation frame: codec header_bytes decode_header header_ok
  by unfold_locales (simp add: decode_header_def read_header_bytes)

text \<open>
  C31: a header that the sender can write is read back as it was, whatever follows it on the
  connection; and two such headers with the same bytes are the same header.
\<close>

theorem frame_header_roundtrip:
  assumes "header_ok h" and "header_ok h'"
  shows "write_frame_header h = Inr (header_bytes h) \<and>
         read_frame_header (header_bytes h @ rest) = (Inr h, rest) \<and>
         (header_bytes h @ rest = header_bytes h' @ rest' \<longrightarrow> h = h' \<and> rest = rest')"
  using assms frame.enc_split [OF assms] read_header_bytes [OF assms(1)]
  by (auto simp: write_frame_header_def header_ok_def)

end
