(* ===== verification/FrameTransfer.thy ===== *)
theory FrameTransfer
  imports Frames
begin

text \<open>
  Sending and receiving frames (\<open>go-agent/utils/transfer.go\<close>). Each frame has a connection of its
  own: the sender writes the header and the compressed archive and waits for the acknowledgement
  byte, the receiver hands the payload to its handler and acknowledges. The archive (tar and
  gzip over the file system) and the handler are arguments.
\<close>

section \<open>Connections\<close>

text \<open>
  One end of a connection: the bytes still to be read (the stream ends after them), the bytes
  written so far, and the error of every further write, if the peer is gone.
\<close>

record conn =
  cn_in :: "byte list"
  cn_out :: "byte list"
  cn_error :: "go_err option"

definition conn_write :: "byte list \<Rightarrow> conn \<Rightarrow> go_err option \<times> conn" where
  "conn_write bs c =
     (case cn_error c of Some e \<Rightarrow> (Some e, c) | None \<Rightarrow> (None, c\<lparr>cn_out := cn_out c @ bs\<rparr>))"

definition opened :: "byte list \<Rightarrow> conn" where
  "opened bs = \<lparr>cn_in = bs, cn_out = [], cn_error = None\<rparr>"

section \<open>The sender\<close>

definition hex2 :: "byte \<Rightarrow> string" where
  "hex2 b = [hex_upper (unat b div 16), hex_upper (unat b mod 16)]"

definition read_ack :: "conn \<Rightarrow> go_err option \<times> conn" where
  "read_ack c =
     (case read_full 1 (cn_in c) of
        (Inl e, rest) \<Rightarrow> (Some (wrap_err ''wait for ack'' e), c\<lparr>cn_in := rest\<rparr>)
      | (Inr buf, rest) \<Rightarrow>
          (if buf ! 0 \<noteq> ack_byte
           then Some (errorf (''unexpected ack byte 0x'' @ hex2 (buf ! 0))) else None,
           c\<lparr>cn_in := rest\<rparr>))"

text \<open>Writing a header to a connection.\<close>

definition send_header :: "frame_header \<Rightarrow> conn \<Rightarrow> go_err option \<times> conn" where
  "send_header h c =
     (case write_frame_header h of Inl e \<Rightarrow> (Some e, c) | Inr bs \<Rightarrow> conn_write bs c)"

text \<open>\<open>archive\<close>: the compressed archive, or the (wrapped) error of building it.\<close>

definition send_payload :: "go_err + byte list \<Rightarrow> conn \<Rightarrow> go_err option \<times> conn" where
  "send_payload archive c =
     (case archive of
        Inl e \<Rightarrow> (Some e, c)
      | Inr bs \<Rightarrow>
          (case conn_write bs c of
             (Some e, c') \<Rightarrow> (Some e, c')
           | (None, c') \<Rightarrow> read_ack c'))"

definition send_dir_frame :: "int \<Rightarrow> string \<Rightarrow> go_err + byte list \<Rightarrow> conn \<Rightarrow> go_err option \<times> conn" where
  "send_dir_frame ordinal name archive c =
     (case send_header \<lparr>fh_kind = kind_layer, fh_ordinal = ordinal, fh_name = name\<rparr> c of
        (Some e, c') \<Rightarrow> (Some (wrap_err ''write header'' e), c')
      | (None, c') \<Rightarrow> send_payload archive c')"

text \<open>\<open>filepath.Base\<close> on a Unix path.\<close>

definition path_base :: "string \<Rightarrow> string" where
  "path_base path =
     (if path = [] then ''.''
      else (let p = trim_right (CHR ''/'') path;
                b = rev (takeWhile (\<lambda>c. c \<noteq> CHR ''/'') (rev p))
            in if b = [] then ''/'' else b))"

text \<open>\<open>stat\<close> is the error of \<open>os.Stat\<close>, if any.\<close>

definition send_file_frame ::
    "string \<Rightarrow> go_err option \<Rightarrow> go_err + byte list \<Rightarrow> conn \<Rightarrow> go_err option \<times> conn" where
  "send_file_frame path stat archive c =
     (case stat of
        Some e \<Rightarrow> (Some (wrap_err (''stat '' @ path) e), c)
      | None \<Rightarrow>
          (case send_header \<lparr>fh_kind = kind_checkpoint_file, fh_ordinal = 0, fh_name = path_base path\<rparr> c of
             (Some e, c') \<Rightarrow> (Some (wrap_err ''write header'' e), c')
           | (None, c') \<Rightarrow> send_payload archive c'))"

definition send_done_frame :: "conn \<Rightarrow> go_err option \<times> conn" where
  "send_done_frame c =
     (case send_header \<lparr>fh_kind = kind_done, fh_ordinal = 0, fh_name = []\<rparr> c of
        (Some e, c') \<Rightarrow> (Some (wrap_err ''write done header'' e), c')
      | (None, c') \<Rightarrow> read_ack c')"

section \<open>The receiver\<close>

text \<open>
  A handler consumes part of the input and acts on the state of the receiving agent: its error,
  the input it leaves, the new state.
\<close>

type_synonym 'w frame_handler =
  "frame_header \<Rightarrow> byte list \<Rightarrow> 'w \<Rightarrow> (go_err option \<times> byte list) \<times> 'w"

definition receive_frame ::
    "'w frame_handler \<Rightarrow> conn \<Rightarrow> 'w \<Rightarrow> (frame_header \<times> go_err option) \<times> conn \<times> 'w" where
  "receive_frame handle c w =
     (case read_frame_header (cn_in c) of
        (Inl e, rest) \<Rightarrow> ((zero_frame_header, Some e), c\<lparr>cn_in := rest\<rparr>, w)
      | (Inr h, rest) \<Rightarrow>
          (let ((err, rest'), w') = (if fh_kind h \<noteq> kind_done then handle h rest w else ((None, rest), w));
               c1 = c\<lparr>cn_in := rest'\<rparr>
           in case err of
                Some e \<Rightarrow> ((h, Some (wrap_err (''handle frame '' @ quote (fh_name h)) e)), c1, w')
              | None \<Rightarrow>
                  (case conn_write [ack_byte] c1 of
                     (Some e, c2) \<Rightarrow> ((h, Some (wrap_err ''write ack'' e)), c2, w')
                   | (None, c2) \<Rightarrow> ((h, None), c2, w'))))"

text \<open>
  \<open>ReceiveAll\<close> on the outcomes of \<open>Accept\<close> in turn; when they are used up the deadline has passed
  and \<open>Accept\<close> fails with \<open>late\<close>. The result: the headers received and the error; the
  connections as they were left; the state.
\<close>

fun receive_all ::
    "'w frame_handler \<Rightarrow> go_err \<Rightarrow> (go_err + conn) list \<Rightarrow> 'w \<Rightarrow>
     (frame_header list \<times> go_err option) \<times> conn list \<times> 'w" where
  "receive_all handle late [] w = (([], Some (wrap_err ''accept'' late)), [], w)"
| "receive_all handle late (Inl e # as) w = (([], Some (wrap_err ''accept'' e)), [], w)"
| "receive_all handle late (Inr c # as) w =
     (case receive_frame handle c w of
        ((h, Some e), c', w') \<Rightarrow> (([], Some e), [c'], w')
      | ((h, None), c', w') \<Rightarrow>
          (if fh_kind h = kind_done then (([], None), [c'], w')
           else (case receive_all handle late as w' of
                   ((hs, err), cs, w'') \<Rightarrow> ((h # hs, err), c' # cs, w''))))"

section \<open>One frame, end to end\<close>

lemma kinds_differ [simp]:
  "kind_layer \<noteq> kind_done" "kind_checkpoint_file \<noteq> kind_done" "kind_layer \<noteq> kind_checkpoint_file"
  by (simp_all add: kind_layer_def kind_done_def kind_checkpoint_file_def)

lemma send_header_ok:
  "header_ok h \<Longrightarrow> cn_error c = None \<Longrightarrow>
   send_header h c = (None, c\<lparr>cn_out := cn_out c @ header_bytes h\<rparr>)"
  by (simp add: send_header_def write_frame_header_def header_ok_def conn_write_def)

lemma receive_frame_handled:
  assumes "header_ok h" and "fh_kind h \<noteq> kind_done" and "handle h p w = ((None, rest), w')"
  shows "receive_frame handle (opened (header_bytes h @ p)) w =
         ((h, None), \<lparr>cn_in = rest, cn_out = [ack_byte], cn_error = None\<rparr>, w')"
  using assms(2,3)
  by (simp add: receive_frame_def opened_def read_header_bytes [OF assms(1)] conn_write_def)

definition done_header :: frame_header where
  "done_header = \<lparr>fh_kind = kind_done, fh_ordinal = 0, fh_name = []\<rparr>"

lemma done_header_ok [simp]: "header_ok done_header"
  by (simp add: done_header_def header_ok_def)

lemma receive_frame_done:
  "receive_frame handle (opened (header_bytes done_header @ rest)) w =
     ((done_header, None), \<lparr>cn_in = rest, cn_out = [ack_byte], cn_error = None\<rparr>, w)"
  by (simp add: receive_frame_def opened_def read_header_bytes conn_write_def)
     (simp add: done_header_def)

lemma read_ack_ok: "cn_in c = ack_byte # rest \<Longrightarrow> read_ack c = (None, c\<lparr>cn_in := rest\<rparr>)"
  by (simp add: read_ack_def read_full_def)

text \<open>
  C32: a directory frame end to end: on the bytes the sender writes, the receiver finds the
  sender's header and gives its handler exactly the archive, and when the handler accepts it the
  acknowledgement it writes lets the sender return without an error.
\<close>

theorem dir_frame_end_to_end:
  assumes name: "length name \<le> frame_name_size" "name = [] \<or> last name \<noteq> CHR 0x00"
    and ord: "0 \<le> ordinal" "ordinal < 2 ^ 32"
    and handled: "handle \<lparr>fh_kind = kind_layer, fh_ordinal = ordinal, fh_name = name\<rparr> archive w =
                  ((None, rest), w')"
  shows "receive_frame handle
            (opened (cn_out (snd (send_dir_frame ordinal name (Inr archive) (opened reply))))) w =
          ((\<lparr>fh_kind = kind_layer, fh_ordinal = ordinal, fh_name = name\<rparr>, None),
           \<lparr>cn_in = rest, cn_out = [ack_byte], cn_error = None\<rparr>, w') \<and>
         fst (send_dir_frame ordinal name (Inr archive) (opened [ack_byte])) = None"
proof -
  let ?h = "\<lparr>fh_kind = kind_layer, fh_ordinal = ordinal, fh_name = name\<rparr>"
  have ok: "header_ok ?h" using name ord by (simp add: header_ok_def)
  have send: "send_dir_frame ordinal name (Inr archive) (opened r) =
      read_ack (opened r\<lparr>cn_out := header_bytes ?h @ archive\<rparr>)" for r
    by (simp add: send_dir_frame_def send_header_ok [OF ok] opened_def send_payload_def conn_write_def)
  have out: "cn_out (snd (read_ack c)) = cn_out c" for c
    by (simp add: read_ack_def split: prod.split sum.split)
  have recv: "receive_frame handle (opened (header_bytes ?h @ archive)) w =
      ((?h, None), \<lparr>cn_in = rest, cn_out = [ack_byte], cn_error = None\<rparr>, w')"
    by (rule receive_frame_handled [of ?h]) (simp_all add: ok handled)
  have "cn_out (snd (send_dir_frame ordinal name (Inr archive) (opened reply))) = header_bytes ?h @ archive"
    by (simp only: send out) simp
  moreover have "fst (send_dir_frame ordinal name (Inr archive) (opened [ack_byte])) = None"
    by (simp only: send) (simp add: read_ack_ok opened_def)
  ultimately show ?thesis by (simp only: recv)
qed

section \<open>A whole transfer\<close>

text \<open>The handler accepts the frames one after the other.\<close>

fun accepts ::
    "'w frame_handler \<Rightarrow> (frame_header \<times> byte list) list \<Rightarrow> 'w \<Rightarrow> 'w \<Rightarrow> bool" where
  "accepts handle [] w w' = (w' = w)"
| "accepts handle ((h, p) # fs) w w' =
     (header_ok h \<and> fh_kind h \<noteq> kind_done \<and>
      fst (handle h p w) = (None, []) \<and> accepts handle fs (snd (handle h p w)) w')"

definition frame_conn :: "frame_header \<times> byte list \<Rightarrow> go_err + conn" where
  "frame_conn f = Inr (opened (header_bytes (fst f) @ snd f))"

definition acked :: conn where
  "acked = \<lparr>cn_in = [], cn_out = [ack_byte], cn_error = None\<rparr>"

lemma receive_all_frames:
  assumes "accepts handle fs w w'"
  shows "receive_all handle late (map frame_conn fs @ as) w =
    (case receive_all handle late as w' of
       ((hs, err), cs, w'') \<Rightarrow> ((map fst fs @ hs, err), replicate (length fs) acked @ cs, w''))"
  using assms
proof (induction fs arbitrary: w)
  case Nil
  then show ?case by (simp split: prod.split)
next
  case (Cons f fs)
  obtain h p where f: "f = (h, p)" by (cases f)
  with Cons.prems have ok: "header_ok h" and kind: "fh_kind h \<noteq> kind_done"
    and res: "handle h p w = ((None, []), snd (handle h p w))"
    and rest: "accepts handle fs (snd (handle h p w)) w'"
    by (simp_all add: prod_eq_iff)
  note one = receive_frame_handled [where handle = handle, OF ok kind res]
  have "frame_conn f = Inr (opened (header_bytes h @ p))" by (simp add: f frame_conn_def)
  then show ?case
    by (simp add: one kind Cons.IH [OF rest] split: prod.split) (simp add: f acked_def)
qed

lemma receive_all_stops:
  "receive_all handle late (frame_conn (done_header, []) # as) w = (([], None), [acked], w)"
  using receive_frame_done [of handle "[]" w] by (simp add: frame_conn_def acked_def)
     (simp add: done_header_def)

text \<open>
  C33: frames sent one connection each and followed by the DONE frame arrive in order, each with
  its own payload, every one is acknowledged, and the receiver stops without an error; what comes
  after DONE is not read.
\<close>

theorem transfer_complete:
  assumes "accepts handle fs w w'"
  shows "receive_all handle late (map frame_conn fs @ frame_conn (done_header, []) # as) w =
         ((map fst fs, None), replicate (length fs + 1) acked, w')"
  by (simp add: receive_all_frames [OF assms] receive_all_stops replicate_append_same flip: replicate_Suc)

text \<open>
  A connection that does not start with a valid header ends the whole transfer with an error,
  after whatever frames came before it, even when the remaining frames and DONE would follow: the
  receiver does not go on until DONE or the timeout.
\<close>

lemma stray_connection_aborts_transfer:
  assumes "accepts handle fs w w'" and "read_frame_header (cn_in c) = (Inl e, rest)"
  shows "receive_all handle late (map frame_conn fs @ Inr c # as) w =
         ((map fst fs, Some e), replicate (length fs) acked @ [c\<lparr>cn_in := rest\<rparr>], w')"
  by (simp add: receive_all_frames [OF assms(1)] receive_frame_def assms(2))

text \<open>
  A checkpoint file whose base name is longer than 32 bytes is never sent: the sender returns
  an error and writes nothing, not even a header.
\<close>

lemma long_file_name_not_sent:
  assumes "frame_name_size < length (path_base path)"
  shows "fst (send_file_frame path stat archive c) \<noteq> None \<and>
         snd (send_file_frame path stat archive c) = c"
  using assms
  by (simp add: send_file_frame_def send_header_def write_frame_header_def split: option.split)

end
