(* ===== verification/Paths.thy ===== *)
theory Paths
  imports Prelude GoStrings
begin

text \<open>
  Paths of archive entries (\<open>safeJoin\<close> in \<open>go-agent/utils/transfer.go\<close>), with the functions of
  \<open>path/filepath\<close> it rests on, for Unix. An accepted entry lands under the destination directory,
  as a path; what a symbolic link on the way may do is not visible here.
\<close>

section \<open>Components\<close>

text \<open>The parts between slashes, empty ones included.\<close>

fun split_slash :: "string \<Rightarrow> string list" where
  "split_slash [] = [[]]"
| "split_slash (c # s) =
     (if c = CHR ''/'' then [] # split_slash s
      else (case split_slash s of [] \<Rightarrow> [[c]] | p # ps \<Rightarrow> (c # p) # ps))"

text \<open>The loop of \<open>filepath.Clean\<close>, with the components kept so far in reverse.\<close>

fun clean_loop :: "bool \<Rightarrow> string list \<Rightarrow> string list \<Rightarrow> string list" where
  "clean_loop rooted out [] = rev out"
| "clean_loop rooted out (c # cs) =
     (if c = [] \<or> c = ''.'' then clean_loop rooted out cs
      else if c = ''..'' then
        (case out of
           [] \<Rightarrow> if rooted then clean_loop rooted [] cs else clean_loop rooted [''..''] cs
         | x # xs \<Rightarrow> if x = ''..'' then clean_loop rooted (c # out) cs else clean_loop rooted xs cs)
      else clean_loop rooted (c # out) cs)"

definition is_abs :: "string \<Rightarrow> bool" where
  "is_abs p \<longleftrightarrow> has_prefix p ''/''"

fun join_slash :: "string list \<Rightarrow> string" where
  "join_slash [] = []"
| "join_slash [c] = c"
| "join_slash (c # cs) = c @ CHR ''/'' # join_slash cs"

definition components :: "string \<Rightarrow> string list" where
  "components p = clean_loop (is_abs p) [] (split_slash p)"

text \<open>A cleaned path from its components.\<close>

definition render :: "bool \<Rightarrow> string list \<Rightarrow> string" where
  "render rooted cs =
     (if rooted then CHR ''/'' # join_slash cs else if cs = [] then ''.'' else join_slash cs)"

definition path_clean :: "string \<Rightarrow> string" where
  "path_clean p = (if p = [] then ''.'' else render (is_abs p) (components p))"

text \<open>\<open>filepath.Join\<close> of two elements, the second not empty.\<close>

definition path_join :: "string \<Rightarrow> string \<Rightarrow> string" where
  "path_join dir p = (if dir = [] then path_clean p else path_clean (dir @ ''/'' @ p))"

section \<open>safeJoin\<close>

definition safe_join :: "string \<Rightarrow> string \<Rightarrow> go_err + string" where
  "safe_join dir name =
     (if is_abs name then Inl (errorf (''tar entry '' @ quote name @ '' has absolute path''))
      else
        (let cleaned = path_clean name in
         if cleaned = ''..'' \<or> has_prefix cleaned ''../''
         then Inl (errorf (''tar entry '' @ quote name @ '' escapes destination''))
         else Inr (path_join dir cleaned)))"

section \<open>Cleaning\<close>

definition plain :: "string \<Rightarrow> bool" where
  "plain c \<longleftrightarrow> c \<noteq> [] \<and> c \<noteq> ''.'' \<and> c \<noteq> ''..'' \<and> CHR ''/'' \<notin> set c"

lemma split_slash_ne [simp]: "split_slash s \<noteq> []"
  by (induction s) (auto split: list.split)

lemma split_slash_no_slash: "c \<in> set (split_slash s) \<Longrightarrow> CHR ''/'' \<notin> set c"
  by (induction s arbitrary: c) (auto split: if_splits list.splits)

lemma split_slash_single: "CHR ''/'' \<notin> set c \<Longrightarrow> split_slash c = [c]"
  by (induction c) (auto split: list.split)

lemma split_slash_append: "split_slash (s @ CHR ''/'' # t) = split_slash s @ split_slash t"
  by (induction s) (auto split: list.split simp: neq_Nil_conv)

lemma split_join_slash:
  "cs \<noteq> [] \<Longrightarrow> list_all (\<lambda>c. CHR ''/'' \<notin> set c) cs \<Longrightarrow> split_slash (join_slash cs) = cs"
  by (induction cs rule: join_slash.induct) (simp_all add: split_slash_single split_slash_append)

text \<open>Plain components are kept.\<close>

lemma clean_loop_plain: "list_all plain cs \<Longrightarrow> clean_loop rooted out cs = rev out @ cs"
  by (induction cs arbitrary: out) (simp_all add: plain_def)

lemma clean_loop_append:
  "clean_loop rooted out (xs @ ys) = clean_loop rooted (rev (clean_loop rooted out xs)) ys"
  by (induction rooted out xs rule: clean_loop.induct) (auto split: list.splits)

text \<open>A cleaned relative path: some parent steps, then plain components.\<close>

definition clean_form :: "string list \<Rightarrow> bool" where
  "clean_form cs \<longleftrightarrow> (\<exists>k ps. cs = replicate k ''..'' @ ps \<and> list_all plain ps)"

lemma clean_form_snoc:
  "clean_form cs \<Longrightarrow> plain c \<Longrightarrow> clean_form (cs @ [c])"
proof -
  assume "clean_form cs" and c: "plain c"
  then obtain k ps where "cs = replicate k ''..'' @ ps" "list_all plain ps"
    by (auto simp: clean_form_def)
  with c show ?thesis
    unfolding clean_form_def by (intro exI [of _ k] exI [of _ "ps @ [c]"]) simp
qed

lemma clean_form_up:
  assumes "clean_form (cs @ [x])"
  shows "x = ''..'' \<Longrightarrow> clean_form (cs @ [x, ''..''])" and "x \<noteq> ''..'' \<Longrightarrow> clean_form cs"
proof -
  from assms obtain k ps where eq: "cs @ [x] = replicate k ''..'' @ ps" and ps: "list_all plain ps"
    by (auto simp: clean_form_def)
  show "clean_form (cs @ [x, ''..''])" if "x = ''..''"
  proof -
    have "ps = []"
    proof (cases ps rule: rev_cases)
      case (snoc qs q)
      with eq ps that show ?thesis by (simp add: plain_def)
    qed simp
    then have "cs @ [x, ''..''] = replicate (Suc k) ''..''"
      using eq by (metis append.assoc append_Cons append_Nil append_Nil2 replicate_Suc replicate_append_same)
    then show ?thesis
      unfolding clean_form_def by (intro exI [of _ "Suc k"] exI [of _ "[]"]) simp
  qed
  show "clean_form cs" if "x \<noteq> ''..''"
  proof (cases ps rule: rev_cases)
    case Nil
    then have "x \<in> set (replicate k ''..'')" using eq by (metis append_Nil2 in_set_conv_decomp)
    with that show ?thesis by simp
  next
    case (snoc qs q)
    with eq ps show ?thesis unfolding clean_form_def by (metis append_assoc butlast_snoc list_all_append)
  qed
qed

lemma clean_loop_form:
  "clean_form (rev out) \<Longrightarrow> list_all (\<lambda>c. CHR ''/'' \<notin> set c) cs \<Longrightarrow>
   clean_form (clean_loop False out cs)"
proof (induction cs arbitrary: out)
  case Nil
  then show ?case by simp
next
  case (Cons c cs)
  have up: "clean_form (rev (case out of [] \<Rightarrow> [''..''] | x # xs \<Rightarrow> if x = ''..'' then ''..'' # out else xs))"
  proof (cases out)
    case Nil
    have "clean_form [''..'']" unfolding clean_form_def
      by (rule exI [of _ 1], rule exI [of _ "[]"]) simp
    with Nil show ?thesis by simp
  next
    case (Cons x xs)
    then show ?thesis using clean_form_up [of "rev xs" x] \<open>clean_form (rev out)\<close> by auto
  qed
  show ?case
    using Cons up clean_form_snoc [of "rev out" c]
    by (cases out) (auto simp: plain_def)
qed

lemma clean_form_components: "\<not> is_abs p \<Longrightarrow> clean_form (components p)"
  using clean_loop_form [of "[]" "split_slash p"] split_slash_no_slash [of _ p]
  by (simp add: components_def clean_form_def list_all_iff)

text \<open>A cleaned path that does not begin with a parent step has plain components only.\<close>

lemma accepted_components:
  assumes "\<not> is_abs p" and "path_clean p \<noteq> ''..''" and "\<not> has_prefix (path_clean p) ''../''"
  shows "list_all plain (components p)"
proof (cases "p = []")
  case True
  then show ?thesis by (simp add: components_def)
next
  case False
  obtain k ps where c: "components p = replicate k ''..'' @ ps" and ps: "list_all plain ps"
    using clean_form_components [OF assms(1)] by (auto simp: clean_form_def)
  have clean: "path_clean p = render False (components p)" using False assms(1) by (simp add: path_clean_def)
  have "k = 0"
  proof (cases k)
    case (Suc j)
    then have "components p = ''..'' # (replicate j ''..'' @ ps)" by (simp add: c)
    then show ?thesis
      using assms(2,3) clean
      by (cases "replicate j ''..'' @ ps") (simp_all add: render_def has_prefix_def)
  qed simp
  with c ps show ?thesis by simp
qed

lemma split_clean:
  assumes "list_all plain (components p)" and "\<not> is_abs p"
  shows "clean_loop rooted out (split_slash (path_clean p)) = rev out @ components p"
proof (cases "components p = []")
  case True
  have "path_clean p = ''.''" using assms(2) True by (simp add: path_clean_def render_def)
  then show ?thesis by (simp add: True)
next
  case False
  then have "p \<noteq> []" by (auto simp: components_def)
  then have "path_clean p = join_slash (components p)"
    using assms(2) False by (simp add: path_clean_def render_def)
  moreover have "list_all (\<lambda>c. CHR ''/'' \<notin> set c) (components p)"
    using assms(1) by (auto simp: list_all_iff plain_def)
  ultimately show ?thesis using False clean_loop_plain [OF assms(1)] by (simp add: split_join_slash)
qed

lemma safe_join_render:
  assumes "safe_join dir name = Inr path" and "dir \<noteq> []"
  shows "path = render (is_abs dir) (components dir @ components name) \<and>
         list_all plain (components name)"
proof -
  let ?c = "path_clean name"
  have rel: "\<not> is_abs name" and "?c \<noteq> ''..''" and "\<not> has_prefix ?c ''../''"
    and path: "path = path_join dir ?c"
    using assms(1) by (simp_all add: safe_join_def Let_def split: if_splits)
  then have plain: "list_all plain (components name)" by (intro accepted_components)
  have abs: "is_abs (dir @ CHR ''/'' # ?c) = is_abs dir"
    using assms(2) by (cases dir) (simp_all add: is_abs_def has_prefix_def)
  have "components (dir @ CHR ''/'' # ?c) = components dir @ components name"
    by (simp add: components_def [of "dir @ _"] abs split_slash_append clean_loop_append
        split_clean [OF plain rel] components_def [of dir])
  moreover have "path_clean (dir @ CHR ''/'' # ?c) =
      render (is_abs (dir @ CHR ''/'' # ?c)) (components (dir @ CHR ''/'' # ?c))"
    by (simp add: path_clean_def [of "dir @ _"])
  ultimately show ?thesis using plain assms(2) by (simp add: path path_join_def abs)
qed

text \<open>
  An archive entry that is accepted for a directory gets the cleaned path of the directory
  followed by the components of the entry's cleaned name, none of which leads upwards; so no
  accepted name leaves the directory.
\<close>

lemma safe_join_contained:
  assumes "safe_join dir name = Inr path" and "dir \<noteq> []"
  shows "path = render (is_abs dir) (components dir @ components name) \<and>
         list_all plain (components name)"
  by (rule safe_join_render [OF assms])

section \<open>Paths of plain components\<close>

lemma plain_no_slash: "list_all plain cs \<Longrightarrow> list_all (\<lambda>c. CHR ''/'' \<notin> set c) cs"
  by (auto simp: list_all_iff plain_def)

lemma split_render:
  "list_all plain cs \<Longrightarrow> filter (\<lambda>c. c \<noteq> []) (split_slash (join_slash cs)) = cs"
proof (cases "cs = []")
  case False
  assume p: "list_all plain cs"
  then have "filter (\<lambda>c. c \<noteq> []) cs = cs" by (auto simp: list_all_iff plain_def intro: filter_True)
  with False p show ?thesis by (simp add: split_join_slash plain_no_slash)
qed simp

lemma is_abs_render [simp]: "is_abs (render True cs)"
  by (simp add: is_abs_def render_def has_prefix_def)

lemma components_render: "list_all plain cs \<Longrightarrow> components (render True cs) = cs"
proof (cases "cs = []")
  case True
  then show ?thesis by (simp add: render_def components_def is_abs_def has_prefix_def)
next
  case False
  assume p: "list_all plain cs"
  have "split_slash (render True cs) = [] # cs"
    using False p by (simp add: render_def split_join_slash plain_no_slash)
  then show ?thesis using p by (simp add: components_def clean_loop_plain)
qed

lemma join_slash_relative:
  assumes "list_all plain cs" and "cs \<noteq> []"
  shows "\<not> is_abs (join_slash cs)" and "components (join_slash cs) = cs"
    and "path_clean (join_slash cs) = join_slash cs"
proof -
  obtain c ds where cs: "cs = c # ds" using assms(2) by (cases cs) auto
  have c: "c \<noteq> []" "CHR ''/'' \<notin> set c" using assms(1) cs by (simp_all add: plain_def)
  then obtain x y where xy: "c = x # y" "x \<noteq> CHR ''/''" by (cases c) auto
  have hd: "\<exists>t. join_slash cs = x # t" using cs xy by (cases ds) auto
  with xy show rel: "\<not> is_abs (join_slash cs)" by (auto simp: is_abs_def has_prefix_def)
  show comp: "components (join_slash cs) = cs"
    using assms by (simp add: components_def split_join_slash plain_no_slash clean_loop_plain)
  have "join_slash cs \<noteq> []" using hd by auto
  with rel comp assms(2) show "path_clean (join_slash cs) = join_slash cs"
    by (simp add: path_clean_def render_def)
qed

lemma join_slash_no_parent:
  assumes "list_all plain cs" and "cs \<noteq> []"
  shows "join_slash cs \<noteq> ''..''" and "\<not> has_prefix (join_slash cs) ''../''"
proof -
  have split: "split_slash (join_slash cs) = cs"
    using assms by (simp add: split_join_slash plain_no_slash)
  show "join_slash cs \<noteq> ''..''"
  proof
    assume "join_slash cs = ''..''"
    with split assms(1) show False by (auto simp: plain_def)
  qed
  show "\<not> has_prefix (join_slash cs) ''../''"
  proof
    assume "has_prefix (join_slash cs) ''../''"
    then obtain t where "join_slash cs = ''..'' @ CHR ''/'' # t" by (auto simp: has_prefix_iff)
    with split have "split_slash ''..'' @ split_slash t = cs" by (simp only: split_slash_append)
    with assms(1) show False by (auto simp: plain_def)
  qed
qed

text \<open>A relative name of plain components below an absolute directory.\<close>

lemma safe_join_plain:
  assumes "list_all plain d" and "list_all plain cs" and "cs \<noteq> []"
  shows "safe_join (render True d) (join_slash cs) = Inr (render True (d @ cs))"
proof -
  note rel = join_slash_relative [OF assms(2,3)] and up = join_slash_no_parent [OF assms(2,3)]
  have ok: "safe_join (render True d) (join_slash cs) =
      Inr (path_join (render True d) (join_slash cs))"
    by (simp add: safe_join_def rel up)
  from safe_join_render [OF ok] have "path_join (render True d) (join_slash cs) =
      render True (components (render True d) @ components (join_slash cs))"
    by (simp add: render_def is_abs_def has_prefix_def)
  with ok show ?thesis by (simp add: components_render [OF assms(1)] rel)
qed

end
