(* ===== verification/Examples.thy ===== *)
theory Examples
  imports Minikube FrameTransfer Paths
begin

text \<open>
  Concrete instances of the properties: for each of them that has hypotheses, inputs of the
  model on which they hold, evaluated, with what the property then says.
\<close>

section \<open>The registry\<close>

definition demo_info :: arm_info where
  "demo_info = \<lparr>ai_checkpoint_dir = ''/c'', ai_process_migration = True,
     ai_volume_migration = False, ai_sync_rounds = 0\<rparr>"

definition demo_ops :: "reg_op list" where
  "demo_ops =
     [OpRegister 1 ''p'' ''10.0.0.1'' 2486, OpArm 2 ''p'' demo_info, OpCopy ''p'' ''/c'',
      OpRegister 3 ''p'' ''10.0.0.2'' 2486, OpRegister 4 ''q'' ''10.0.0.3'' 0]"

lemma demo_ops_ok: "list_all op_ok demo_ops"
  by (simp add: demo_ops_def)

lemma demo_inv: "reg_inv (reg_run demo_ops)"
  by (rule reg_run_inv [OF demo_ops_ok])

theorem registry_refines_sessions_witness:
  "sessions_of (reg_run demo_ops) ''p'' =
     Some \<lparr>se_armed = True, se_checkpointed = True, se_dest = Some ''10.0.0.2:2486'', se_restored = False\<rparr>"
proof -
  have "foldl session_step Map.empty demo_ops ''p'' =
      Some \<lparr>se_armed = True, se_checkpointed = True, se_dest = Some ''10.0.0.2:2486'', se_restored = False\<rparr>"
    by code_simp
  then show ?thesis by (simp add: registry_refines_sessions [OF demo_ops_ok])
qed

definition demo_answer :: remove_response where
  "demo_answer = \<lparr>rr_needs_checkpoint = True, rr_process_migration = True,
     rr_volume_migration = False, rr_dest_address = ''10.0.0.2:2486''\<rparr>"

theorem remove_answers_destination_witness:
  "handle_remove (Some ''p'') (reg_run demo_ops) = (Response 200 (BRemove demo_answer) :: nat response) \<and>
   (\<exists>xs now a p ys. demo_ops = xs @ OpRegister now ''p'' a p # ys \<and> armed_after ''p'' xs \<and>
      rr_dest_address demo_answer = join_host_port a p \<and> \<not> list_ex (touches_dest ''p'') ys)"
proof -
  have answer: "handle_remove (Some ''p'') (reg_run demo_ops) =
      (Response 200 (BRemove demo_answer) :: nat response)"
    by code_simp
  have "list_all no_seeded_dest demo_ops" by (simp add: demo_ops_def)
  moreover have "rr_dest_address demo_answer \<noteq> []" by (simp add: demo_answer_def)
  ultimately show ?thesis
    using remove_answers_destination [OF demo_ops_ok _ answer] answer by blast
qed

section \<open>The history\<close>

definition demo_transition :: "string \<Rightarrow> string \<Rightarrow> instant \<Rightarrow> transition" where
  "demo_transition n phase t =
     \<lparr>tr_namespace = ''ns'', tr_name = n, tr_workload = ''web'', tr_source_pod = ''web-0'',
      tr_destination_pod = [], tr_source_node = ''a'', tr_target_node = ''b'',
      tr_process_migration = True, tr_volume_migration = False, tr_phase = phase,
      tr_message = [], tr_time = t\<rparr>"

definition demo_recordings :: "(instant \<times> instant \<times> transition) list" where
  "demo_recordings =
     [(1, 1, demo_transition ''m'' ''Pending'' 1000000),
      (1, 1, demo_transition ''other'' ''Pending'' 1500000),
      (2, 2, demo_transition ''m'' ''Checkpointing'' 2000000)]"

text \<open>With room for one record, the finished \<open>m\<close> makes way for a third migration; \<open>other\<close> stays.\<close>

definition full_ops :: "hist_op list" where
  "full_ops = recordings (demo_recordings @ [(9, 9, demo_transition ''m'' ''Completed'' 9000000)])"

theorem history_drops_oldest_evictable_witness:
  "\<exists>rec. fmlookup (hs_records (hist_run True 2 full_ops)) ''ns/m'' = Some rec \<and> hr_terminal rec \<and> \<not> hr_seeded rec \<and>
     fmlookup (hs_records (hist_run True 2 (full_ops @ [HRecord 10 10 (demo_transition ''third'' ''Pending'' 9500000)]))) ''ns/m'' = None"
proof -
  let ?s = "hist_run True 2 full_ops" and ?op = "HRecord 10 10 (demo_transition ''third'' ''Pending'' 9500000)"
  have order: "hs_order ?s = [] @ ''ns/m'' # [''ns/other'']" by code_simp
  have gone: "fmlookup (hs_records (hist_run True 2 (full_ops @ [?op]))) ''ns/m'' = None" by code_simp
  have seeded: "\<not> hr_seeded (the (fmlookup (hs_records ?s) ''ns/m''))" by code_simp
  from history_drops_oldest_evictable [OF order gone] gone seeded show ?thesis by auto
qed

theorem migrations_isolated_witness:
  "fmlookup (hs_records (hist_run True 1 (recordings (demo_recordings @ [(9, 9, demo_transition ''m'' ''Completed'' 9000000)])))) ''ns/m'' =
     own_history ''ns/m'' (demo_recordings @ [(9, 9, demo_transition ''m'' ''Completed'' 9000000)])"
proof -
  have key: "tr_key (demo_transition ''m'' ''Completed'' 9000000) = ''ns/m''" by code_simp
  have "in_flight ''ns/m'' demo_recordings" by code_simp
  then show ?thesis
    using migrations_isolated [of "demo_transition ''m'' ''Completed'' 9000000" demo_recordings 1 9 9] by (simp add: key)
qed

theorem downtime_within_total_witness:
  "\<exists>rec. fmlookup (hs_records (hist_run True 1 (recordings (demo_recordings @
       [(9, 9, demo_transition ''m'' ''Completed'' 9000000)])))) ''ns/m'' = Some rec \<and>
     hr_completed_at rec = Some 9000000 \<and> hr_total_ms rec = 8 \<and> hr_downtime_ms rec \<le> 8"
proof -
  let ?tr = "demo_transition ''m'' ''Completed'' 9000000"
  have key: "tr_key ?tr = ''ns/m''" by code_simp
  have fl: "in_flight (tr_key ?tr) demo_recordings" by code_simp
  have fin: "\<not> working_phase (tr_phase ?tr)" by code_simp
  have ts: "[1000000, 2000000, 9000000] = own_times (tr_key ?tr) (demo_recordings @ [(9, 9, ?tr)])"
    by code_simp
  have "milliseconds (time_sub (last [1000000, 2000000, 9000000]) (hd [1000000, 2000000, 9000000])) = 8"
    by code_simp
  with downtime_within_total [OF fl fin ts, of 1] key show ?thesis
    by (auto simp: max_duration_def)
qed

section \<open>The migration reconciler\<close>

lemma web_get:
  "k_get_migration mini_kube ''ns'' ''web-1'' (w_cluster (web_at ph f kind)) =
     Inr (mn_migration (w_cluster (web_at ph f kind)))"
  by (simp add: mini_kube_def web_at_def web_world_def web_migration_def new_migration_def Let_def)

theorem pass_writes_permitted_witness:
  "list_all (write_ok (mn_migration (w_cluster (web_at Pending id ''StatefulSet''))))
     (pass_writes mini_kube (tick 2) ''ns'' ''web-1'' (web_at Pending id ''StatefulSet'')) \<and>
   pass_writes mini_kube (tick 2) ''ns'' ''web-1'' (web_at Pending id ''StatefulSet'') \<noteq> []"
proof -
  have "length (pass_writes mini_kube (tick 2) ''ns'' ''web-1'' (web_at Pending id ''StatefulSet'')) = 3"
    by code_simp
  with pass_writes_permitted [OF web_get] show ?thesis by force
qed

definition late :: "mini world" where
  "late = web_at Checkpointing id ''StatefulSet''"

definition late_tick :: mig_clock where
  "late_tick = tick 2000000000000"

theorem phase_timeout_fails_witness:
  "\<exists>m b. pass_writes mini_kube late_tick ''ns'' ''web-1'' late = [WStatus m b] \<and> phase_of m = Failed"
proof -
  let ?mig = "mn_migration (w_cluster late)"
  have get: "k_get_migration mini_kube ''ns'' ''web-1'' (w_cluster late) = Inr ?mig"
    unfolding late_def by (rule web_get)
  have mw: "k_get_workload mini_kube (mg_namespace ?mig) (ms_workload_name (mg_spec ?mig)) (w_cluster late) =
      Inr (mn_workload (w_cluster late))" by code_simp
  have facts: "\<not> being_deleted ?mig" "migration_finalizer \<in> set (mg_finalizers ?mig)"
    "phase_of ?mig \<noteq> NoPhase" "phase_of ?mig \<noteq> Completed" "phase_of ?mig \<noteq> Failed"
    "mst_last_transition_time (mg_status ?mig) = Some 1" "1 + 600000000000 < ck_expired late_tick"
    by code_simp+
  from phase_timeout_fails [OF get mw facts] show ?thesis by blast
qed

theorem failing_disarms_but_keeps_replica_witness:
  "\<exists>m b. pass_writes mini_kube late_tick ''ns'' ''web-1'' late = [WStatus m b] \<and>
     mst_completion_time (mg_status m) \<noteq> None \<and>
     flags_cleared (mn_migration (w_cluster late))
       (w_registry (after_pass mini_kube late_tick ''ns'' ''web-1'' late))"
proof -
  let ?m = "case hd (pass_writes mini_kube late_tick ''ns'' ''web-1'' late) of WStatus m b \<Rightarrow> m"
  have get: "k_get_migration mini_kube ''ns'' ''web-1'' (w_cluster late) = Inr (mn_migration (w_cluster late))"
    unfolding late_def by (rule web_get)
  have "phase_of ?m = Failed" by code_simp
  moreover have "list_all (\<lambda>x. case x of WStatus _ _ \<Rightarrow> True | _ \<Rightarrow> False)
      (pass_writes mini_kube late_tick ''ns'' ''web-1'' late)" by code_simp
  moreover have "length (pass_writes mini_kube late_tick ''ns'' ''web-1'' late) = 1" by code_simp
  ultimately obtain m b where "WStatus m b \<in> set (pass_writes mini_kube late_tick ''ns'' ''web-1'' late)"
    and "phase_of m = Failed"
    by (cases "pass_writes mini_kube late_tick ''ns'' ''web-1'' late")
       (auto split: kwrite.splits)
  from failing_disarms_but_keeps_replica [OF get this] show ?thesis by blast
qed

theorem source_deleted_last_witness:
  "armed_for (mn_migration (w_cluster (web_at Pending id ''StatefulSet'')))
     (w_registry (after_pass mini_kube (tick 2) ''ns'' ''web-1'' (web_at Pending id ''StatefulSet'')))"
proof -
  let ?w = "web_at Pending id ''StatefulSet''"
  have del: "WDeletePod (web_pod ''web-0'' ''a'' True) True \<in> set (pass_writes mini_kube (tick 2) ''ns'' ''web-1'' ?w)"
    by code_simp
  have ph: "phase_of (mn_migration (w_cluster ?w)) = Pending" by code_simp
  have "ck_agents (tick 2) = id" by (simp add: tick_def)
  with source_deleted_last [OF web_get ph del] show ?thesis by auto
qed

text \<open>The pod on the target is Ready.\<close>

definition arrived :: "mini world" where
  "arrived =
     (let w = web_at Restoring id ''StatefulSet''
      in w\<lparr>w_cluster := (w_cluster w)\<lparr>mn_pods := [web_pod ''web-0'' ''b'' True]\<rparr>\<rparr>)"

theorem completed_on_evidence_witness:
  "\<exists>m b. WStatus m b \<in> set (pass_writes mini_kube (tick 2) ''ns'' ''web-1'' arrived) \<and>
     phase_of m = Completed \<and> restore_seen mini_kube (mn_migration (w_cluster arrived)) arrived"
proof -
  let ?m = "case hd (pass_writes mini_kube (tick 2) ''ns'' ''web-1'' arrived) of WStatus m b \<Rightarrow> m"
  let ?b = "case hd (pass_writes mini_kube (tick 2) ''ns'' ''web-1'' arrived) of WStatus m b \<Rightarrow> b"
  have st: "WStatus ?m ?b \<in> set (pass_writes mini_kube (tick 2) ''ns'' ''web-1'' arrived)" by code_simp
  have ph: "phase_of ?m = Completed" by code_simp
  have get: "k_get_migration mini_kube ''ns'' ''web-1'' (w_cluster arrived) = Inr (mn_migration (w_cluster arrived))"
    by code_simp
  from completed_on_evidence [OF get st ph] st ph show ?thesis by blast
qed

theorem stored_phase_never_moves_back_witness:
  "next_phase\<^sup>*\<^sup>* NoPhase (web_phase (web_pass 2 (web_pass 1 (web_world workload_kind_stateful_set))))"
proof -
  let ?w0 = "web_world workload_kind_stateful_set"
  have "interleaved mini_kube ''ns'' ''web-1'' mn_migration ?w0 (web_pass 2 (web_pass 1 ?w0))"
    unfolding web_pass_def by (intro interleaved.pass interleaved.start)
  from stored_phase_never_moves_back [OF mini_optimistic this] show ?thesis
    by (simp add: web_phase_def)
       (simp add: web_world_def web_cluster_def web_migration_def new_migration_def zero_migration_status_def)
qed

section \<open>The coordinator\<close>

definition demo_registry :: registry where
  "demo_registry = reg_run
     [OpRegister 1 ''web-0'' ''10.0.0.1'' 2486, OpArm 2 ''web-0'' demo_info]"

definition demo_workload :: workload where
  "demo_workload =
     (web_workload ''StatefulSet'')\<lparr>mw_status := zero_workload_status\<lparr>wst_registered_pods :=
        map (\<lambda>rec. stored_pod (mirrored_pod rec))
          (filter (mirrors (web_workload ''StatefulSet'')) (list_records demo_registry))\<rparr>\<rparr>"

definition demo_cluster :: mini where
  "demo_cluster = (web_cluster ''StatefulSet'')\<lparr>mn_workload := demo_workload\<rparr>"

lemma demo_registry_inv: "reg_inv demo_registry"
  unfolding demo_registry_def by (rule reg_run_inv) simp

lemma demo_mirror: "list_all (mirror_of demo_registry) [demo_workload]"
proof -
  have "mirrors (mw\<lparr>mw_status := s\<rparr>) = mirrors mw" for mw s
    by (rule ext) (simp add: mirrors_def)
  then show ?thesis by (simp add: mirror_of_def demo_workload_def)
qed

lemma demo_list: "k_list_workloads mini_kube demo_cluster = Inr [demo_workload]"
  by (simp add: mini_kube_def demo_cluster_def)

lemma demo_lookup:
  "fmlookup demo_registry ''web-0'' = Some (the (fmlookup demo_registry ''web-0''))"
  "pr_migrating (the (fmlookup demo_registry ''web-0''))"
  "mirrors demo_workload (the (fmlookup demo_registry ''web-0''))"
  "pr_container_port (the (fmlookup demo_registry ''web-0'')) = 2486"
proof -
  have m: "mirrors demo_workload = mirrors (web_workload ''StatefulSet'')"
    by (rule ext) (simp add: mirrors_def demo_workload_def)
  show "fmlookup demo_registry ''web-0'' = Some (the (fmlookup demo_registry ''web-0''))"
    "pr_migrating (the (fmlookup demo_registry ''web-0''))"
    "pr_container_port (the (fmlookup demo_registry ''web-0'')) = 2486"
    by code_simp+
  show "mirrors demo_workload (the (fmlookup demo_registry ''web-0''))"
    unfolding m by code_simp
qed

theorem restart_recovers_registry_witness:
  "\<exists>r. fmlookup (snd (seed_registry mini_kube (\<lambda>_ _. (7, 7)) demo_cluster new_registry)) ''web-0'' = Some r \<and>
     pr_migrating r \<and> forgotten r \<and> pr_workload_name r = ''web''"
proof -
  have one: "mw_name demo_workload = ''web''" by (simp add: demo_workload_def web_workload_def legacy_workload_def)
  note recovery = restart_recovers_registry [OF demo_registry_inv demo_mirror demo_list, of "\<lambda>_ _. (7, 7)"]
  have "fmlookup (snd (seed_registry mini_kube (\<lambda>_ _. (7, 7)) demo_cluster new_registry)) ''web-0'' \<noteq> None"
    using recovery demo_lookup by fastforce
  with recovery demo_lookup(1,2) one show ?thesis by (fastforce simp: recovered_def)
qed

theorem coordinator_always_consistent_witness:
  "consistent (coord_run mini_kube web_server (\<lambda>a b. a :: int)
     (startup mini_kube (\<lambda>_ _. (7, 7)) True True 100 (web_cluster ''StatefulSet''))
     [MigrationPass (tick 1) ''ns'' ''web-1'',
      Serve \<lparr>rc_now = 1, rc_snapshot = 1, rc_downtime = (\<lambda>_. 1)\<rparr> id (Restored (Some ''web-0'')),
      WorkloadPass ''ns'' ''web''])"
  by (rule coordinator_always_consistent) (simp add: agents_ok_def tick_def)

text \<open>The pass over the pending migration arms its source pod; the request in between does not.\<close>

theorem arming_needs_a_pass_witness:
  "\<exists>xs e ys. [Serve \<lparr>rc_now = 1, rc_snapshot = 1, rc_downtime = (\<lambda>_. 1)\<rparr> id (Restored (Some ''web-0'')),
        MigrationPass (tick 2) ''ns'' ''web-1''] = xs @ e # ys \<and>
     may_turn mini_kube ''web-0'' True
       (coord_run mini_kube web_server (\<lambda>a b. a :: int) (web_at Pending id ''StatefulSet'') xs) e"
proof -
  let ?es = "[Serve \<lparr>rc_now = 1, rc_snapshot = 1, rc_downtime = (\<lambda>_. 1)\<rparr> id (Restored (Some ''web-0'')),
        MigrationPass (tick 2) ''ns'' ''web-1''] :: mini event list"
  let ?w = "web_at Pending id ''StatefulSet''"
  have ok: "list_all from_agents ?es" by (simp add: by_requests_def tick_def)
  have "\<not> armed ''web-0'' (w_registry ?w)" by code_simp
  moreover have "armed ''web-0'' (w_registry (coord_run mini_kube web_server (\<lambda>a b. a :: int) ?w ?es))"
    by code_simp
  ultimately show ?thesis
    using arming_needs_a_pass [OF ok, of "''web-0''" mini_kube web_server "\<lambda>a b. a :: int" ?w] by auto
qed

text \<open>A destination that registers for the armed pod \<open>p\<close>, while its migration is armed anew.\<close>

theorem register_answers_witness:
  "\<exists>a. body_of (fst (handle_register 5 (\<lambda>m. foldl reg_step m [OpArm 6 ''p'' (demo_info\<lparr>ai_sync_rounds := 3\<rparr>)])
          (Some (web_message ''p'' ''h'')) (reg_run demo_ops)) :: nat response) = BMessage a \<and>
     me_pod_address a = ''10.0.0.2'' \<and> me_is_mig a \<and> me_process_migration a \<and> me_sync_rounds a = 3 \<and>
     me_checkpoint_dir a = ''/c''"
proof -
  let ?mids = "[OpArm 6 ''p'' (demo_info\<lparr>ai_sync_rounds := 3\<rparr>)]" and ?msg = "web_message ''p'' ''h''"
  have n: "me_pod_name ?msg = ''p''" "me_pod_address ?msg = ''h''" "me_container_port ?msg = 0"
    by (simp_all add: web_message_def zero_message_def)
  have ok: "list_all op_ok (demo_ops @ ?mids)" by (simp add: demo_ops_def)
  have before: "map_option br_address (briefing_after ''p'' demo_ops) = Some ''10.0.0.2''" by code_simp
  have after: "briefing_after ''p'' (demo_ops @ OpRegister 5 ''p'' ''h'' 0 # ?mids) =
      Some \<lparr>br_address = ''h'', br_dir = ''/c'', br_order = Some (True, False, 3)\<rparr>" by code_simp
  from register_answers [OF ok, of 5 "Some ?msg", where 'a = nat] before after show ?thesis
    by (auto simp: n agrees_def Let_def split: prod.splits)
qed

definition demo_request :: migrate_request where
  "demo_request = \<lparr>mr_deployment = ''web'', mr_origin_node = ''a'', mr_dest_node = ''b'', mr_label = [],
     mr_workload = [], mr_namespace = ''ns'', mr_pod_name = [], mr_source_node = [], mr_target_node = []\<rparr>"

theorem migrate_creates_one_witness:
  "\<exists>pre. snd (snd (handle_migrate (spied mini_kube) web_server (Some demo_request)
            (web_cluster ''StatefulSet'', []) :: nat response \<times> _)) =
     pre @ [WCreateMigration (new_migration ''ns'' ''web'' [] ''a'' ''b'') True]"
proof -
  let ?x = "handle_migrate (spied mini_kube) web_server (Some demo_request)
    (web_cluster ''StatefulSet'', []) :: nat response \<times> (mini \<times> string kwrite list)"
  have c: "code_of (fst ?x) = 200" by code_simp
  have "?x = (Response 200 (body_of (fst ?x)), snd ?x)"
    using c by (cases ?x; cases "fst ?x") simp_all
  from migrate_creates_one [OF this] show ?thesis
    by (auto simp: demo_request_def or_else_def)
qed

theorem waits_exactly_for_the_agent_witness:
  "pass_writes mini_kube (tick 2) ''ns'' ''web-1'' late = []"
proof -
  let ?mig = "mn_migration (w_cluster late)"
  have get: "k_get_migration mini_kube ''ns'' ''web-1'' (w_cluster late) = Inr ?mig"
    unfolding late_def by (rule web_get)
  have mw: "k_get_workload mini_kube (mg_namespace ?mig) (ms_workload_name (mg_spec ?mig)) (w_cluster late) =
      Inr (mn_workload (w_cluster late))" by code_simp
  have facts: "\<not> being_deleted ?mig" "migration_finalizer \<in> set (mg_finalizers ?mig)"
    "phase_of ?mig = Checkpointing \<or> phase_of ?mig = Transferring" "\<not> phase_expired (tick 2) ?mig"
    by code_simp+
  have "\<not> awaited ?mig (mn_workload (w_cluster late)) (w_registry late)"
    by (simp add: awaited_def late_def web_at_def web_world_def get_record_def reg_simps Let_def)
  with waits_exactly_for_the_agent [OF get mw facts] show ?thesis by simp
qed

section \<open>The transfer\<close>

definition demo_header :: frame_header where
  "demo_header = \<lparr>fh_kind = kind_layer, fh_ordinal = 3, fh_name = ''u3''\<rparr>"

lemma demo_header_ok: "header_ok demo_header"
  by (simp add: header_ok_def demo_header_def frame_name_size_def)

text \<open>A handler that takes the whole payload and notes it.\<close>

definition take_all :: "(frame_header \<times> byte list) list frame_handler" where
  "take_all h p w = ((None, []), w @ [(h, p)])"

theorem frame_header_roundtrip_witness:
  "header_ok demo_header \<and> read_frame_header (header_bytes demo_header @ [1, 2]) = (Inr demo_header, [1, 2])"
  using frame_header_roundtrip [OF demo_header_ok demo_header_ok] demo_header_ok by blast

theorem dir_frame_end_to_end_witness:
  "fst (send_dir_frame 3 ''u3'' (Inr [7, 8]) (opened [ack_byte])) = None \<and>
   snd (snd (receive_frame take_all
     (opened (cn_out (snd (send_dir_frame 3 ''u3'' (Inr [7, 8]) (opened []))))) [])) =
     [(demo_header, [7, 8])]"
  using dir_frame_end_to_end [of "''u3''" 3 take_all "[7, 8]" "[]" "[]" "[(demo_header, [7, 8])]" "[]"]
  by (simp add: take_all_def demo_header_def frame_name_size_def)

lemma demo_accepts: "accepts take_all [(demo_header, [7])] [] [(demo_header, [7])]"
  using demo_header_ok by (simp add: take_all_def) (simp add: demo_header_def)

theorem transfer_complete_witness:
  "receive_all take_all (errorf ''timeout'')
     (map frame_conn [(demo_header, [7])] @ frame_conn (done_header, []) # []) [] =
   (([demo_header], None), [acked, acked], [(demo_header, [7])])"
  using transfer_complete [OF demo_accepts] by (simp add: numeral_2_eq_2)

end
