(* ===== verification/AgentIO.thy ===== *)
theory AgentIO
  imports Prelude
begin

text \<open>
  Operations of the Execution Agent as functions on a state that end with a value or an error,
  their composition, and how properties of a composition follow from those of its parts: what
  is kept however an operation ends, and triples with a postcondition for success and for errors.
\<close>

section \<open>Operations with errors\<close>

type_synonym ('a, 's) io = "'s \<Rightarrow> (go_err + 'a) \<times> 's"

definition ret :: "'a \<Rightarrow> ('a, 's) io" where
  "ret x s = (Inr x, s)"

definition throw :: "go_err \<Rightarrow> ('a, 's) io" where
  "throw e s = (Inl e, s)"

definition andthen :: "('a, 's) io \<Rightarrow> ('a \<Rightarrow> ('b, 's) io) \<Rightarrow> ('b, 's) io" where
  "andthen m f s = (case m s of (Inl e, s') \<Rightarrow> (Inl e, s') | (Inr x, s') \<Rightarrow> f x s')"

text \<open>\<open>fmt.Errorf("pre: %w", err)\<close> around the error of an operation.\<close>

definition wrapping :: "string \<Rightarrow> ('a, 's) io \<Rightarrow> ('a, 's) io" where
  "wrapping pre m s = (case m s of (Inl e, s') \<Rightarrow> (Inl (wrap_err pre e), s') | r \<Rightarrow> r)"

text \<open>The error of an operation is taken as a value; the operation itself then never fails.\<close>

definition attempt :: "('a, 's) io \<Rightarrow> (go_err + 'a, 's) io" where
  "attempt m s = (case m s of (r, s') \<Rightarrow> (Inr r, s'))"

fun for_each :: "('b \<Rightarrow> (unit, 's) io) \<Rightarrow> 'b list \<Rightarrow> (unit, 's) io" where
  "for_each f [] s = ret () s"
| "for_each f (x # xs) s = andthen (f x) (\<lambda>_. for_each f xs) s"

lemma ret_run [simp]: "ret x s = (Inr x, s)"
  by (simp add: ret_def)

lemma throw_run [simp]: "throw e s = (Inl e, s)"
  by (simp add: throw_def)

text \<open>An operation in sequence with another, by the outcome of the first.\<close>

lemma andthen_Inr: "m s = (Inr x, s') \<Longrightarrow> andthen m f s = f x s'"
  by (simp add: andthen_def)

lemma andthen_Inl: "m s = (Inl e, s') \<Longrightarrow> andthen m f s = (Inl e, s')"
  by (simp add: andthen_def)

lemma andthen_eq_Inr:
  "andthen m f s = (Inr y, s'') \<longleftrightarrow> (\<exists>x s'. m s = (Inr x, s') \<and> f x s' = (Inr y, s''))"
  by (auto simp: andthen_def split: prod.splits sum.splits)

lemma andthen_ret [simp]: "andthen (ret x) f = f x"
  by (rule ext) (simp add: andthen_def)

lemma andthen_throw [simp]: "andthen (throw e) f = throw e"
  by (rule ext) (simp add: andthen_def)

lemma andthen_assoc: "andthen (andthen m f) g = andthen m (\<lambda>x. andthen (f x) g)"
  by (rule ext) (auto simp: andthen_def split: prod.splits sum.splits)

lemma wrapping_eq_Inr [simp]: "wrapping pre m s = (Inr x, s') \<longleftrightarrow> m s = (Inr x, s')"
  by (auto simp: wrapping_def split: prod.splits sum.splits)

lemma snd_wrapping [simp]: "snd (wrapping pre m s) = snd (m s)"
  by (auto simp: wrapping_def split: prod.splits sum.splits)

lemma wrapping_eq_Inl:
  "wrapping pre m s = (Inl e, s') \<longleftrightarrow> (\<exists>e0. e = wrap_err pre e0 \<and> m s = (Inl e0, s'))"
  by (auto simp: wrapping_def split: prod.splits sum.splits)

lemma for_each_append: "for_each f (xs @ ys) = andthen (for_each f xs) (\<lambda>_. for_each f ys)"
  by (rule ext, induction xs) (simp_all add: andthen_def split: prod.splits sum.splits)

section \<open>What an operation keeps, and what it ensures\<close>

text \<open>
  \<open>keeps\<close>: a relation between the states before and after, however the operation ends.
  \<open>ensures\<close>: a triple with a postcondition for success and one for errors.
\<close>

definition keeps :: "('s \<Rightarrow> 's \<Rightarrow> bool) \<Rightarrow> ('a, 's) io \<Rightarrow> bool" where
  "keeps R m \<longleftrightarrow> (\<forall>s. R s (snd (m s)))"

definition ensures ::
    "('s \<Rightarrow> bool) \<Rightarrow> ('a, 's) io \<Rightarrow> ('a \<Rightarrow> 's \<Rightarrow> bool) \<Rightarrow> ('s \<Rightarrow> bool) \<Rightarrow> bool" where
  "ensures P m Q E \<longleftrightarrow>
     (\<forall>s x s'. P s \<longrightarrow> m s = (Inr x, s') \<longrightarrow> Q x s') \<and>
     (\<forall>s e s'. P s \<longrightarrow> m s = (Inl e, s') \<longrightarrow> E s')"

lemma ensuresI:
  "(\<And>s x s'. P s \<Longrightarrow> m s = (Inr x, s') \<Longrightarrow> Q x s') \<Longrightarrow>
   (\<And>s e s'. P s \<Longrightarrow> m s = (Inl e, s') \<Longrightarrow> E s') \<Longrightarrow> ensures P m Q E"
  by (simp add: ensures_def)

lemma ensuresD_Inr: "ensures P m Q E \<Longrightarrow> P s \<Longrightarrow> m s = (Inr x, s') \<Longrightarrow> Q x s'"
  unfolding ensures_def by blast

lemma ensuresD_Inl: "ensures P m Q E \<Longrightarrow> P s \<Longrightarrow> m s = (Inl e, s') \<Longrightarrow> E s'"
  unfolding ensures_def by blast

lemma ensures_andthen:
  assumes "ensures P m R E" and "\<And>x. ensures (R x) (f x) Q E"
  shows "ensures P (andthen m f) Q E"
proof (rule ensuresI)
  fix s y s''
  assume "P s" and "andthen m f s = (Inr y, s'')"
  then obtain x s' where "m s = (Inr x, s')" and "f x s' = (Inr y, s'')"
    by (auto simp: andthen_eq_Inr)
  with \<open>P s\<close> assms show "Q y s''" by (blast dest: ensuresD_Inr)
next
  fix s e s''
  assume "P s" and "andthen m f s = (Inl e, s'')"
  then have "m s = (Inl e, s'') \<or> (\<exists>x s'. m s = (Inr x, s') \<and> f x s' = (Inl e, s''))"
    by (auto simp: andthen_def split: prod.splits sum.splits)
  with \<open>P s\<close> assms show "E s''" by (blast dest: ensuresD_Inr ensuresD_Inl)
qed

lemma ensures_ret: "(\<And>s. P s \<Longrightarrow> Q x s) \<Longrightarrow> ensures P (ret x) Q E"
  by (simp add: ensures_def)

lemma ensures_throw: "(\<And>s. P s \<Longrightarrow> E s) \<Longrightarrow> ensures P (throw e) Q E"
  by (simp add: ensures_def)

lemma ensures_wrapping: "ensures P m Q E \<Longrightarrow> ensures P (wrapping pre m) Q E"
  by (auto simp: ensures_def wrapping_eq_Inl)

lemma ensures_weaken:
  "ensures P m Q E \<Longrightarrow> (\<And>s. P' s \<Longrightarrow> P s) \<Longrightarrow> (\<And>x s. Q x s \<Longrightarrow> Q' x s) \<Longrightarrow>
   (\<And>s. E s \<Longrightarrow> E' s) \<Longrightarrow> ensures P' m Q' E'"
  unfolding ensures_def by blast

text \<open>A reflexive and transitive relation is kept by every composition.\<close>

locale kept =
  fixes R :: "'s \<Rightarrow> 's \<Rightarrow> bool"
  assumes kept_refl: "R s s"
    and kept_trans: "R s s' \<Longrightarrow> R s' s'' \<Longrightarrow> R s s''"
begin

lemma keeps_ret: "keeps R (ret x)"
  by (simp add: keeps_def kept_refl)

lemma keeps_throw: "keeps R (throw e)"
  by (simp add: keeps_def kept_refl)

lemma keeps_andthen: "keeps R m \<Longrightarrow> (\<And>x. keeps R (f x)) \<Longrightarrow> keeps R (andthen m f)"
  unfolding keeps_def andthen_def
  by (auto split: prod.splits sum.splits intro: kept_trans) (metis kept_trans snd_conv)+

lemma keeps_wrapping: "keeps R m \<Longrightarrow> keeps R (wrapping pre m)"
  by (simp add: keeps_def)

lemma keeps_attempt: "keeps R m \<Longrightarrow> keeps R (attempt m)"
  by (auto simp: keeps_def attempt_def split: prod.splits) (metis snd_conv)

lemma keeps_for_each: "(\<And>x. keeps R (f x)) \<Longrightarrow> keeps R (for_each f xs)"
proof (induction xs)
  case Nil
  then show ?case by (simp add: keeps_def kept_refl)
next
  case (Cons x xs)
  have "for_each f (x # xs) = andthen (f x) (\<lambda>_. for_each f xs)" by (rule ext) simp
  moreover have "keeps R (andthen (f x) (\<lambda>_. for_each f xs))"
    by (rule keeps_andthen) (use Cons in auto)
  ultimately show ?case by simp
qed

end

end
