(* ===== verification/FileTree.thy ===== *)
theory FileTree
  imports AgentIO Paths "HOL-Library.Sublist"
begin

text \<open>
  A Unix file system: the nodes by their physical path, the resolution of a path through symbolic
  links, and the system calls that package \<open>os\<close> makes for the agent. The agent runs as root, so
  permissions are kept but never refuse; the owner of a file is not modelled.
\<close>

unbundle bit_operations_syntax

section \<open>Nodes\<close>

datatype special = Device | Fifo | Socket

datatype fnode =
    Dir (perm_of: int)
  | File (perm_of: int) (body: string) (mtime: instant)
  | Link (link_text: string)
  | Special special (perm_of: int)

type_synonym path = "string list"

type_synonym tree = "(path, fnode) fmap"

definition node_at :: "tree \<Rightarrow> path \<Rightarrow> fnode option" where
  "node_at t p = (if p = [] then Some (Dir 493) else fmlookup t p)"

fun is_dir :: "fnode \<Rightarrow> bool" where
  "is_dir (Dir _) = True"
| "is_dir _ = False"

definition enoent :: go_err where "enoent = GoErr NotFound ''no such file or directory''"
definition enotdir :: go_err where "enotdir = GoErr Other ''not a directory''"
definition eexist :: go_err where "eexist = GoErr Other ''file exists''"
definition eisdir :: go_err where "eisdir = GoErr Other ''is a directory''"
definition enotempty :: go_err where "enotempty = GoErr Other ''directory not empty''"
definition eloop :: go_err where "eloop = GoErr Other ''too many levels of symbolic links''"

section \<open>Resolution\<close>

text \<open>The components to walk for a path string, from the root; \<open>cwd\<close> is a physical path.\<close>

definition locate :: "path \<Rightarrow> string \<Rightarrow> path" where
  "locate cwd p = (if is_abs p then [] else cwd) @ filter (\<lambda>c. c \<noteq> []) (split_slash p)"

text \<open>
  The physical path, with at most \<open>n\<close> symbolic links on the way; a link in the last place is
  followed only if \<open>follow\<close>. Only the last component may be missing.
\<close>

function resolve :: "tree \<Rightarrow> bool \<Rightarrow> nat \<Rightarrow> path \<Rightarrow> path \<Rightarrow> go_err + path" where
  "resolve t follow n cur [] = Inr cur"
| "resolve t follow n cur (c # cs) =
     (if c = [] \<or> c = ''.'' then resolve t follow n cur cs
      else if c = ''..'' then resolve t follow n (butlast cur) cs
      else (case node_at t (cur @ [c]) of
              None \<Rightarrow> if cs = [] then Inr (cur @ [c]) else Inl enoent
            | Some (Link l) \<Rightarrow>
                if cs = [] \<and> \<not> follow then Inr (cur @ [c])
                else if n = 0 then Inl eloop
                else resolve t follow (n - 1) (if is_abs l then [] else cur) (split_slash l @ cs)
            | Some (Dir _) \<Rightarrow> resolve t follow n (cur @ [c]) cs
            | Some _ \<Rightarrow> if cs = [] then Inr (cur @ [c]) else Inl enotdir))"
  by pat_completeness auto
termination
  by (relation "measures [\<lambda>(t, follow, n, cur, todo). n, \<lambda>(t, follow, n, cur, todo). length todo]") auto

declare resolve.simps(2) [simp del]

text \<open>Linux follows at most 40 links.\<close>

definition max_links :: nat where
  "max_links = 40"

definition walk_to :: "bool \<Rightarrow> tree \<Rightarrow> path \<Rightarrow> go_err + path" where
  "walk_to follow t p = resolve t follow max_links [] p"

section \<open>System calls\<close>

definition stat_node :: "bool \<Rightarrow> path \<Rightarrow> tree \<Rightarrow> go_err + fnode" where
  "stat_node follow p t =
     (case walk_to follow t p of
        Inl e \<Rightarrow> Inl e
      | Inr q \<Rightarrow> (case node_at t q of None \<Rightarrow> Inl enoent | Some nd \<Rightarrow> Inr nd))"

text \<open>The permission bits of a new node.\<close>

definition created :: "int \<Rightarrow> int \<Rightarrow> int" where
  "created umask perm = perm AND NOT umask"

definition mkdir :: "int \<Rightarrow> int \<Rightarrow> path \<Rightarrow> tree \<Rightarrow> (go_err + unit) \<times> tree" where
  "mkdir umask perm p t =
     (case walk_to False t p of
        Inl e \<Rightarrow> (Inl e, t)
      | Inr q \<Rightarrow> if node_at t q \<noteq> None then (Inl eexist, t)
                 else (Inr (), fmupd q (Dir (created umask perm)) t))"

text \<open>\<open>os.MkdirAll\<close>.\<close>

function mkdir_all :: "int \<Rightarrow> int \<Rightarrow> path \<Rightarrow> tree \<Rightarrow> (go_err + unit) \<times> tree" where
  "mkdir_all umask perm p t =
     (case stat_node True p t of
        Inr nd \<Rightarrow> (if is_dir nd then Inr () else Inl enotdir, t)
      | Inl e \<Rightarrow>
          (if p = [] then (Inl e, t)
           else (case mkdir_all umask perm (butlast p) t of
                   (Inl e', t1) \<Rightarrow> (Inl e', t1)
                 | (Inr _, t1) \<Rightarrow>
                     (case mkdir umask perm p t1 of
                        (Inr _, t2) \<Rightarrow> (Inr (), t2)
                      | (Inl e', t2) \<Rightarrow>
                          (case stat_node False p t2 of
                             Inr nd \<Rightarrow> (if is_dir nd then Inr () else Inl e', t2)
                           | Inl _ \<Rightarrow> (Inl e', t2))))))"
  by pat_completeness auto
termination
  by (relation "measure (\<lambda>(umask, perm, p, t). length p)") auto

declare mkdir_all.simps [simp del]

text \<open>\<open>os.Remove\<close>.\<close>

definition remove_node :: "path \<Rightarrow> tree \<Rightarrow> (go_err + unit) \<times> tree" where
  "remove_node p t =
     (case walk_to False t p of
        Inl e \<Rightarrow> (Inl e, t)
      | Inr q \<Rightarrow>
          (case node_at t q of
             None \<Rightarrow> (Inl enoent, t)
           | Some nd \<Rightarrow>
               if is_dir nd \<and> (q = [] \<or> fBex (fmdom t) (\<lambda>r. strict_prefix q r)) then (Inl enotempty, t)
               else (Inr (), fmdrop q t)))"

definition make_link :: "string \<Rightarrow> path \<Rightarrow> tree \<Rightarrow> (go_err + unit) \<times> tree" where
  "make_link l p t =
     (if l = [] then (Inl enoent, t)
      else (case walk_to False t p of
              Inl e \<Rightarrow> (Inl e, t)
            | Inr q \<Rightarrow> if node_at t q \<noteq> None then (Inl eexist, t) else (Inr (), fmupd q (Link l) t)))"

text \<open>
  \<open>os.OpenFile\<close> with \<open>O_CREATE|O_TRUNC|O_WRONLY\<close>, the write of \<open>content\<close> and the close: a
  dangling link creates its target, an existing file keeps its permissions, what is written to a
  special file does not stay.
\<close>

definition write_file :: "instant \<Rightarrow> int \<Rightarrow> int \<Rightarrow> string \<Rightarrow> path \<Rightarrow> tree \<Rightarrow> (go_err + unit) \<times> tree" where
  "write_file now umask perm content p t =
     (case walk_to True t p of
        Inl e \<Rightarrow> (Inl e, t)
      | Inr q \<Rightarrow>
          (case node_at t q of
             None \<Rightarrow> (Inr (), fmupd q (File (created umask perm) content now) t)
           | Some (File m _ _) \<Rightarrow> (Inr (), fmupd q (File m content now) t)
           | Some (Dir _) \<Rightarrow> (Inl eisdir, t)
           | Some _ \<Rightarrow> (Inr (), t)))"

text \<open>\<open>os.ReadDir\<close>: names in order, each with whether it is a directory itself.\<close>

definition child_names :: "tree \<Rightarrow> path \<Rightarrow> string list" where
  "child_names t q =
     map last (sorted_list_of_fset (ffilter (\<lambda>p. p \<noteq> [] \<and> butlast p = q) (fmdom t)))"

definition read_dir :: "path \<Rightarrow> tree \<Rightarrow> go_err + (string \<times> bool) list" where
  "read_dir p t =
     (case walk_to True t p of
        Inl e \<Rightarrow> Inl e
      | Inr q \<Rightarrow>
          (case node_at t q of
             None \<Rightarrow> Inl enoent
           | Some nd \<Rightarrow>
               if is_dir nd
               then Inr (map (\<lambda>n. (n, case node_at t (q @ [n]) of Some d \<Rightarrow> is_dir d | None \<Rightarrow> False))
                          (child_names t q))
               else Inl enotdir))"

end
