(* ===== verification/AgentState.thy ===== *)
theory AgentState
  imports FileTree Frames RestApi
begin

text \<open>
  The machine an Execution Agent runs on, as far as \<open>go-agent\<close> uses it: the file system, a clock,
  the environment variables, external programs and connections, and the coordinator behind HTTP.

  Between any two calls of the agent anything else may happen, and every call may fail: the state
  holds a script of outcomes, one for each call, each with the time it takes, what others (the
  application, the mounts, the coordinator) change in the meantime, and the error of the call if
  it fails. When the script is used up, calls succeed at once and nothing interferes.
\<close>

section \<open>State\<close>

text \<open>
  What leaves the agent, in order, each with whether it succeeded: a port listened on, a program run,
  a frame sent to another agent (with the entries of its archive), a request to the coordinator, the replacement
  of the process by another program.
\<close>

datatype typeflag = TypeReg | TypeDir | TypeSymlink | TypeOther

record tar_entry =
  te_name :: string
  te_type :: typeflag
  te_mode :: int
  te_link :: string
  te_body :: string
  te_error :: "go_err option"

datatype action =
    Listen int
  | RunProgram "string list"
  | SendFrame string frame_header "tar_entry list"
  | PostRegister message
  | PostRemove string
  | PostCopy string string int
  | ExecProgram "string list"

text \<open>The states of a DMTCP handler.\<close>

datatype checkpoint_state =
    StateIdle | StateRunning | StateCheckpoint | StateCheckpointed | StateRestoring | StateError

record outcome =
  oc_elapsed :: nat
  oc_meanwhile :: "tree \<times> registry \<Rightarrow> tree \<times> registry"
  oc_error :: "go_err option"

record agent =
  a_tree :: tree
  a_cwd :: path
  a_umask :: int
  a_env :: "string \<Rightarrow> string"
  a_clock :: instant
  a_registry :: registry
  a_log :: "(action \<times> bool) list"
  a_level :: int
  a_state :: checkpoint_state
  a_script :: "outcome list"

section \<open>Calls\<close>

definition elapse :: "outcome \<Rightarrow> agent \<Rightarrow> agent" where
  "elapse oc a =
     (case oc_meanwhile oc (a_tree a, a_registry a) of
        (t, m) \<Rightarrow> a\<lparr>a_tree := t, a_registry := m, a_clock := a_clock a + int (oc_elapsed oc)\<rparr>)"

text \<open>The start of a call: what happened in the meantime, and whether the call fails.\<close>

definition next_outcome :: "agent \<Rightarrow> go_err option \<times> agent" where
  "next_outcome a =
     (case a_script a of
        [] \<Rightarrow> (None, a)
      | oc # rest \<Rightarrow> (oc_error oc, elapse oc (a\<lparr>a_script := rest\<rparr>)))"

text \<open>A call that reads the file system, one that changes it.\<close>

definition reading :: "(tree \<Rightarrow> go_err + 'a) \<Rightarrow> ('a, agent) io" where
  "reading f a =
     (case next_outcome a of
        (Some e, b) \<Rightarrow> (Inl e, b)
      | (None, b) \<Rightarrow> (f (a_tree b), b))"

definition changing :: "(agent \<Rightarrow> tree \<Rightarrow> (go_err + unit) \<times> tree) \<Rightarrow> (unit, agent) io" where
  "changing f a =
     (case next_outcome a of
        (Some e, b) \<Rightarrow> (Inl e, b)
      | (None, b) \<Rightarrow> (case f b (a_tree b) of (r, t) \<Rightarrow> (r, b\<lparr>a_tree := t\<rparr>)))"

text \<open>Something that leaves the agent.\<close>

definition perform :: "action \<Rightarrow> (unit, agent) io" where
  "perform act a =
     (case next_outcome a of
        (Some e, b) \<Rightarrow> (Inl e, b\<lparr>a_log := a_log b @ [(act, False)]\<rparr>)
      | (None, b) \<Rightarrow> (Inr (), b\<lparr>a_log := a_log b @ [(act, True)]\<rparr>))"

text \<open>
  \<open>utils.PostJSON\<close>: a request to the coordinator. The body is what an answer with a status of
  success carries; any other status is an error.
\<close>

definition post ::
    "string \<Rightarrow> action \<Rightarrow> (agent \<Rightarrow> registry \<Rightarrow> nat response \<times> registry) \<Rightarrow> (nat body, agent) io" where
  "post url act handler a =
     (case next_outcome a of
        (Some e, b) \<Rightarrow> (Inl (wrap_err (''http post '' @ url) e), b\<lparr>a_log := a_log b @ [(act, False)]\<rparr>)
      | (None, b) \<Rightarrow>
          (case handler b (a_registry b) of
             (Response code answer, m) \<Rightarrow>
               (let ok = (200 \<le> code \<and> code < 300);
                    b' = b\<lparr>a_registry := m, a_log := a_log b @ [(act, ok)]\<rparr>
                in if ok then (Inr answer, b')
                   else (Inl (errorf (url @ '' returned HTTP '' @ itoa (int code))), b'))))"

definition get_env :: "string \<Rightarrow> agent \<Rightarrow> string" where
  "get_env name a = a_env a name"

text \<open>The path an argument of a call stands for.\<close>

definition located :: "agent \<Rightarrow> string \<Rightarrow> path" where
  "located a p = locate (a_cwd a) p"

definition os_stat :: "string \<Rightarrow> (fnode, agent) io" where
  "os_stat p a = reading (stat_node True (located a p)) a"

definition os_read_dir :: "string \<Rightarrow> ((string \<times> bool) list, agent) io" where
  "os_read_dir p a = reading (read_dir (located a p)) a"

definition os_mkdir_all :: "string \<Rightarrow> int \<Rightarrow> (unit, agent) io" where
  "os_mkdir_all p perm a = changing (\<lambda>b. mkdir_all (a_umask b) perm (located b p)) a"

definition os_remove :: "string \<Rightarrow> (unit, agent) io" where
  "os_remove p a = changing (\<lambda>b. remove_node (located b p)) a"

definition os_symlink :: "string \<Rightarrow> string \<Rightarrow> (unit, agent) io" where
  "os_symlink l p a = changing (\<lambda>b. make_link l (located b p)) a"

definition os_write_file :: "string \<Rightarrow> int \<Rightarrow> string \<Rightarrow> (unit, agent) io" where
  "os_write_file p perm content a =
     changing (\<lambda>b. write_file (a_clock b) (a_umask b) perm content (located b p)) a"

section \<open>What every call keeps\<close>

text \<open>The log only grows; the settings of the process stay; time passes forwards.\<close>

definition proceeds :: "agent \<Rightarrow> agent \<Rightarrow> bool" where
  "proceeds a b \<longleftrightarrow>
     prefix (a_log a) (a_log b) \<and> a_cwd b = a_cwd a \<and> a_umask b = a_umask a \<and> a_env b = a_env a \<and>
     a_clock a \<le> a_clock b \<and> suffix (a_script b) (a_script a)"

interpretation progress: kept proceeds
  by unfold_locales (auto simp: proceeds_def intro: prefix_order.order_trans suffix_order.order_trans)

lemma elapse_fields [simp]:
  "a_log (elapse oc a) = a_log a" "a_cwd (elapse oc a) = a_cwd a" "a_umask (elapse oc a) = a_umask a"
  "a_env (elapse oc a) = a_env a" "a_level (elapse oc a) = a_level a"
  "a_state (elapse oc a) = a_state a" "a_script (elapse oc a) = a_script a"
  "a_clock (elapse oc a) = a_clock a + int (oc_elapsed oc)"
  by (simp_all add: elapse_def split: prod.split)

lemma next_outcome_fields:
  assumes "next_outcome a = (r, b)"
  shows "a_log b = a_log a" and "a_level b = a_level a" and "a_state b = a_state a"
    and "proceeds a b"
  using assms
  by (auto simp: next_outcome_def proceeds_def suffix_def split: list.splits)

lemma proceeds_after:
  "proceeds a b \<Longrightarrow> proceeds a (b\<lparr>a_tree := t\<rparr>)"
  "proceeds a b \<Longrightarrow> proceeds a (b\<lparr>a_registry := m\<rparr>)"
  "proceeds a b \<Longrightarrow> proceeds a (b\<lparr>a_state := st\<rparr>)"
  "proceeds a b \<Longrightarrow> proceeds a (b\<lparr>a_level := n\<rparr>)"
  "proceeds a b \<Longrightarrow> proceeds a (b\<lparr>a_log := a_log b @ l\<rparr>)"
  by (simp_all add: proceeds_def)

text \<open>The calls keep it, and so does what is composed of them.\<close>

named_theorems proceeding \<open>operations that keep proceeds\<close>

lemma keeps_reading [proceeding]: "keeps proceeds (reading f)"
  unfolding keeps_def reading_def
  by (auto dest: next_outcome_fields(4) split: prod.split option.split)

lemma keeps_changing [proceeding]: "keeps proceeds (changing f)"
  unfolding keeps_def changing_def
  by (auto dest: next_outcome_fields(4) intro: proceeds_after split: prod.split option.split)

lemma keeps_perform [proceeding]: "keeps proceeds (perform act)"
  unfolding keeps_def perform_def
  by (auto dest: next_outcome_fields(4) intro: proceeds_after split: prod.split option.split)

lemma keeps_post [proceeding]: "keeps proceeds (post url act handler)"
  unfolding keeps_def post_def
  by (auto simp: Let_def proceeds_def dest!: next_outcome_fields(4)
      split: prod.split option.split response.split)

lemma keeps_os [proceeding]:
  "keeps proceeds (os_stat p)" "keeps proceeds (os_read_dir p)"
  "keeps proceeds (os_mkdir_all p perm)" "keeps proceeds (os_remove p)"
  "keeps proceeds (os_symlink l p)" "keeps proceeds (os_write_file p perm content)"
  using keeps_reading keeps_changing unfolding keeps_def
  by (auto simp: os_stat_def os_read_dir_def os_mkdir_all_def os_remove_def
      os_symlink_def os_write_file_def)

lemmas keeps_proceeds =
  progress.keeps_ret progress.keeps_throw progress.keeps_andthen progress.keeps_wrapping
  progress.keeps_attempt progress.keeps_for_each

declare keeps_proceeds [proceeding]

lemma keeps_run: "keeps R m \<Longrightarrow> m a = (r, b) \<Longrightarrow> R a b"
  by (metis keeps_def snd_conv)

lemma proceeds_clock: "proceeds a b \<Longrightarrow> a_clock a \<le> a_clock b"
  by (simp add: proceeds_def)

lemma next_outcome_quiet [simp]: "a_script a = [] \<Longrightarrow> next_outcome a = (None, a)"
  by (simp add: next_outcome_def)

end
