(* ===== verification/Archive.thy ===== *)
theory Archive
  imports AgentState FrameTransfer
begin

text \<open>
  The archives that carry layers and checkpoint files (\<open>ExtractTarGz\<close>, \<open>tarDir\<close>, and the senders
  on top of the frames in \<open>go-agent/utils/transfer.go\<close>). An archive is the list of its tar
  entries; its bytes (\<open>archive/tar\<close> and \<open>compress/gzip\<close>) are an argument in FrameTransfer.
\<close>

section \<open>Writing an archive\<close>

text \<open>\<open>tar.FileInfoHeader\<close> with the name set afterwards, and the contents of a regular file.\<close>

definition entry_of :: "string \<Rightarrow> fnode \<Rightarrow> go_err + tar_entry" where
  "entry_of name nd =
     (let e = \<lparr>te_name = name, te_type = TypeOther, te_mode = 0, te_link = [], te_body = [],
               te_error = None\<rparr>
      in case nd of
           Dir m \<Rightarrow> Inr (e\<lparr>te_type := TypeDir, te_mode := m\<rparr>)
         | File m c _ \<Rightarrow> Inr (e\<lparr>te_type := TypeReg, te_mode := m, te_body := c\<rparr>)
         | Link l \<Rightarrow> Inr (e\<lparr>te_type := TypeSymlink, te_mode := 511, te_link := l\<rparr>)
         | Special k m \<Rightarrow>
             if k = Socket then Inl (errorf ''archive/tar: sockets not supported'')
             else Inr (e\<lparr>te_mode := m\<rparr>))"

text \<open>
  \<open>filepath.Walk\<close> visits what is below a directory in lexical order, without following links,
  and stops at the first error.
\<close>

definition walk_below :: "tree \<Rightarrow> path \<Rightarrow> path list" where
  "walk_below t q = sorted_list_of_fset (ffilter (strict_prefix q) (fmdom t))"

fun tar_walk :: "tree \<Rightarrow> path \<Rightarrow> path list \<Rightarrow> go_err + tar_entry list" where
  "tar_walk t root [] = Inr []"
| "tar_walk t root (p # ps) =
     (case node_at t p of
        None \<Rightarrow> Inl enoent
      | Some nd \<Rightarrow>
          (case entry_of (join_slash (drop (length root) p)) nd of
             Inl e \<Rightarrow> Inl e
           | Inr te \<Rightarrow> (case tar_walk t root ps of Inl e \<Rightarrow> Inl e | Inr tes \<Rightarrow> Inr (te # tes))))"

definition tar_dir :: "path \<Rightarrow> tree \<Rightarrow> go_err + tar_entry list" where
  "tar_dir dir t =
     (case walk_to False t dir of
        Inl e \<Rightarrow> Inl e
      | Inr root \<Rightarrow>
          (case node_at t root of
             None \<Rightarrow> Inl enoent
           | Some nd \<Rightarrow> if is_dir nd then tar_walk t root (walk_below t root) else Inr []))"

section \<open>Reading an archive\<close>

text \<open>
  What the stream of a frame decompresses to: entries, each with the error that cut its body off
  if any, and the error after the last one if the archive does not end there.
\<close>

datatype payload = BadGzip go_err | Archive "tar_entry list" "go_err option"

text \<open>\<open>filepath.Dir\<close>.\<close>

definition path_dir :: "string \<Rightarrow> string" where
  "path_dir p = path_clean (rev (dropWhile (\<lambda>c. c \<noteq> CHR ''/'') (rev p)))"

definition perm_bits :: "int \<Rightarrow> int" where
  "perm_bits mode = mode mod 512"

definition make_parent :: "string \<Rightarrow> (unit, agent) io" where
  "make_parent tgt = wrapping (''mkdir parent of '' @ tgt) (os_mkdir_all (path_dir tgt) 493)"

text \<open>
  One entry. What is not a directory or a symbolic link becomes a regular file. A failing write or
  close is reported with the text of a failing open.
\<close>

definition extract_entry :: "string \<Rightarrow> tar_entry \<Rightarrow> (unit, agent) io" where
  "extract_entry dest e =
     (case safe_join dest (te_name e) of
        Inl err \<Rightarrow> throw err
      | Inr tgt \<Rightarrow>
          (case te_type e of
             TypeDir \<Rightarrow> wrapping (''mkdir '' @ tgt) (os_mkdir_all tgt (perm_bits (te_mode e)))
           | TypeSymlink \<Rightarrow>
               andthen (make_parent tgt) (\<lambda>_.
               andthen (attempt (os_remove tgt)) (\<lambda>_.
               wrapping (''symlink '' @ tgt) (os_symlink (te_link e) tgt)))
           | _ \<Rightarrow>
               andthen (make_parent tgt) (\<lambda>_.
               andthen (wrapping (''create '' @ tgt)
                          (os_write_file tgt (perm_bits (te_mode e)) (te_body e))) (\<lambda>_.
               case te_error e of
                 None \<Rightarrow> ret ()
               | Some err \<Rightarrow> throw (wrap_err (''write '' @ tgt) err)))))"

definition extract_tar_gz :: "payload \<Rightarrow> string \<Rightarrow> (unit, agent) io" where
  "extract_tar_gz pl dest =
     andthen (wrapping (''mkdir '' @ dest) (os_mkdir_all dest 493)) (\<lambda>_.
     case pl of
       BadGzip e \<Rightarrow> throw (wrap_err ''gzip reader'' e)
     | Archive es end_err \<Rightarrow>
         andthen (for_each (extract_entry dest) es) (\<lambda>_.
         case end_err of None \<Rightarrow> ret () | Some e \<Rightarrow> throw (wrap_err ''tar next'' e)))"

section \<open>Sending\<close>

text \<open>\<open>net.DialTimeout\<close>: a call that may fail.\<close>

definition dial :: "string \<Rightarrow> (unit, agent) io" where
  "dial addr = wrapping (''dial '' @ addr) (reading (\<lambda>_. Inr ()))"

text \<open>
  One frame over a fresh connection: the header if it can be written, the archive, and the wait
  for the acknowledgement. The exchange on the connection is one call (theory FrameTransfer has
  its bytes).
\<close>

definition send_frame :: "string \<Rightarrow> frame_header \<Rightarrow> (tar_entry list, agent) io \<Rightarrow> (unit, agent) io" where
  "send_frame addr h archive =
     (case write_frame_header h of
        Inl e \<Rightarrow> throw (wrap_err ''write header'' e)
      | Inr _ \<Rightarrow> andthen archive (\<lambda>es. perform (SendFrame addr h es)))"

definition send_dir :: "string \<Rightarrow> int \<Rightarrow> string \<Rightarrow> string \<Rightarrow> (unit, agent) io" where
  "send_dir addr ordinal name dir =
     andthen (dial addr) (\<lambda>_.
     send_frame addr \<lparr>fh_kind = kind_layer, fh_ordinal = ordinal, fh_name = name\<rparr>
       (wrapping (''tar '' @ dir) (\<lambda>a. reading (tar_dir (located a dir)) a)))"

text \<open>The archive of a single file: a directory cannot be copied into it.\<close>

definition file_archive :: "string \<Rightarrow> fnode \<Rightarrow> (tar_entry list, agent) io" where
  "file_archive path nd =
     (case entry_of (path_base path) nd of
        Inl e \<Rightarrow> throw (wrap_err (''tar header '' @ path) e)
      | Inr te \<Rightarrow> if is_dir nd then throw (wrap_err (''copy '' @ path) eisdir) else ret [te])"

definition send_checkpoint_file :: "string \<Rightarrow> string \<Rightarrow> (unit, agent) io" where
  "send_checkpoint_file addr path =
     andthen (dial addr) (\<lambda>_.
     andthen (wrapping (''stat '' @ path) (os_stat path)) (\<lambda>nd.
     send_frame addr \<lparr>fh_kind = kind_checkpoint_file, fh_ordinal = 0, fh_name = path_base path\<rparr>
       (file_archive path nd)))"

definition send_done :: "string \<Rightarrow> (unit, agent) io" where
  "send_done addr =
     andthen (dial addr) (\<lambda>_. send_frame addr \<lparr>fh_kind = kind_done, fh_ordinal = 0, fh_name = []\<rparr> (ret []))"

end
