(* ===== verification/AgentEnv.thy ===== *)
theory AgentEnv
  imports NetAddr
begin

text \<open>
  The settings an Execution Agent reads from its environment (\<open>go-agent/utils/system.go\<close> and
  \<open>TransferPort\<close> in \<open>transfer.go\<close>), with \<open>strings.TrimSpace\<close>, \<open>strings.Fields\<close> and
  \<open>strings.ToLower\<close>. An environment gives the empty string for a variable that is not set.
\<close>

section \<open>White space\<close>

text \<open>The UTF-8 encodings of the characters of \<open>unicode.White_Space\<close>.\<close>

definition spaces :: "string list" where
  "spaces = map (\<lambda>n. [char_of n]) [9, 10, 11, 12, 13, 32 :: nat] @
     [[CHR 0xC2, CHR 0x85], [CHR 0xC2, CHR 0xA0], [CHR 0xE1, CHR 0x9A, CHR 0x80]] @
     map (\<lambda>n. [CHR 0xE2, CHR 0x80, char_of n]) ([128..<139 :: nat] @ [168, 169, 175]) @
     [[CHR 0xE2, CHR 0x81, CHR 0x9F], [CHR 0xE3, CHR 0x80, CHR 0x80]]"

definition space_prefix :: "string \<Rightarrow> string option" where
  "space_prefix s = find (has_prefix s) spaces"

lemma space_prefix_length: "space_prefix s = Some p \<Longrightarrow> 0 < length p \<and> length p \<le> length s"
proof -
  assume "space_prefix s = Some p"
  then have p: "p \<in> set spaces" "has_prefix s p" by (auto simp: space_prefix_def find_Some_iff)
  then have "p \<noteq> []" by (auto simp: spaces_def)
  moreover have "length p \<le> length s"
    using arg_cong [OF p(2) [unfolded has_prefix_def], of length] by simp
  ultimately show ?thesis by simp
qed

lemma space_prefix_shorter: "space_prefix s = Some p \<Longrightarrow> length s - length p < length s"
  using space_prefix_length [of s p] by arith

function trim_left_space :: "string \<Rightarrow> string" where
  "trim_left_space s =
     (case space_prefix s of None \<Rightarrow> s | Some p \<Rightarrow> trim_left_space (drop (length p) s))"
  by pat_completeness auto
termination by (relation "measure length") (auto dest: space_prefix_shorter)

declare trim_left_space.simps [simp del]

function trim_right_space :: "string \<Rightarrow> string" where
  "trim_right_space s =
     (case find (\<lambda>p. drop (length s - length p) s = p) spaces of
        None \<Rightarrow> s
      | Some p \<Rightarrow> trim_right_space (take (length s - length p) s))"
  by pat_completeness auto
termination
proof (relation "measure length")
  fix s p
  assume "find (\<lambda>p. drop (length s - length p) s = p) spaces = Some p"
  then have p: "p \<in> set spaces" "drop (length s - length p) s = p" by (auto simp: find_Some_iff)
  then have "p \<noteq> []" by (auto simp: spaces_def)
  then have "0 < length p" by simp
  moreover have "length p \<le> length s" using arg_cong [OF p(2), of length] by simp
  ultimately have "length s - length p < length s" by arith
  then show "(take (length s - length p) s, s) \<in> measure length" by simp
qed simp

declare trim_right_space.simps [simp del]

definition trim_space :: "string \<Rightarrow> string" where
  "trim_space s = trim_right_space (trim_left_space s)"

text \<open>\<open>strings.Fields\<close>.\<close>

fun take_word :: "string \<Rightarrow> string \<times> string" where
  "take_word [] = ([], [])"
| "take_word (c # s) =
     (if space_prefix (c # s) \<noteq> None then ([], c # s)
      else (case take_word s of (w, r) \<Rightarrow> (c # w, r)))"

lemma take_word_append: "take_word s = (w, r) \<Longrightarrow> s = w @ r"
  by (induction s arbitrary: w r) (auto split: if_splits prod.splits)

lemma trim_left_space_length: "length (trim_left_space s) \<le> length s"
proof (induction s rule: trim_left_space.induct)
  case (1 s)
  then show ?case by (cases "space_prefix s") (auto simp: trim_left_space.simps [of s] intro: order.trans)
qed

lemma trim_left_space_stop: "space_prefix (trim_left_space s) = None"
proof (induction s rule: trim_left_space.induct)
  case (1 s)
  then show ?case by (cases "space_prefix s") (auto simp: trim_left_space.simps [of s])
qed

function string_fields :: "string \<Rightarrow> string list" where
  "string_fields s =
     (let t = trim_left_space s in
      if t = [] then [] else (case take_word t of (w, r) \<Rightarrow> w # string_fields r))"
  by pat_completeness auto
termination
proof (relation "measure length")
  fix s t w r :: string
  assume t: "t = trim_left_space s" and ne: "t \<noteq> []" and x: "(w, r) = take_word t"
  obtain c u where cu: "t = c # u" using ne by (cases t) auto
  have "space_prefix t = None" using trim_left_space_stop t by simp
  then have "length r < length t"
    using x cu take_word_append [of u] by (auto split: prod.splits)
  with trim_left_space_length [of s] t show "(r, s) \<in> measure length" by simp
qed simp

declare string_fields.simps [simp del]

section \<open>Lower case\<close>

text \<open>
  \<open>strings.ToLower\<close> on the letters of ASCII. Only two other characters have an ASCII letter as
  their lower case (\<open>U+0130\<close> gives i, \<open>U+212A\<close> gives k), and neither letter is in a word that
  \<open>EnvBool\<close> compares with.
\<close>

definition lower_char :: "char \<Rightarrow> char" where
  "lower_char c = (let n = (of_char c :: nat) in if 65 \<le> n \<and> n \<le> 90 then char_of (n + 32) else c)"

definition to_lower :: "string \<Rightarrow> string" where
  "to_lower s = map lower_char s"

section \<open>Variables\<close>

definition env_bool :: "(string \<Rightarrow> string) \<Rightarrow> string \<Rightarrow> bool \<Rightarrow> bool" where
  "env_bool env name dflt =
     (let v = to_lower (trim_space (env name)) in
      if v \<in> {''1'', ''t'', ''true'', ''yes'', ''y'', ''on''} then True
      else if v \<in> {''0'', ''f'', ''false'', ''no'', ''n'', ''off''} then False
      else dflt)"

definition env_int :: "(string \<Rightarrow> string) \<Rightarrow> string \<Rightarrow> int \<Rightarrow> int" where
  "env_int env name dflt =
     (if env name = [] then dflt
      else (case atoi (env name) of
              None \<Rightarrow> dflt
            | Some v \<Rightarrow> if v \<le> 0 \<or> 65535 < v then dflt else v))"

definition env_or :: "(string \<Rightarrow> string) \<Rightarrow> string \<Rightarrow> string \<Rightarrow> string" where
  "env_or env name dflt = (if env name \<noteq> [] then env name else dflt)"

definition process_migration_setting :: "(string \<Rightarrow> string) \<Rightarrow> bool" where
  "process_migration_setting env = env_bool env ''ENABLE_PROCESS_MIGRATION'' True"

definition volume_migration_setting :: "(string \<Rightarrow> string) \<Rightarrow> bool" where
  "volume_migration_setting env = env_bool env ''ENABLE_VOLUME_MIGRATION'' True"

definition agent_transfer_port :: int where
  "agent_transfer_port = 2486"

definition transfer_port :: "(string \<Rightarrow> string) \<Rightarrow> int" where
  "transfer_port env = env_int env ''CONTAINER_PORT'' agent_transfer_port"

lemma env_int_range:
  "0 < dflt \<Longrightarrow> dflt \<le> 65535 \<Longrightarrow> 0 < env_int env name dflt \<and> env_int env name dflt \<le> 65535"
  by (auto simp: env_int_def split: option.split)

lemma transfer_port_range: "0 < transfer_port env \<and> transfer_port env \<le> 65535"
  unfolding transfer_port_def by (rule env_int_range) (simp_all add: agent_transfer_port_def)

lemma env_int_set: "0 < v \<Longrightarrow> v \<le> 65535 \<Longrightarrow> env name = itoa v \<Longrightarrow> env_int env name dflt = v"
proof -
  assume v: "0 < v" "v \<le> 65535" "env name = itoa v"
  have "itoa v \<noteq> []" using atoi_itoa [of v] v by (auto simp: in_i64_def atoi_def)
  with v show ?thesis by (simp add: env_int_def atoi_itoa in_i64_def)
qed

end
