(* ===== verification/Overlay.thy ===== *)
theory Overlay
  imports Archive AgentEnv
begin

text \<open>
  The layer manager of the volume (\<open>go-agent/overlay/volume.go\<close>, \<open>layers.go\<close>). Its current level
  is the agent's \<open>a_level\<close>. Mounting is running a program: what the kernel then shows in the file
  system is a change between two calls.
\<close>

section \<open>Running programs\<close>

text \<open>
  \<open>utils.Run\<close> and \<open>ExecRunner\<close>: the arguments are joined with spaces and split again. The error
  text also quotes the standard error of the program, which is part of the error here.
\<close>

fun join_with :: "string \<Rightarrow> string list \<Rightarrow> string" where
  "join_with sep [] = []"
| "join_with sep [s] = s"
| "join_with sep (s # ss) = s @ sep @ join_with sep ss"

definition run_command :: "string \<Rightarrow> string \<Rightarrow> (unit, agent) io" where
  "run_command command args =
     wrapping (command @ '' '' @ args) (perform (RunProgram (command # string_fields args)))"

definition exec_runner :: "string \<Rightarrow> string list \<Rightarrow> (unit, agent) io" where
  "exec_runner name args = run_command name (join_with '' '' args)"

section \<open>The layer manager\<close>

record layer_manager =
  lm_data_dir :: string
  lm_root_dir :: string

definition new_layer_manager :: "string \<Rightarrow> string \<Rightarrow> layer_manager" where
  "new_layer_manager data root =
     \<lparr>lm_data_dir = (if data = [] then ''/data'' else data), lm_root_dir = root\<rparr>"

definition get_level :: "(int, agent) io" where
  "get_level a = (Inr (a_level a), a)"

definition set_level :: "int \<Rightarrow> (unit, agent) io" where
  "set_level n a = (Inr (), a\<lparr>a_level := n\<rparr>)"

definition lm_dir :: "layer_manager \<Rightarrow> string \<Rightarrow> int \<Rightarrow> string" where
  "lm_dir lm pre n = path_join (lm_data_dir lm) (pre @ itoa n)"

definition sent_marker :: "layer_manager \<Rightarrow> int \<Rightarrow> string" where
  "sent_marker lm n = path_join (lm_data_dir lm) (''.sent_'' @ itoa n)"

text \<open>The ordinals of the directories with a prefix.\<close>

definition ordinal_of :: "string \<Rightarrow> string \<times> bool \<Rightarrow> int option" where
  "ordinal_of pre = (\<lambda>(name, isdir).
     if \<not> isdir \<or> \<not> has_prefix name pre then None
     else (case atoi (drop (length pre) name) of
             None \<Rightarrow> None
           | Some n \<Rightarrow> if n \<le> 0 then None else Some n))"

definition numbered_dirs :: "layer_manager \<Rightarrow> string \<Rightarrow> (int list, agent) io" where
  "numbered_dirs lm pre =
     andthen (attempt (os_read_dir (lm_data_dir lm))) (\<lambda>r.
     case r of
       Inl e \<Rightarrow> if kind_of e = NotFound then ret [] else throw e
     | Inr entries \<Rightarrow> ret (sort (List.map_filter (ordinal_of pre) entries)))"

definition is_sent :: "layer_manager \<Rightarrow> int \<Rightarrow> (bool, agent) io" where
  "is_sent lm n =
     andthen (attempt (os_stat (sent_marker lm n))) (\<lambda>r. ret (case r of Inl _ \<Rightarrow> False | Inr _ \<Rightarrow> True))"

definition mark_sent :: "layer_manager \<Rightarrow> int \<Rightarrow> (unit, agent) io" where
  "mark_sent lm n =
     wrapping (''mark layer '' @ itoa n @ '' sent'') (os_write_file (sent_marker lm n) 420 [])"

definition mk_level_dirs :: "layer_manager \<Rightarrow> int \<Rightarrow> (unit, agent) io" where
  "mk_level_dirs lm level =
     for_each (\<lambda>p. wrapping (''mkdir '' @ lm_dir lm p level) (os_mkdir_all (lm_dir lm p level) 493))
       [''u'', ''w'', ''o'']"

definition overlay_options :: "layer_manager \<Rightarrow> int \<Rightarrow> string \<Rightarrow> string" where
  "overlay_options lm level lowerdir =
     ''lowerdir='' @ lowerdir @ '',upperdir='' @ lm_dir lm ''u'' level @
     '',workdir='' @ lm_dir lm ''w'' level"

definition mount_level :: "layer_manager \<Rightarrow> int \<Rightarrow> string \<Rightarrow> (unit, agent) io" where
  "mount_level lm level lowerdir =
     wrapping (''mount overlay level '' @ itoa level)
       (exec_runner ''mount'' [''-t'', ''overlay'', ''overlay'', ''-o'',
          overlay_options lm level lowerdir, lm_dir lm ''o'' level])"

definition bind_level :: "layer_manager \<Rightarrow> int \<Rightarrow> (unit, agent) io" where
  "bind_level lm level =
     wrapping (''bind '' @ lm_dir lm ''o'' level @ '' over '' @ lm_root_dir lm)
       (exec_runner ''mount'' [''--bind'', lm_dir lm ''o'' level, lm_root_dir lm])"

definition unbind_root :: "layer_manager \<Rightarrow> (unit, agent) io" where
  "unbind_root lm =
     wrapping (''unbind '' @ lm_root_dir lm) (exec_runner ''umount'' [''-l'', lm_root_dir lm])"

definition unmount_level :: "layer_manager \<Rightarrow> int \<Rightarrow> (unit, agent) io" where
  "unmount_level lm n =
     wrapping (''unmount level '' @ itoa n) (exec_runner ''umount'' [''-l'', lm_dir lm ''o'' n])"

section \<open>The five methods\<close>

definition discover :: "layer_manager \<Rightarrow> (unit, agent) io" where
  "discover lm =
     andthen (numbered_dirs lm ''u'') (\<lambda>uppers.
     set_level (if uppers = [] then 0 else last uppers))"

definition lower_option :: "layer_manager \<Rightarrow> int list \<Rightarrow> string" where
  "lower_option lm lowers =
     (if lowers = [] then lm_root_dir lm else join_with '':'' (map (lm_dir lm ''l'') (rev lowers)))"

definition init_volume :: "layer_manager \<Rightarrow> (unit, agent) io" where
  "init_volume lm =
     andthen (wrapping ''list lower layers'' (numbered_dirs lm ''l'')) (\<lambda>lowers.
     andthen get_level (\<lambda>current.
     let level = current + 1 in
     andthen (mk_level_dirs lm level) (\<lambda>_.
     andthen (mount_level lm level (lower_option lm lowers)) (\<lambda>_.
     andthen (bind_level lm level) (\<lambda>_.
     set_level level)))))"

definition create_checkpoint :: "layer_manager \<Rightarrow> (int, agent) io" where
  "create_checkpoint lm =
     andthen get_level (\<lambda>frozen.
     if frozen = 0 then throw (errorf ''volume not initialised (call InitVolume first)'')
     else
       let level = frozen + 1 in
       andthen (mk_level_dirs lm level) (\<lambda>_.
       andthen (mount_level lm level (lm_dir lm ''o'' frozen)) (\<lambda>_.
       andthen (unbind_root lm) (\<lambda>_.
       andthen (bind_level lm level) (\<lambda>_.
       andthen (set_level level) (\<lambda>_.
       ret frozen))))))"

definition send_layer :: "layer_manager \<Rightarrow> string \<Rightarrow> string \<Rightarrow> int \<Rightarrow> (unit, agent) io" where
  "send_layer lm what dest n =
     andthen (wrapping (''send '' @ what @ '' '' @ itoa n)
       (send_dir dest n (''u'' @ itoa n) (lm_dir lm ''u'' n))) (\<lambda>_.
     mark_sent lm n)"

definition copy_layer :: "layer_manager \<Rightarrow> string \<Rightarrow> int \<Rightarrow> (unit, agent) io" where
  "copy_layer lm dest n =
     andthen get_level (\<lambda>level.
     if level \<le> n then ret ()
     else andthen (is_sent lm n) (\<lambda>sent. if sent then ret () else send_layer lm ''layer'' dest n))"

definition copy_checkpoint :: "layer_manager \<Rightarrow> string \<Rightarrow> (unit, agent) io" where
  "copy_checkpoint lm dest =
     (if dest = [] then throw (errorf ''no destination address'')
      else
        andthen (wrapping ''list upper layers'' (numbered_dirs lm ''u'')) (\<lambda>uppers.
        for_each (copy_layer lm dest) uppers))"

definition receive_checkpoint :: "layer_manager \<Rightarrow> int \<Rightarrow> payload \<Rightarrow> (unit, agent) io" where
  "receive_checkpoint lm ordinal pl =
     andthen (wrapping (''extract layer '' @ itoa ordinal) (extract_tar_gz pl (lm_dir lm ''l'' ordinal))) (\<lambda>_.
     andthen get_level (\<lambda>level.
     if 0 < level
     then
       andthen (unbind_root lm) (\<lambda>_.
       andthen (unmount_level lm level) (\<lambda>_.
       andthen (set_level (level - 1)) (\<lambda>_.
       init_volume lm)))
     else ret ()))"

definition end_volume :: "layer_manager \<Rightarrow> string \<Rightarrow> (unit, agent) io" where
  "end_volume lm dest =
     andthen get_level (\<lambda>final.
     if final = 0 then throw (errorf ''volume not initialised'')
     else
       andthen (unbind_root lm) (\<lambda>_.
       andthen (wrapping ''list merged dirs'' (numbered_dirs lm ''o'')) (\<lambda>merged.
       andthen (for_each (unmount_level lm) (rev merged)) (\<lambda>_.
       andthen (set_level 0) (\<lambda>_.
       if dest = [] then ret ()
       else andthen (is_sent lm final) (\<lambda>sent.
         if sent then ret () else send_layer lm ''final layer'' dest final))))))"

text \<open>\<open>LayerDir\<close>.\<close>

definition layer_dir :: "layer_manager \<Rightarrow> int \<Rightarrow> string" where
  "layer_dir lm n = lm_dir lm ''l'' n"

section \<open>The legacy interface\<close>

record layer =
  ly_level :: int
  ly_root_dir :: string
  ly_root_layer :: int

definition layer_lm :: "layer \<Rightarrow> layer_manager" where
  "layer_lm l = new_layer_manager ''/data'' (ly_root_dir l)"

text \<open>An operation that reports its failure as \<open>false\<close>.\<close>

definition succeeding :: "('a, agent) io \<Rightarrow> (bool, agent) io" where
  "succeeding m = andthen (attempt m) (\<lambda>r. ret (case r of Inl _ \<Rightarrow> False | Inr _ \<Rightarrow> True))"

definition create_layer :: "layer \<Rightarrow> (bool \<times> layer, agent) io" where
  "create_layer l =
     andthen get_level (\<lambda>n.
     andthen (succeeding
       (if n \<noteq> 0 then ret ()
        else andthen (discover (layer_lm l)) (\<lambda>_.
             andthen get_level (\<lambda>n'. if n' = 0 then init_volume (layer_lm l) else ret ())))) (\<lambda>ready.
     if \<not> ready then ret (False, l)
     else
       andthen (succeeding (create_checkpoint (layer_lm l))) (\<lambda>ok.
       if \<not> ok then ret (False, l)
       else andthen get_level (\<lambda>level. ret (True, l\<lparr>ly_level := level\<rparr>)))))"

definition layer_init :: "layer \<Rightarrow> (bool \<times> layer, agent) io" where
  "layer_init l =
     andthen (succeeding (init_volume (layer_lm l))) (\<lambda>ok.
     if \<not> ok then ret (False, l)
     else andthen get_level (\<lambda>level. ret (True, l\<lparr>ly_root_layer := level - 1, ly_level := level\<rparr>)))"

definition layer_finish :: "layer \<Rightarrow> (bool, agent) io" where
  "layer_finish l =
     andthen get_level (\<lambda>level.
     if level = 0 then ret True else succeeding (end_volume (layer_lm l) []))"

end
