(* ===== verification/Dmtcp.thy ===== *)
theory Dmtcp
  imports AgentState AgentEnv FrameTransfer
begin

text \<open>
  The handler of the checkpointing program DMTCP (\<open>go-agent/dmtcp/handler.go\<close>). The program
  itself is external: running it is a call of the agent, and the checkpoint files it writes appear
  in the file system between calls. The state of the handler is the agent's \<open>a_state\<close>.
\<close>

section \<open>Handlers\<close>

record dmtcp =
  dh_host :: string
  dh_port :: int
  dh_dir :: string

definition new_handler :: "string \<Rightarrow> dmtcp" where
  "new_handler dir = \<lparr>dh_host = ''127.0.0.1'', dh_port = 7779, dh_dir = dir\<rparr>"

definition new_handler_from_env :: "(string \<Rightarrow> string) \<Rightarrow> string \<Rightarrow> dmtcp" where
  "new_handler_from_env env dir =
     (let h = new_handler (if dir = [] then env ''DMTCP_CHECKPOINT_DIR'' else dir);
          h1 = (if env ''DMTCP_COORD_HOST'' \<noteq> [] then h\<lparr>dh_host := env ''DMTCP_COORD_HOST''\<rparr> else h);
          raw = env ''DMTCP_COORD_PORT''
      in if raw \<noteq> []
         then (case atoi raw of
                 Some p \<Rightarrow> if 0 < p \<and> p \<le> 65535 then h1\<lparr>dh_port := p\<rparr> else h1
               | None \<Rightarrow> h1)
         else h1)"

definition coord_addr :: "dmtcp \<Rightarrow> string" where
  "coord_addr h = dh_host h @ '':'' @ itoa (dh_port h)"

definition set_state :: "checkpoint_state \<Rightarrow> (unit, agent) io" where
  "set_state st a = (Inr (), a\<lparr>a_state := st\<rparr>)"

definition get_state :: "(checkpoint_state, agent) io" where
  "get_state a = (Inr (a_state a), a)"

text \<open>A new handler is idle; the preStop hook attaches to an application that runs already.\<close>

definition attach_running :: "(unit, agent) io" where
  "attach_running = set_state StateRunning"

fun state_code :: "checkpoint_state \<Rightarrow> int" where
  "state_code StateIdle = 0"
| "state_code StateRunning = 1"
| "state_code StateCheckpoint = 2"
| "state_code StateCheckpointed = 3"
| "state_code StateRestoring = 4"
| "state_code StateError = 5"

definition wrong_state :: "string \<Rightarrow> checkpoint_state \<Rightarrow> string \<Rightarrow> go_err" where
  "wrong_state what st expected =
     errorf (''cannot '' @ what @ '': handler is in state '' @ itoa (state_code st) @
             '' (expected '' @ expected @ '')'')"

text \<open>An operation that leaves the handler in the error state when it fails.\<close>

definition or_error_state :: "('a, agent) io \<Rightarrow> ('a, agent) io" where
  "or_error_state m a = (case m a of (Inl e, b) \<Rightarrow> (Inl e, b\<lparr>a_state := StateError\<rparr>) | r \<Rightarrow> r)"

definition coord_args :: "dmtcp \<Rightarrow> string list" where
  "coord_args h = [''--coord-host'', dh_host h, ''--coord-port'', itoa (dh_port h)]"

section \<open>Checkpoint files\<close>

definition has_suffix :: "string \<Rightarrow> string \<Rightarrow> bool" where
  "has_suffix s p \<longleftrightarrow> length p \<le> length s \<and> drop (length s - length p) s = p"

text \<open>
  \<open>filepath.Glob\<close> of \<open>*.dmtcp\<close> in a directory whose own path has no pattern characters: what
  cannot be read matches nothing.
\<close>

definition matches_in :: "string \<Rightarrow> path \<Rightarrow> tree \<Rightarrow> string list" where
  "matches_in dir p t =
     (case read_dir p t of
        Inl _ \<Rightarrow> []
      | Inr entries \<Rightarrow>
          map (path_join dir) (filter (\<lambda>n. has_suffix n ''.dmtcp'') (map fst entries)))"

definition list_checkpoints :: "dmtcp \<Rightarrow> (string list, agent) io" where
  "list_checkpoints h a =
     (case next_outcome a of
        (Some _, b) \<Rightarrow> (Inr [], b)
      | (None, b) \<Rightarrow> (Inr (matches_in (dh_dir h) (located b (dh_dir h)) (a_tree b)), b))"

text \<open>The modification time; only that of a regular file is kept in the model.\<close>

fun mod_time :: "fnode \<Rightarrow> instant" where
  "mod_time (File _ _ m) = m"
| "mod_time _ = 0"

text \<open>The loop of \<open>latestCheckpointFile\<close>, with the newest file so far.\<close>

fun newest_file :: "string list \<Rightarrow> string \<times> instant \<Rightarrow> (string, agent) io" where
  "newest_file [] best a = (Inr (fst best), a)"
| "newest_file (m # ms) best a =
     andthen (attempt (os_stat m)) (\<lambda>r.
       newest_file ms
         (case r of Inl _ \<Rightarrow> best
          | Inr nd \<Rightarrow> if snd best < mod_time nd then (m, mod_time nd) else best)) a"

definition latest_checkpoint_file :: "dmtcp \<Rightarrow> (string, agent) io" where
  "latest_checkpoint_file h =
     andthen (list_checkpoints h) (\<lambda>ms.
     if ms = [] then throw (errorf (''no checkpoint files found in '' @ dh_dir h))
     else andthen (newest_file ms ([], 0)) (\<lambda>latest.
       if latest = [] then throw (errorf (''no readable checkpoint files in '' @ dh_dir h))
       else ret latest))"

definition half_second :: nat where
  "half_second = 500000000"

text \<open>\<open>time.Sleep\<close>: at least the time asked for.\<close>

definition sleep_half :: "(unit, agent) io" where
  "sleep_half a = (Inr (), (snd (next_outcome a))\<lparr>a_clock := a_clock (snd (next_outcome a)) + int half_second\<rparr>)"

lemma keeps_newest_file [proceeding]: "keeps proceeds (newest_file ms best)"
proof (induction ms arbitrary: best)
  case Nil
  then show ?case by (simp add: keeps_def progress.kept_refl)
next
  case (Cons m ms)
  have "newest_file (m # ms) best =
      andthen (attempt (os_stat m)) (\<lambda>r. newest_file ms
        (case r of Inl _ \<Rightarrow> best
         | Inr nd \<Rightarrow> if snd best < mod_time nd then (m, mod_time nd) else best))"
    by (rule ext) simp
  then show ?case by (auto intro: proceeding Cons)
qed

lemma keeps_list_checkpoints [proceeding]: "keeps proceeds (list_checkpoints h)"
  unfolding keeps_def list_checkpoints_def
  by (auto dest: next_outcome_fields(4) split: prod.split option.split)

lemma keeps_latest [proceeding]: "keeps proceeds (latest_checkpoint_file h)"
  unfolding latest_checkpoint_file_def by (auto intro!: proceeding)

lemma clock_sleep_half: "sleep_half a = (r, b) \<Longrightarrow> a_clock a + int half_second \<le> a_clock b"
  using next_outcome_fields(4) [of a "fst (next_outcome a)" "snd (next_outcome a)"]
  by (auto simp: sleep_half_def proceeds_def)

text \<open>The loop of \<open>WaitForCheckpointFile\<close> until \<open>deadline\<close>.\<close>

function wait_loop :: "dmtcp \<Rightarrow> instant \<Rightarrow> (string, agent) io" where
  "wait_loop h deadline a =
     (if a_clock a < deadline
      then (case latest_checkpoint_file h a of
              (Inr path, b) \<Rightarrow> (Inr path, b)
            | (Inl _, b) \<Rightarrow> wait_loop h deadline (snd (sleep_half b)))
      else (Inl (errorf (''timed out waiting for checkpoint file in '' @ dh_dir h)), a))"
  by pat_completeness auto
termination
proof (relation "measure (\<lambda>(h, deadline, a). nat (deadline - a_clock a))", goal_cases)
  case (2 h deadline a x b e)
  then have "a_clock a \<le> a_clock b"
    using keeps_run [OF keeps_latest] proceeds_clock by metis
  also have "a_clock b < a_clock b + int half_second" by (simp add: half_second_def)
  also have "\<dots> \<le> a_clock (snd (sleep_half b))"
    by (rule clock_sleep_half) (rule prod.collapse [symmetric])
  finally show ?case using 2 by simp
qed simp

declare wait_loop.simps [simp del]

definition wait_for_checkpoint_file :: "dmtcp \<Rightarrow> duration \<Rightarrow> (string, agent) io" where
  "wait_for_checkpoint_file h timeout a = wait_loop h (a_clock a + timeout) a"

section \<open>Operations\<close>

definition checkpoint :: "dmtcp \<Rightarrow> (unit, agent) io" where
  "checkpoint h =
     andthen get_state (\<lambda>st.
     if st \<noteq> StateRunning then throw (wrong_state ''checkpoint'' st ''StateRunning'')
     else
       andthen (set_state StateCheckpoint) (\<lambda>_.
       andthen (or_error_state (wrapping ''dmtcp_command checkpoint failed''
                 (perform (RunProgram (''dmtcp_command'' # coord_args h @ [''-bc'']))))) (\<lambda>_.
       set_state StateCheckpointed)))"

definition restart :: "dmtcp \<Rightarrow> (unit, agent) io" where
  "restart h =
     andthen get_state (\<lambda>st.
     if st \<noteq> StateCheckpointed then throw (wrong_state ''restart'' st ''StateCheckpointed'')
     else
       andthen (or_error_state (wrapping ''failed to find checkpoint file'' (latest_checkpoint_file h))) (\<lambda>f.
       andthen (set_state StateRestoring) (\<lambda>_.
       andthen (or_error_state (wrapping ''dmtcp_restart failed''
                 (perform (RunProgram (''dmtcp_restart'' # coord_args h @ [f]))))) (\<lambda>_.
       set_state StateRunning))))"

definition restart_command :: "dmtcp \<Rightarrow> (string list, agent) io" where
  "restart_command h =
     andthen (list_checkpoints h) (\<lambda>fs.
     if fs = [] then throw (errorf (''no checkpoint files found in '' @ dh_dir h))
     else ret (''dmtcp_restart'' # coord_args h @ fs))"

text \<open>\<open>syscall.Exec\<close> does not return when it succeeds; the operation then ends the agent.\<close>

definition exec_restart :: "dmtcp \<Rightarrow> (unit, agent) io" where
  "exec_restart h =
     andthen (or_error_state (restart_command h)) (\<lambda>argv.
     andthen (or_error_state (wrapping ''dmtcp_restart not found'' (reading (\<lambda>_. Inr ())))) (\<lambda>_.
     andthen (set_state StateRestoring) (\<lambda>_.
     or_error_state (wrapping ''exec dmtcp_restart'' (perform (ExecProgram argv))))))"

definition launch :: "dmtcp \<Rightarrow> string \<Rightarrow> (unit, agent) io" where
  "launch h cmd =
     andthen get_state (\<lambda>st.
     if st \<noteq> StateIdle then throw (wrong_state ''launch'' st ''StateIdle'')
     else if string_fields cmd = [] then throw (errorf ''application command is empty'')
     else
       andthen (or_error_state (wrapping ''dmtcp_launch failed''
                 (perform (RunProgram (''dmtcp_launch'' # coord_args h @ string_fields cmd))))) (\<lambda>_.
       set_state StateRunning))"

end
