(* ===== verification/EndContainer.thy ===== *)
theory EndContainer
  imports Overlay Dmtcp
begin

text \<open>
  The source side of a migration: the preStop hook \<open>end_container\<close>
  (\<open>go-agent/endcontainer.go\<close>). It is a process of its own, so its layer manager starts at
  level 0 and its DMTCP handler idle. The coordinator behind \<open>/remove\<close> and \<open>/copy\<close> is the
  handler of theory RestApi on the registry of the state.
\<close>

section \<open>The entry point\<close>

text \<open>Coordinator, pod and checkpoint directory from the arguments and the environment.\<close>

definition end_container_args ::
    "(string \<Rightarrow> string) \<Rightarrow> string list \<Rightarrow> (string \<times> string \<times> string) option" where
  "end_container_args env args0 =
     (let args = (if args0 \<noteq> [] \<and> hd args0 = ''end_container'' then tl args0 else args0);
          arg = (\<lambda>i dflt. if i < length args then args ! i else dflt);
          coord = arg 0 (env_or env ''MIGR_COOR'' []);
          pod = arg 1 (env_or env ''POD_NAME'' []);
          dir = arg 2 (env_or env ''DMTCP_CHECKPOINT_DIR'' ''/dmtcp/checkpoints'')
      in if coord = [] \<or> pod = [] then None else Some (coord, pod, dir))"

section \<open>Requests\<close>

definition post_remove :: "string \<Rightarrow> string \<Rightarrow> (remove_response, agent) io" where
  "post_remove coord pod =
     andthen (wrapping ''POST /remove''
       (post (''http://'' @ coord @ ''/remove'') (PostRemove pod)
         (\<lambda>b m. (handle_remove (Some pod) m, m)))) (\<lambda>answer.
     case answer of
       BRemove resp \<Rightarrow> ret resp
     | _ \<Rightarrow> throw (errorf ''parse /remove response''))"

definition post_copy :: "string \<Rightarrow> string \<Rightarrow> string \<Rightarrow> int \<Rightarrow> (unit, agent) io" where
  "post_copy coord pod dir layers =
     andthen (wrapping ''POST /copy''
       (post (''http://'' @ coord @ ''/copy'') (PostCopy pod dir layers)
         (\<lambda>b m. handle_copy (Some (pod, dir)) m))) (\<lambda>_. ret ())"

section \<open>The steps of the sequence\<close>

definition volume_round :: "layer_manager \<Rightarrow> string \<Rightarrow> int \<Rightarrow> (unit, agent) io" where
  "volume_round lm dest i =
     andthen (wrapping (''volume checkpoint round '' @ itoa i) (create_checkpoint lm)) (\<lambda>frozen.
     wrapping (''copy volume checkpoint '' @ itoa frozen) (copy_checkpoint lm dest))"

text \<open>The iterative rounds while the application runs; the number of layers counted as sent.\<close>

definition volume_rounds :: "layer_manager \<Rightarrow> string \<Rightarrow> int \<Rightarrow> (int, agent) io" where
  "volume_rounds lm dest rounds =
     andthen (for_each (volume_round lm dest) [1..rounds]) (\<lambda>_. ret rounds)"

definition volume_pre_transfer :: "layer_manager \<Rightarrow> string \<Rightarrow> (int, agent) io" where
  "volume_pre_transfer lm dest =
     andthen (set_level 0) (\<lambda>_.
     andthen (wrapping ''discover overlay state'' (discover lm)) (\<lambda>_.
     andthen get_level (\<lambda>level a.
     if 0 < level \<and> dest \<noteq> []
     then volume_rounds lm dest (env_int (a_env a) ''CHECKPOINT_ROUNDS'' 1) a
     else ret 0 a)))"

definition send_checkpoint_files :: "string \<Rightarrow> string list \<Rightarrow> (unit, agent) io" where
  "send_checkpoint_files dest files =
     for_each (\<lambda>f. wrapping (''send checkpoint file '' @ f) (send_checkpoint_file dest f)) files"

definition checkpoint_wait :: duration where
  "checkpoint_wait = 60 * second"

definition checkpoint_with :: "dmtcp \<Rightarrow> string \<Rightarrow> (unit, agent) io" where
  "checkpoint_with h dest =
     andthen (set_state StateIdle) (\<lambda>_.
     andthen attach_running (\<lambda>_.
     andthen (wrapping ''dmtcp checkpoint'' (checkpoint h)) (\<lambda>_.
     andthen (wrapping ''wait for checkpoint files'' (wait_for_checkpoint_file h checkpoint_wait)) (\<lambda>_.
     andthen (wrapping ''list checkpoints'' (list_checkpoints h)) (\<lambda>files.
     if dest = [] then ret () else send_checkpoint_files dest files)))))"

definition process_checkpoint :: "string \<Rightarrow> string \<Rightarrow> (unit, agent) io" where
  "process_checkpoint dir dest a = checkpoint_with (new_handler_from_env (a_env a) dir) dest a"

text \<open>The end of the volume; how many layers are counted as sent.\<close>

definition volume_end :: "layer_manager \<Rightarrow> string \<Rightarrow> (int, agent) io" where
  "volume_end lm dest =
     andthen get_level (\<lambda>level.
     if 0 < level
     then andthen (wrapping ''end volume'' (end_volume lm dest)) (\<lambda>_. ret (if dest \<noteq> [] then 1 else 0))
     else if dest \<noteq> []
     then andthen (wrapping ''send volume root'' (send_dir dest 1 ''u1'' (lm_root_dir lm))) (\<lambda>_. ret 1)
     else ret 0)"

definition when_on :: "bool \<Rightarrow> 'a \<Rightarrow> ('a, agent) io \<Rightarrow> ('a, agent) io" where
  "when_on c dflt m = (if c then m else ret dflt)"

section \<open>The sequence\<close>

definition transfer_out :: "layer_manager \<Rightarrow> bool \<Rightarrow> bool \<Rightarrow> string \<Rightarrow> string \<Rightarrow> (int, agent) io" where
  "transfer_out lm proc vol dir dest =
     andthen (when_on vol 0 (volume_pre_transfer lm dest)) (\<lambda>sent.
     andthen (when_on proc () (process_checkpoint dir dest)) (\<lambda>_.
     andthen (when_on vol 0 (volume_end lm dest)) (\<lambda>final.
     ret (sent + final))))"

definition migrate_out :: "string \<Rightarrow> string \<Rightarrow> string \<Rightarrow> remove_response \<Rightarrow> (unit, agent) io" where
  "migrate_out coord pod dir resp a =
     (let dest = rr_dest_address resp;
          root = env_or (a_env a) ''VOLUME_ROOT_DIR'' [];
          vol = (rr_volume_migration resp \<and> root \<noteq> []);
          lm = new_layer_manager (env_or (a_env a) ''DATA_DIR'' ''/data'') root
      in andthen (transfer_out lm (rr_process_migration resp) vol dir dest) (\<lambda>layers.
         andthen (when_on (dest \<noteq> []) () (wrapping ''send done frame'' (send_done dest))) (\<lambda>_.
         post_copy coord pod dir layers)) a)"

definition end_container :: "string \<Rightarrow> string \<Rightarrow> string \<Rightarrow> (unit, agent) io" where
  "end_container coord pod dir =
     andthen (post_remove coord pod) (\<lambda>resp.
     if \<not> rr_needs_checkpoint resp then ret () else migrate_out coord pod dir resp)"

text \<open>\<open>log.Fatal\<close> is the error the process ends with.\<close>

definition run_end_container :: "string list \<Rightarrow> (unit, agent) io" where
  "run_end_container args a =
     (case end_container_args (a_env a) args of
        None \<Rightarrow> throw (errorf ''Usage: end_container <coordAddr> <podName> <checkpointDir> (or set MIGR_COOR / POD_NAME)'') a
      | Some (coord, pod, dir) \<Rightarrow> wrapping ''end_container failed'' (end_container coord pod dir) a)"

end
