(* ===== verification/AgentMain.thy ===== *)
theory AgentMain
  imports EndContainer
begin

text \<open>
  The Execution Agent at container start (\<open>go-agent/main.go\<close>): registration with the coordinator
  and, on a migration target, the reception and restoration of the source's checkpoints. What the
  network delivers before the deadline and how the bytes of an archive decompress are arguments.
\<close>

section \<open>Time stamps\<close>

text \<open>\<open>time.RFC3339\<close> of an instant in UTC, in the proleptic Gregorian calendar.\<close>

definition leap_year :: "int \<Rightarrow> bool" where
  "leap_year y \<longleftrightarrow> y mod 4 = 0 \<and> (y mod 100 \<noteq> 0 \<or> y mod 400 = 0)"

definition month_days :: "int \<Rightarrow> int list" where
  "month_days y = [31, if leap_year y then 29 else 28, 31, 30, 31, 30, 31, 31, 30, 31, 30, 31]"

text \<open>Month and day, both from 1, of a day of the year counted from 0.\<close>

fun month_day :: "int \<Rightarrow> int list \<Rightarrow> int \<Rightarrow> int \<times> int" where
  "month_day m [] d = (m, d + 1)"
| "month_day m (l # ls) d = (if d < l then (m, d + 1) else month_day (m + 1) ls (d - l))"

text \<open>The date of a day counted from 1 January of the year 1.\<close>

definition civil_date :: "int \<Rightarrow> int \<times> int \<times> int" where
  "civil_date n =
     (let n400 = n div 146097; r400 = n mod 146097;
          n100 = min 3 (r400 div 36524); r100 = r400 - n100 * 36524;
          n4 = r100 div 1461; r4 = r100 mod 1461;
          n1 = min 3 (r4 div 365); d = r4 - n1 * 365;
          y = 400 * n400 + 100 * n100 + 4 * n4 + n1 + 1
      in (y, month_day 1 (month_days y) d))"

definition padded :: "nat \<Rightarrow> int \<Rightarrow> string" where
  "padded w n = replicate (w - length (itoa n)) (CHR ''0'') @ itoa n"

definition rfc3339 :: "instant \<Rightarrow> string" where
  "rfc3339 t =
     (let s = t div second; (y, m, d) = civil_date (s div 86400); r = s mod 86400
      in padded 4 y @ ''-'' @ padded 2 m @ ''-'' @ padded 2 d @ ''T'' @
         padded 2 (r div 3600) @ '':'' @ padded 2 (r mod 3600 div 60) @ '':'' @ padded 2 (r mod 60) @ ''Z'')"

section \<open>The migration target\<close>

definition restored_marker :: "string \<Rightarrow> string" where
  "restored_marker dir = path_join dir ''.restored''"

text \<open>The handler of received frames.\<close>

definition transfer_handler ::
    "(byte list \<Rightarrow> payload \<times> byte list) \<Rightarrow> layer_manager \<Rightarrow> string \<Rightarrow> agent frame_handler" where
  "transfer_handler unpack lm dir h bytes a =
     (if fh_kind h = kind_layer \<or> fh_kind h = kind_checkpoint_file
      then (case unpack bytes of
              (pl, rest) \<Rightarrow>
                (case (if fh_kind h = kind_layer then receive_checkpoint lm (fh_ordinal h) pl
                       else extract_tar_gz pl dir) a of
                   (Inl e, b) \<Rightarrow> ((Some e, rest), b)
                 | (Inr _, b) \<Rightarrow> ((None, rest), b)))
      else ((Some (errorf (''unexpected frame kind '' @ itoa (uint (fh_kind h)))), bytes), a))"

definition receive_transfer ::
    "(byte list \<Rightarrow> payload \<times> byte list) \<Rightarrow> go_err \<Rightarrow> (duration \<Rightarrow> (go_err + conn) list) \<Rightarrow>
     layer_manager \<Rightarrow> string \<Rightarrow> (frame_header list, agent) io" where
  "receive_transfer unpack late network lm dir a =
     (let timeout = env_int (a_env a) ''RECEIVE_TIMEOUT_SECONDS'' 600 * second
      in case receive_all (transfer_handler unpack lm dir) late (network timeout) a of
           ((frames, Some e), cs, b) \<Rightarrow>
             (Inl (wrap_err (''checkpoint transfer failed after '' @ itoa (int (length frames)) @ '' frame(s)'') e), b)
         | ((frames, None), cs, b) \<Rightarrow> (Inr frames, b))"

definition restore_process :: "string \<Rightarrow> (unit, agent) io" where
  "restore_process dir a =
     (let h = new_handler_from_env (a_env a) dir; marker = restored_marker dir in
      andthen (set_state StateIdle) (\<lambda>_.
      andthen (list_checkpoints h) (\<lambda>ckpts.
      if ckpts = [] then ret ()
      else
        andthen (wrapping ''write restore marker''
                   (\<lambda>b. os_write_file marker 420 (rfc3339 (a_clock b) @ [CHR 0x0A]) b)) (\<lambda>_.
        andthen (attempt (exec_restart h)) (\<lambda>r.
        case r of
          Inr _ \<Rightarrow> ret ()
        | Inl e \<Rightarrow>
            andthen (attempt (os_remove marker)) (\<lambda>_. throw (wrap_err ''dmtcp restore failed'' e)))))) a)"

definition run_migration_target ::
    "(byte list \<Rightarrow> payload \<times> byte list) \<Rightarrow> go_err \<Rightarrow> (duration \<Rightarrow> (go_err + conn) list) \<Rightarrow>
     layer_manager \<Rightarrow> string \<Rightarrow> bool \<Rightarrow> bool \<Rightarrow> (unit, agent) io" where
  "run_migration_target unpack late network lm dir proc vol =
     andthen (receive_transfer unpack late network lm dir) (\<lambda>_.
     andthen (when_on vol () (wrapping ''overlay init with received layers failed'' (init_volume lm))) (\<lambda>_.
     when_on proc () (restore_process dir)))"

section \<open>Container start\<close>

definition register_message :: "(string \<Rightarrow> string) \<Rightarrow> bool \<Rightarrow> bool \<Rightarrow> message" where
  "register_message env proc vol =
     zero_message
       \<lparr>me_pod_name := env ''POD_NAME'',
        me_pod_address := net_join_host_port (env ''POD_IP'') (itoa (transfer_port env)),
        me_container_port := transfer_port env,
        me_is_new := True,
        me_process_migration := proc,
        me_volume_migration := vol\<rparr>"

text \<open>\<open>mid\<close>: what other requests do to the registry while this one is served.\<close>

definition post_register ::
    "(registry \<Rightarrow> registry) \<Rightarrow> string \<Rightarrow> message \<Rightarrow> (message, agent) io" where
  "post_register mid coord msg =
     andthen (wrapping ''Failed to register with Migration Coordinator''
       (post (coord @ ''/register'') (PostRegister msg)
         (\<lambda>b m. handle_register (a_clock b) mid (Some msg) m))) (\<lambda>answer.
     case answer of
       BMessage response \<Rightarrow> ret response
     | _ \<Rightarrow> throw (errorf ''Failed to parse register response''))"

definition listen_transfer :: "int \<Rightarrow> (unit, agent) io" where
  "listen_transfer port =
     wrapping (''listen for checkpoint transfer on :'' @ itoa port) (perform (Listen port))"

definition root_dir_of :: "(string \<Rightarrow> string) \<Rightarrow> string list \<Rightarrow> string" where
  "root_dir_of env args =
     (if args \<noteq> [] \<and> hd args \<noteq> [] then hd args else env_or env ''VOLUME_ROOT_DIR'' [])"

text \<open>\<open>args\<close> are the arguments after the name of the program.\<close>

definition run_agent ::
    "(byte list \<Rightarrow> payload \<times> byte list) \<Rightarrow> go_err \<Rightarrow> (duration \<Rightarrow> (go_err + conn) list) \<Rightarrow>
     (registry \<Rightarrow> registry) \<Rightarrow> string list \<Rightarrow> (unit, agent) io" where
  "run_agent unpack late network mid args a =
     (let env = a_env a;
          coord = ''http://'' @ env_or env ''MIGR_COOR'' ''localhost:80'';
          proc = process_migration_setting env;
          root = root_dir_of env args;
          vol = (volume_migration_setting env \<and> root \<noteq> []);
          dir = env_or env ''DMTCP_CHECKPOINT_DIR'' ''/dmtcp/checkpoints'';
          lm = new_layer_manager (env_or env ''DATA_DIR'' ''/data'') root
      in if 1 < length args \<and> atoi (args ! 1) = None
         then throw (errorf ''Invalid layerCount argument'')
         else
           andthen (listen_transfer (transfer_port env)) (\<lambda>_.
           andthen (post_register mid coord (register_message env proc vol)) (\<lambda>response.
           andthen (set_level 0) (\<lambda>_.
           if me_is_mig response
           then run_migration_target unpack late network lm dir
                  (me_process_migration response) (me_volume_migration response)
           else when_on vol () (wrapping ''overlay init failed'' (init_volume lm)))))) a"

definition agent_main ::
    "(byte list \<Rightarrow> payload \<times> byte list) \<Rightarrow> go_err \<Rightarrow> (duration \<Rightarrow> (go_err + conn) list) \<Rightarrow>
     (registry \<Rightarrow> registry) \<Rightarrow> string list \<Rightarrow> (unit, agent) io" where
  "agent_main unpack late network mid argv =
     (if path_base (hd argv) = ''end_container'' \<or> (1 < length argv \<and> argv ! 1 = ''end_container'')
      then run_end_container (tl argv)
      else run_agent unpack late network mid (tl argv))"

end
