(* ===== verification/DmtcpSpec.thy ===== *)
theory DmtcpSpec
  imports Dmtcp
begin

text \<open>
  What the operations of a DMTCP handler do on every branch, the life cycle they follow together,
  and what waiting for a checkpoint file ends with.
\<close>

section \<open>Each operation\<close>

lemma perform_run:
  assumes "perform act a = (r, b)"
  shows "\<exists>ok. a_log b = a_log a @ [(act, ok)] \<and> (ok \<longleftrightarrow> r = Inr ()) \<and> a_state b = a_state a"
proof -
  obtain q c where c: "next_outcome a = (q, c)" by (cases "next_outcome a")
  with assms next_outcome_fields(1,3) [OF c] show ?thesis
    by (auto simp: perform_def split: option.splits)
qed

lemma set_state_run [simp]: "set_state st a = (Inr (), a\<lparr>a_state := st\<rparr>)"
  by (simp add: set_state_def)

lemma get_state_run [simp]: "get_state a = (Inr (a_state a), a)"
  by (simp add: get_state_def)

lemma andthen_state [simp]:
  "andthen get_state f a = f (a_state a) a"
  "andthen (set_state st) g a = g () (a\<lparr>a_state := st\<rparr>)"
  by (simp_all add: andthen_def)

lemma or_error_state_run:
  "or_error_state m a = (Inr x, b) \<longleftrightarrow> m a = (Inr x, b)"
  "or_error_state m a = (Inl e, b) \<longleftrightarrow> (\<exists>c. m a = (Inl e, c) \<and> b = c\<lparr>a_state := StateError\<rparr>)"
  by (auto simp: or_error_state_def split: prod.splits sum.splits)

text \<open>Running a program and then taking the state \<open>st\<close>, or the error state if it fails.\<close>

lemma run_then_state:
  assumes "andthen (or_error_state (wrapping pre (perform act))) (\<lambda>_. set_state st) a = (r, b)"
  shows "\<exists>ok. a_log b = a_log a @ [(act, ok)] \<and> (ok \<longleftrightarrow> r = Inr ()) \<and>
           a_state b = (if ok then st else StateError)"
proof -
  obtain q d where c: "perform act a = (q, d)" by (cases "perform act a")
  from perform_run [OF c] obtain ok
    where ok: "a_log d = a_log a @ [(act, ok)]" "ok \<longleftrightarrow> q = Inr ()" by auto
  show ?thesis
  proof (cases q)
    case (Inl e)
    with assms c have "r \<noteq> Inr ()" and "b = d\<lparr>a_state := StateError\<rparr>"
      by (auto simp: andthen_def or_error_state_def wrapping_def)
    with ok Inl show ?thesis by auto
  next
    case (Inr u)
    with assms c have "r = Inr ()" and "b = d\<lparr>a_state := st\<rparr>"
      by (auto simp: andthen_def or_error_state_def wrapping_def)
    with ok Inr show ?thesis by auto
  qed
qed

lemma checkpoint_run:
  assumes "checkpoint h a = (r, b)"
  shows "if a_state a = StateRunning
         then \<exists>ok. a_log b = a_log a @ [(RunProgram (''dmtcp_command'' # coord_args h @ [''-bc'']), ok)] \<and>
                (ok \<longleftrightarrow> r = Inr ()) \<and> a_state b = (if ok then StateCheckpointed else StateError)
         else b = a \<and> r \<noteq> Inr ()"
proof (cases "a_state a = StateRunning")
  case True
  with assms have "andthen (or_error_state (wrapping ''dmtcp_command checkpoint failed''
      (perform (RunProgram (''dmtcp_command'' # coord_args h @ [''-bc'']))))) (\<lambda>_. set_state StateCheckpointed)
      (a\<lparr>a_state := StateCheckpoint\<rparr>) = (r, b)"
    by (simp add: checkpoint_def)
  from run_then_state [OF this] True show ?thesis by simp
next
  case False
  with assms show ?thesis by (auto simp: checkpoint_def)
qed

lemma launch_run:
  assumes "launch h cmd a = (r, b)"
  shows "if a_state a = StateIdle \<and> string_fields cmd \<noteq> []
         then \<exists>ok. a_log b = a_log a @ [(RunProgram (''dmtcp_launch'' # coord_args h @ string_fields cmd), ok)] \<and>
                (ok \<longleftrightarrow> r = Inr ()) \<and> a_state b = (if ok then StateRunning else StateError)
         else b = a \<and> r \<noteq> Inr ()"
proof (cases "a_state a = StateIdle \<and> string_fields cmd \<noteq> []")
  case True
  with assms have "andthen (or_error_state (wrapping ''dmtcp_launch failed''
      (perform (RunProgram (''dmtcp_launch'' # coord_args h @ string_fields cmd))))) (\<lambda>_. set_state StateRunning)
      a = (r, b)"
    by (simp add: launch_def)
  from run_then_state [OF this] True show ?thesis by simp
next
  case False
  with assms show ?thesis by (auto simp: launch_def split: if_splits)
qed

text \<open>Looking for checkpoint files leaves no trace in the log.\<close>

definition silent :: "agent \<Rightarrow> agent \<Rightarrow> bool" where
  "silent a b \<longleftrightarrow> a_log b = a_log a \<and> a_state b = a_state a"

interpretation silence: kept silent
  by unfold_locales (auto simp: silent_def)

lemma silent_next: "next_outcome a = (r, b) \<Longrightarrow> silent a b"
  using next_outcome_fields(1,3) by (simp add: silent_def)

lemma silent_reading: "keeps silent (reading f)"
  unfolding keeps_def reading_def by (auto dest: silent_next split: prod.split option.split)

lemma silent_newest_file: "keeps silent (newest_file ms best)"
proof (induction ms arbitrary: best)
  case Nil
  then show ?case by (simp add: keeps_def silence.kept_refl)
next
  case (Cons m ms)
  have "newest_file (m # ms) best =
      andthen (attempt (os_stat m)) (\<lambda>r. newest_file ms
        (case r of Inl _ \<Rightarrow> best
         | Inr nd \<Rightarrow> if snd best < mod_time nd then (m, mod_time nd) else best))"
    by (rule ext) simp
  moreover have "keeps silent (os_stat m)"
    using silent_reading unfolding keeps_def by (auto simp: os_stat_def)
  ultimately show ?case by (auto intro!: silence.keeps_andthen silence.keeps_attempt Cons)
qed

lemma silent_list: "keeps silent (list_checkpoints h)"
  unfolding keeps_def list_checkpoints_def by (auto dest: silent_next split: prod.split option.split)

lemma silent_latest: "keeps silent (latest_checkpoint_file h)"
  unfolding latest_checkpoint_file_def
  by (auto intro!: silence.keeps_andthen silence.keeps_throw silence.keeps_ret silent_list silent_newest_file)

lemma restart_run:
  assumes "restart h a = (r, b)"
  shows "if a_state a = StateCheckpointed
         then (a_log b = a_log a \<and> r \<noteq> Inr () \<and> a_state b = StateError) \<or>
              (\<exists>ok f. a_log b = a_log a @ [(RunProgram (''dmtcp_restart'' # coord_args h @ [f]), ok)] \<and>
                (ok \<longleftrightarrow> r = Inr ()) \<and> a_state b = (if ok then StateRunning else StateError))
         else b = a \<and> r \<noteq> Inr ()"
proof (cases "a_state a = StateCheckpointed")
  case True
  obtain q c where c: "latest_checkpoint_file h a = (q, c)" by (cases "latest_checkpoint_file h a")
  then have s: "silent a c" by (rule keeps_run [OF silent_latest])
  show ?thesis
  proof (cases q)
    case (Inl e)
    with assms True c s show ?thesis
      by (auto simp: restart_def andthen_def or_error_state_def wrapping_def silent_def)
  next
    case (Inr f)
    have "andthen (or_error_state (wrapping ''dmtcp_restart failed''
        (perform (RunProgram (''dmtcp_restart'' # coord_args h @ [f]))))) (\<lambda>_. set_state StateRunning)
        (c\<lparr>a_state := StateRestoring\<rparr>) = (r, b)"
      using assms True c Inr
      by (simp add: restart_def andthen_Inr [where s' = c and x = f] or_error_state_run)
    from run_then_state [OF this] s True show ?thesis by (auto simp: silent_def)
  qed
next
  case False
  with assms show ?thesis by (auto simp: restart_def)
qed

text \<open>Replacing the agent by \<open>dmtcp_restart\<close> is tried in every state.\<close>

lemma exec_restart_trace:
  assumes "exec_restart h a = (r, b)"
  shows "(a_log b = a_log a \<and> r \<noteq> Inr () \<and> a_state b = StateError) \<or>
    (\<exists>fs ok. a_log b = a_log a @ [(ExecProgram (''dmtcp_restart'' # coord_args h @ fs), ok)] \<and>
      (ok \<longleftrightarrow> r = Inr ()) \<and> a_state b = (if ok then StateRestoring else StateError))"
proof -
  obtain q c where c: "restart_command h a = (q, c)" by (cases "restart_command h a")
  have "keeps silent (restart_command h)"
    unfolding restart_command_def by (auto intro!: silence.keeps_andthen silence.keeps_throw silence.keeps_ret silent_list)
  with c have sc: "silent a c" by (rule keeps_run [rotated])
  show ?thesis
  proof (cases q)
    case (Inl e)
    with assms c sc show ?thesis by (auto simp: exec_restart_def andthen_def or_error_state_def silent_def)
  next
    case (Inr argv)
    then obtain fs where argv: "argv = ''dmtcp_restart'' # coord_args h @ fs"
      using c by (auto simp: restart_command_def andthen_eq_Inr split: if_splits)
    obtain q' d where d: "reading (\<lambda>_. Inr ()) c = (q' :: go_err + unit, d)" by fastforce
    then have sd: "silent c d" by (rule keeps_run [OF silent_reading])
    show ?thesis
    proof (cases q')
      case (Inl e)
      with assms c d Inr sc sd show ?thesis
        by (auto simp: exec_restart_def andthen_def or_error_state_def wrapping_def silent_def)
    next
      case (Inr u)
      obtain q'' f where f: "perform (ExecProgram argv) (d\<lparr>a_state := StateRestoring\<rparr>) = (q'', f)" by fastforce
      from perform_run [OF f] obtain ok where
        ok: "a_log f = a_log d @ [(ExecProgram argv, ok)]" "ok \<longleftrightarrow> q'' = Inr ()" "a_state f = StateRestoring" by auto
      have "exec_restart h a = or_error_state (wrapping ''exec dmtcp_restart'' (perform (ExecProgram argv)))
          (d\<lparr>a_state := StateRestoring\<rparr>)"
        using c d Inr \<open>q = Inr argv\<close>
        by (simp add: exec_restart_def andthen_def or_error_state_def wrapping_def)
      with assms f ok sc sd argv show ?thesis
        by (cases q'') (auto simp: or_error_state_def wrapping_def silent_def)
    qed
  qed
qed

section \<open>The life cycle\<close>

text \<open>
  The life of an application under the handler. Its events: a program that is run, and whether it
  worked; the agent becoming \<open>dmtcp_restart\<close>, or failing to; attaching to an application that runs
  already; a restart that found no checkpoint file (or no program).
\<close>

datatype life_event = Attached | Ran string bool | Became bool | NothingFound

inductive lifecycle :: "checkpoint_state \<Rightarrow> life_event list \<Rightarrow> checkpoint_state \<Rightarrow> bool" where
  lc_stay: "lifecycle st [] st"
| lc_launch: "lifecycle (if ok then StateRunning else StateError) l st \<Longrightarrow>
    lifecycle StateIdle (Ran ''dmtcp_launch'' ok # l) st"
| lc_checkpoint: "lifecycle (if ok then StateCheckpointed else StateError) l st \<Longrightarrow>
    lifecycle StateRunning (Ran ''dmtcp_command'' ok # l) st"
| lc_restart: "lifecycle (if ok then StateRunning else StateError) l st \<Longrightarrow>
    lifecycle StateCheckpointed (Ran ''dmtcp_restart'' ok # l) st"
| lc_lost: "lifecycle StateError l st \<Longrightarrow> lifecycle s (NothingFound # l) st"
| lc_attach: "lifecycle StateRunning l st \<Longrightarrow> lifecycle s (Attached # l) st"
| lc_refused: "lifecycle StateError l st \<Longrightarrow> lifecycle s (Became False # l) st"
| lc_became: "lifecycle s [Became True] StateRestoring"

text \<open>One event, and after it the rest; nothing comes after the agent has become another program.\<close>

definition goes_on :: "life_event list \<Rightarrow> bool" where
  "goes_on l \<longleftrightarrow> Became True \<notin> set l"

lemma lifecycle_trans: "lifecycle s l t \<Longrightarrow> goes_on l \<Longrightarrow> lifecycle t k u \<Longrightarrow> lifecycle s (l @ k) u"
  by (induction rule: lifecycle.induct) (auto intro: lifecycle.intros simp: goes_on_def)

text \<open>Once the application was launched it is not launched again.\<close>

lemma lifecycle_launched:
  "lifecycle s l t \<Longrightarrow> s \<noteq> StateIdle \<Longrightarrow> t \<noteq> StateIdle \<and> (\<forall>ok. Ran ''dmtcp_launch'' ok \<notin> set l)"
  by (induction rule: lifecycle.induct) (auto split: if_splits)

definition is_launch :: "life_event \<Rightarrow> bool" where
  "is_launch e \<longleftrightarrow> (\<exists>ok. e = Ran ''dmtcp_launch'' ok)"

lemma no_launch: "lifecycle s l t \<Longrightarrow> s \<noteq> StateIdle \<Longrightarrow> filter is_launch l = []"
  using lifecycle_launched by (fastforce simp: filter_empty_conv is_launch_def)

lemma lifecycle_launch_once: "lifecycle s l t \<Longrightarrow> length (filter is_launch l) \<le> 1"
proof (induction rule: lifecycle.induct)
  case (lc_launch ok l st)
  then have "filter is_launch l = []" by (intro no_launch) (auto split: if_splits)
  then show ?case by simp
next
  case (lc_attach l st s)
  then show ?case using no_launch [OF lc_attach.hyps] by (simp add: is_launch_def)
qed (simp_all add: is_launch_def)

text \<open>After a failure nothing but the restart in place of the agent is tried, until it attaches.\<close>

definition is_failure :: "life_event \<Rightarrow> bool" where
  "is_failure e \<longleftrightarrow> e = NothingFound \<or> e = Became False \<or> (\<exists>p. e = Ran p False)"

fun is_run :: "life_event \<Rightarrow> bool" where
  "is_run (Ran p ok) = True"
| "is_run _ = False"

lemma lifecycle_error_idle:
  "lifecycle s l t \<Longrightarrow> s = StateError \<Longrightarrow> \<not> list_ex is_run (takeWhile (\<lambda>e. e \<noteq> Attached) l)"
  by (induction rule: lifecycle.induct) auto

lemma lifecycle_after_failure:
  "lifecycle s l t \<Longrightarrow> l = k @ e # m \<Longrightarrow> is_failure e \<Longrightarrow> \<not> list_ex is_run (takeWhile (\<lambda>x. x \<noteq> Attached) m)"
proof (induction arbitrary: k rule: lifecycle.induct)
  case (lc_attach l st s)
  then show ?case by (cases k) (auto simp: is_failure_def)
qed (fastforce simp: Cons_eq_append_conv is_failure_def dest: lifecycle_error_idle split: if_splits)+

lemma lifecycle_became_last: "lifecycle s l t \<Longrightarrow> l = k @ Became True # m \<Longrightarrow> m = []"
  by (induction arbitrary: k rule: lifecycle.induct) (auto simp: Cons_eq_append_conv)

section \<open>A handler and its agent\<close>

datatype handler_op = Launch string | AttachRunning | Checkpoint | Restart | ExecRestart

fun run_op :: "dmtcp \<Rightarrow> handler_op \<Rightarrow> (unit, agent) io" where
  "run_op h (Launch cmd) = launch h cmd"
| "run_op h AttachRunning = attach_running"
| "run_op h Checkpoint = checkpoint h"
| "run_op h Restart = restart h"
| "run_op h ExecRestart = exec_restart h"

text \<open>Operations one after the other, until one of them has replaced the agent.\<close>

fun run_ops :: "dmtcp \<Rightarrow> handler_op list \<Rightarrow> agent \<Rightarrow> agent" where
  "run_ops h [] a = a"
| "run_ops h (op # ops) a =
     (case run_op h op a of (r, b) \<Rightarrow> if op = ExecRestart \<and> r = Inr () then b else run_ops h ops b)"

text \<open>What the log has of an event.\<close>

fun logged_as :: "action \<times> bool \<Rightarrow> life_event" where
  "logged_as (RunProgram (p # _), ok) = Ran p ok"
| "logged_as (ExecProgram _, ok) = Became ok"
| "logged_as (_, ok) = NothingFound"

definition in_log :: "life_event \<Rightarrow> bool" where
  "in_log e \<longleftrightarrow> e \<noteq> Attached \<and> e \<noteq> NothingFound"

text \<open>The events of one operation.\<close>

definition traced :: "handler_op \<Rightarrow> go_err + unit \<Rightarrow> agent \<Rightarrow> agent \<Rightarrow> life_event list \<Rightarrow> bool" where
  "traced op r a b es \<longleftrightarrow>
     (\<exists>l. a_log b = a_log a @ l \<and> map logged_as l = filter in_log es) \<and>
     lifecycle (a_state a) es (a_state b) \<and> count_list es Attached = (if op = AttachRunning then 1 else 0) \<and>
     (Became True \<in> set es \<longrightarrow> op = ExecRestart \<and> r = Inr ())"

lemma traced_refused: "op \<noteq> AttachRunning \<Longrightarrow> traced op r a a []"
  by (simp add: traced_def lc_stay)

lemma traced_lost:
  "a_log b = a_log a \<Longrightarrow> a_state b = StateError \<Longrightarrow> op \<noteq> AttachRunning \<Longrightarrow> traced op r a b [NothingFound]"
  by (auto simp: traced_def in_log_def intro: lc_lost lc_stay)

lemma traced_program:
  assumes "a_log b = a_log a @ [(RunProgram (p # args), ok)]" and "op \<noteq> AttachRunning"
    and "lifecycle (a_state a) [Ran p ok] (a_state b)"
  shows "traced op r a b [Ran p ok]"
  using assms by (simp add: traced_def in_log_def)

lemma lifecycle_one:
  "lifecycle StateIdle [Ran ''dmtcp_launch'' ok] (if ok then StateRunning else StateError)"
  "lifecycle StateRunning [Ran ''dmtcp_command'' ok] (if ok then StateCheckpointed else StateError)"
  "lifecycle StateCheckpointed [Ran ''dmtcp_restart'' ok] (if ok then StateRunning else StateError)"
  "lifecycle s [Became ok] (if ok then StateRestoring else StateError)"
  using lifecycle.intros(2-4) [OF lc_stay] lc_became lc_refused [OF lc_stay] by (auto split: if_splits)

lemma run_op_lifecycle:
  assumes "run_op h op a = (r, b)"
  shows "\<exists>es. traced op r a b es"
proof (cases op)
  case (Launch cmd)
  show ?thesis
  proof (cases "a_state a = StateIdle \<and> string_fields cmd \<noteq> []")
    case True
    with launch_run [of h cmd a r b] assms Launch obtain ok where
      "a_log b = a_log a @ [(RunProgram (''dmtcp_launch'' # coord_args h @ string_fields cmd), ok)]"
      "a_state b = (if ok then StateRunning else StateError)" by auto
    with True Launch lifecycle_one(1) [of ok] show ?thesis by (intro exI) (rule traced_program, auto)
  next
    case False
    with launch_run [of h cmd a r b] assms Launch traced_refused show ?thesis by (auto split: if_splits)
  qed
next
  case AttachRunning
  with assms have "b = a\<lparr>a_state := StateRunning\<rparr>" by (simp add: attach_running_def)
  with AttachRunning have "traced op r a b [Attached]"
    by (auto simp: traced_def in_log_def intro: lc_attach lc_stay)
  then show ?thesis ..
next
  case Checkpoint
  show ?thesis
  proof (cases "a_state a = StateRunning")
    case True
    with checkpoint_run [of h a r b] assms Checkpoint obtain ok where
      "a_log b = a_log a @ [(RunProgram (''dmtcp_command'' # coord_args h @ [''-bc'']), ok)]"
      "a_state b = (if ok then StateCheckpointed else StateError)" by auto
    with True Checkpoint lifecycle_one(2) [of ok] show ?thesis by (intro exI) (rule traced_program, auto)
  next
    case False
    with checkpoint_run [of h a r b] assms Checkpoint traced_refused show ?thesis by auto
  qed
next
  case Restart
  show ?thesis
  proof (cases "a_state a = StateCheckpointed")
    case True
    with restart_run [of h a r b] assms Restart consider
      "a_log b = a_log a" "a_state b = StateError"
      | ok f where "a_log b = a_log a @ [(RunProgram (''dmtcp_restart'' # coord_args h @ [f]), ok)]"
        "a_state b = (if ok then StateRunning else StateError)" by auto
    then show ?thesis
    proof cases
      case 1
      with Restart traced_lost [of b a op r] show ?thesis by auto
    next
      case 2
      with True Restart lifecycle_one(3) [of ok] show ?thesis by (intro exI) (rule traced_program, auto)
    qed
  next
    case False
    with restart_run [of h a r b] assms Restart traced_refused show ?thesis by auto
  qed
next
  case ExecRestart
  with exec_restart_trace [of h a r b] assms consider
    "a_log b = a_log a" "a_state b = StateError"
    | fs ok where "a_log b = a_log a @ [(ExecProgram (''dmtcp_restart'' # coord_args h @ fs), ok)]"
      "ok \<longleftrightarrow> r = Inr ()" "a_state b = (if ok then StateRestoring else StateError)" by auto
  then show ?thesis
  proof cases
    case 1
    with ExecRestart traced_lost [of b a op r] show ?thesis by auto
  next
    case 2
    with ExecRestart lifecycle_one(4) [of "a_state a" ok] have "traced op r a b [Became ok]"
      by (auto simp: traced_def in_log_def)
    then show ?thesis ..
  qed
qed

lemma run_ops_lifecycle:
  "b = run_ops h ops a \<Longrightarrow> \<exists>l es. a_log b = a_log a @ l \<and> map logged_as l = filter in_log es \<and>
     lifecycle (a_state a) es (a_state b) \<and> count_list es Attached \<le> count_list ops AttachRunning"
proof (induction ops arbitrary: a)
  case Nil
  then have "a_log b = a_log a @ []" "map logged_as [] = filter in_log []" "lifecycle (a_state a) [] (a_state b)"
    by (simp_all add: lc_stay)
  then show ?case by (intro exI [of _ "[]"]) simp
next
  case (Cons op ops)
  obtain r c where c: "run_op h op a = (r, c)" by (cases "run_op h op a")
  from run_op_lifecycle [OF c] obtain es l where es: "traced op r a c es"
    and l: "a_log c = a_log a @ l" "map logged_as l = filter in_log es" "lifecycle (a_state a) es (a_state c)"
      "count_list es Attached \<le> count_list [op] AttachRunning" by (fastforce simp: traced_def)
  show ?case
  proof (cases "op = ExecRestart \<and> r = Inr ()")
    case True
    with Cons.prems c have "b = c" by simp
    with l show ?thesis by (intro exI [of _ l] exI [of _ es]) (auto split: if_splits)
  next
    case False
    with es have on: "goes_on es" by (auto simp: traced_def goes_on_def)
    from False Cons.prems c have "b = run_ops h ops c" by auto
    from Cons.IH [OF this] obtain l' es' where l': "a_log b = a_log c @ l'" "map logged_as l' = filter in_log es'"
        "lifecycle (a_state c) es' (a_state b)" "count_list es' Attached \<le> count_list ops AttachRunning" by blast
    from lifecycle_trans [OF l(3) on l'(3)] have "lifecycle (a_state a) (es @ es') (a_state b)" .
    with l l' show ?thesis
      by (intro exI [of _ "l @ l'"] exI [of _ "es @ es'"]) (auto split: if_splits)
  qed
qed

text \<open>
  C18: whatever operations a handler is given, in whatever order and however the programs end,
  what it does follows the life cycle from its state before to its state after, and the log shows
  it. Hence the application is launched at most once; after a failure no program is run until the
  handler is told to attach (only replacing the agent can still be tried); and once the agent has
  been replaced nothing follows.
\<close>

theorem handler_follows_lifecycle:
  assumes "b = run_ops h ops a"
  shows "\<exists>l es. a_log b = a_log a @ l \<and> map logged_as l = filter in_log es \<and>
      lifecycle (a_state a) es (a_state b) \<and> count_list es Attached \<le> count_list ops AttachRunning \<and>
      length (filter is_launch es) \<le> 1 \<and>
      (\<forall>k e m. es = k @ e # m \<longrightarrow> is_failure e \<longrightarrow> \<not> list_ex is_run (takeWhile (\<lambda>x. x \<noteq> Attached) m)) \<and>
      (\<forall>k m. es = k @ Became True # m \<longrightarrow> m = [])"
proof -
  from run_ops_lifecycle [OF assms] obtain l es where
    "a_log b = a_log a @ l" "map logged_as l = filter in_log es" and es: "lifecycle (a_state a) es (a_state b)"
    and "count_list es Attached \<le> count_list ops AttachRunning" by blast
  with lifecycle_launch_once [OF es] lifecycle_after_failure [OF es] lifecycle_became_last [OF es]
  show ?thesis by blast
qed

section \<open>Waiting\<close>

lemma newest_file_member:
  "newest_file ms best a = (Inr f, b) \<Longrightarrow> f = fst best \<or> f \<in> set ms"
  by (induction ms arbitrary: best a)
     (fastforce simp: andthen_def attempt_def split: sum.splits prod.splits if_splits)+

lemma has_suffix_path_join:
  "latest_checkpoint_file h a = (Inr f, b) \<Longrightarrow>
   \<exists>n. has_suffix n ''.dmtcp'' \<and> f = path_join (dh_dir h) n"
  by (auto simp: latest_checkpoint_file_def andthen_eq_Inr list_checkpoints_def matches_in_def
      dest!: newest_file_member split: option.splits prod.splits sum.splits if_splits)

text \<open>
  C27: waiting for a checkpoint file always ends, whatever happens in the directory meanwhile:
  with a \<open>.dmtcp\<close> file of the checkpoint directory, or with an error once the time is over.
\<close>

theorem wait_ends:
  assumes "wait_for_checkpoint_file h timeout a = (r, b)"
  shows "case r of
      Inr f \<Rightarrow> \<exists>n. has_suffix n ''.dmtcp'' \<and> f = path_join (dh_dir h) n
    | Inl e \<Rightarrow> a_clock a + timeout \<le> a_clock b \<and>
        e = errorf (''timed out waiting for checkpoint file in '' @ dh_dir h)"
proof -
  have "wait_loop h deadline a = (r, b) \<Longrightarrow> case r of
      Inr f \<Rightarrow> \<exists>n. has_suffix n ''.dmtcp'' \<and> f = path_join (dh_dir h) n
    | Inl e \<Rightarrow> deadline \<le> a_clock b \<and>
        e = errorf (''timed out waiting for checkpoint file in '' @ dh_dir h)" for deadline
  proof (induction h deadline a rule: wait_loop.induct)
    case (1 h deadline a)
    then show ?case
      by (subst (asm) (2) wait_loop.simps)
         (auto dest: has_suffix_path_join split: if_splits prod.splits sum.splits)
  qed
  with assms show ?thesis by (simp add: wait_for_checkpoint_file_def)
qed

end
