(* ===== verification/AgentTrace.thy ===== *)
theory AgentTrace
  imports EndContainer DmtcpSpec
begin

text \<open>
  What the operations of the source side let out: the actions they log. \<open>emits P m\<close> says that
  \<open>m\<close> only adds actions that satisfy \<open>P\<close>, all of them successful if \<open>m\<close> succeeds, and all but the
  last if it fails: nothing leaves the agent after a failure. The rules follow the composition of
  operations; each operation of the overlay manager and of the DMTCP handler then has one lemma.
\<close>

section \<open>Emitted actions\<close>

definition well_ended :: "(action \<Rightarrow> bool) \<Rightarrow> bool \<Rightarrow> (action \<times> bool) list \<Rightarrow> bool" where
  "well_ended P failed l \<longleftrightarrow>
     list_all (P \<circ> fst) l \<and> list_all snd (if failed then butlast l else l)"

definition emits_from :: "(action \<Rightarrow> bool) \<Rightarrow> ('a, agent) io \<Rightarrow> agent \<Rightarrow> bool" where
  "emits_from P m a \<longleftrightarrow>
     (\<exists>l. a_log (snd (m a)) = a_log a @ l \<and> well_ended P (isl (fst (m a))) l)"

definition emits :: "(action \<Rightarrow> bool) \<Rightarrow> ('a, agent) io \<Rightarrow> bool" where
  "emits P m \<longleftrightarrow> (\<forall>a. emits_from P m a)"

named_theorems emitting \<open>which actions an operation lets out\<close>

lemma well_ended_append:
  "well_ended P False l \<Longrightarrow> well_ended P failed k \<Longrightarrow> well_ended P failed (l @ k)"
  by (auto simp: well_ended_def butlast_append list_all_iff dest: in_set_butlastD)

lemma well_ended_Nil [simp]: "well_ended P failed []"
  by (simp add: well_ended_def)

lemma emits_fromI:
  "m a = (r, b) \<Longrightarrow> a_log b = a_log a @ l \<Longrightarrow> well_ended P (isl r) l \<Longrightarrow> emits_from P m a"
  by (auto simp: emits_from_def)

lemma emitsD:
  assumes "emits P m" and "m a = (r, b)"
  obtains l where "a_log b = a_log a @ l" and "well_ended P (isl r) l"
proof -
  from assms(1) have "emits_from P m a" by (simp add: emits_def)
  with assms(2) that show ?thesis by (auto simp: emits_from_def)
qed

lemma emits_nothing:
  assumes "emits (\<lambda>_. False) m" and "m a = (r, b)"
  shows "a_log b = a_log a"
proof -
  from assms obtain l where "a_log b = a_log a @ l" and "well_ended (\<lambda>_. False) (isl r) l"
    by (rule emitsD)
  then show ?thesis by (cases l) (simp_all add: well_ended_def)
qed

text \<open>An operation that lets out nothing.\<close>

lemma emits_none: "(\<And>a. a_log (snd (m a)) = a_log a) \<Longrightarrow> emits P m"
  by (simp add: emits_def emits_from_def exI [of _ "[]"])

lemma emits_silent: "keeps silent m \<Longrightarrow> emits P m"
  by (rule emits_none) (simp add: keeps_def silent_def)

lemma emits_ret [emitting]: "emits P (ret x)"
  by (rule emits_none) simp

lemma emits_throw [emitting]: "emits P (throw e)"
  by (rule emits_none) simp

lemma emits_reading [emitting]: "emits P (reading f)"
  by (rule emits_silent) (rule silent_reading)

lemma emits_changing [emitting]: "emits P (changing f)"
proof (rule emits_none)
  fix a
  obtain q c where "next_outcome a = (q, c)" by (cases "next_outcome a")
  then show "a_log (snd (changing f a)) = a_log a"
    using next_outcome_fields(1) [of a q c]
    by (simp add: changing_def split: option.split prod.split)
qed

lemma emits_perform: "P act \<Longrightarrow> emits P (perform act)"
  unfolding emits_def
proof
  fix a
  assume act: "P act"
  obtain r b where b: "perform act a = (r, b)" by (cases "perform act a")
  from perform_run [OF b] obtain ok
    where "a_log b = a_log a @ [(act, ok)]" and "ok \<longleftrightarrow> r = Inr ()" by auto
  with act b show "emits_from P (perform act) a"
    by (cases r) (auto simp: emits_from_def well_ended_def)
qed

lemma emits_levels [emitting]:
  "emits P get_level" "emits P (set_level n)" "emits P (set_state st)" "emits P get_state"
  by (rule emits_none, simp add: get_level_def set_level_def)+

lemma emits_when_on [emitting]: "(c \<Longrightarrow> emits P m) \<Longrightarrow> emits P (when_on c x m)"
  by (cases c) (simp_all add: when_on_def emits_ret del: ret_run)

lemma emits_if [emitting]:
  "(c \<Longrightarrow> emits P m) \<Longrightarrow> (\<not> c \<Longrightarrow> emits P m') \<Longrightarrow> emits P (if c then m else m')"
  by simp

lemma emits_from_andthen:
  assumes "emits_from P m a"
    and "\<And>x b. m a = (Inr x, b) \<Longrightarrow> emits_from P (f x) b"
  shows "emits_from P (andthen m f) a"
proof -
  obtain r b where b: "m a = (r, b)" by (cases "m a")
  with assms(1) obtain l where l: "a_log b = a_log a @ l" "well_ended P (isl r) l"
    by (auto simp: emits_from_def)
  show ?thesis
  proof (cases r)
    case (Inl e)
    with b l show ?thesis by (auto simp: emits_from_def andthen_def)
  next
    case (Inr x)
    with assms(2) [of x b] b obtain k where
      k: "a_log (snd (f x b)) = a_log b @ k" "well_ended P (isl (fst (f x b))) k"
      by (auto simp: emits_from_def)
    with l Inr well_ended_append [of P l _ k]
    have "a_log (snd (f x b)) = a_log a @ l @ k \<and> well_ended P (isl (fst (f x b))) (l @ k)"
      by simp
    moreover from b Inr have "andthen m f a = f x b" by (simp add: andthen_def)
    ultimately show ?thesis unfolding emits_from_def by metis
  qed
qed

lemma emits_andthen [emitting]:
  "emits P m \<Longrightarrow> (\<And>x. emits P (f x)) \<Longrightarrow> emits P (andthen m f)"
  unfolding emits_def by (blast intro: emits_from_andthen)

lemma isl_wrapping [simp]: "isl (fst (wrapping pre m a)) = isl (fst (m a))"
  by (simp add: wrapping_def split: prod.split sum.split)

lemma or_error_state_fields [simp]:
  "isl (fst (or_error_state m a)) = isl (fst (m a))"
  "a_log (snd (or_error_state m a)) = a_log (snd (m a))"
  by (simp_all add: or_error_state_def split: prod.split sum.split)

lemma emits_wrapping [emitting]: "emits P m \<Longrightarrow> emits P (wrapping pre m)"
  by (simp add: emits_def emits_from_def)

lemma emits_or_error [emitting]: "emits P m \<Longrightarrow> emits P (or_error_state m)"
  by (simp add: emits_def emits_from_def)

lemma emits_for_each: "(\<And>x. x \<in> set xs \<Longrightarrow> emits P (f x)) \<Longrightarrow> emits P (for_each f xs)"
proof (induction xs)
  case Nil
  show ?case by (rule emits_none) simp
next
  case (Cons x xs)
  have "for_each f (x # xs) = andthen (f x) (\<lambda>_. for_each f xs)" by (rule ext) simp
  then show ?case using Cons by (auto intro: emits_andthen)
qed

lemma emits_weaken: "emits P m \<Longrightarrow> (\<And>act. P act \<Longrightarrow> Q act) \<Longrightarrow> emits Q m"
  unfolding emits_def emits_from_def well_ended_def list_all_iff by (metis comp_apply)

text \<open>An operation that first looks at the state.\<close>

lemma emits_dep: "(\<And>a. f a = m a a) \<Longrightarrow> (\<And>c. emits P (m c)) \<Longrightarrow> emits P f"
  unfolding emits_def emits_from_def by simp

lemma emits_attempt: "keeps silent m \<Longrightarrow> emits P (attempt m)"
  by (rule emits_silent) (rule silence.keeps_attempt)

lemma emits_attempt_nothing: "emits (\<lambda>_. False) m \<Longrightarrow> emits P (attempt m)"
proof (rule emits_none)
  fix a
  assume m: "emits (\<lambda>_. False) m"
  obtain q c where c: "m a = (q, c)" by (cases "m a")
  with emits_nothing [OF m, of a q c] show "a_log (snd (attempt m a)) = a_log a"
    by (simp add: attempt_def)
qed

lemma emits_os [emitting]:
  "emits P (os_stat p)" "emits P (os_read_dir p)" "emits P (os_mkdir_all p perm)"
  "emits P (os_write_file p perm content)" "emits P (os_remove p)" "emits P (os_symlink l p)"
  by (rule emits_dep, simp only: os_stat_def os_read_dir_def os_mkdir_all_def os_write_file_def
      os_remove_def os_symlink_def, rule emitting)+

lemma silent_os: "keeps silent (os_stat p)" "keeps silent (os_read_dir p)"
  using silent_reading unfolding keeps_def by (auto simp: os_stat_def os_read_dir_def)

section \<open>The volume\<close>

fun volume_action :: "string \<Rightarrow> action \<Rightarrow> bool" where
  "volume_action dest (RunProgram argv) = (argv \<noteq> [] \<and> hd argv \<in> {''mount'', ''umount''})"
| "volume_action dest (SendFrame d h es) = (d = dest \<and> dest \<noteq> [] \<and> fh_kind h = kind_layer)"
| "volume_action dest _ = False"

lemma silent_numbered: "keeps silent (numbered_dirs lm pre)"
  unfolding numbered_dirs_def
  by (rule silence.keeps_andthen [OF silence.keeps_attempt [OF silent_os(2)]])
     (auto split: sum.split intro: silence.keeps_ret silence.keeps_throw)

lemma silent_is_sent: "keeps silent (is_sent lm n)"
  unfolding is_sent_def
  by (rule silence.keeps_andthen [OF silence.keeps_attempt [OF silent_os(1)]])
     (rule silence.keeps_ret)

lemma emits_looking [emitting]: "emits P (numbered_dirs lm pre)" "emits P (is_sent lm n)"
  by (rule emits_silent, rule silent_numbered, rule emits_silent, rule silent_is_sent)

lemma emits_mark [emitting]: "emits P (mark_sent lm n)"
  unfolding mark_sent_def by (intro emitting)

lemma emits_mk_level_dirs [emitting]: "emits P (mk_level_dirs lm level)"
  unfolding mk_level_dirs_def by (intro emits_for_each emitting)

lemma emits_runner:
  "(\<And>args. P (RunProgram (name # args))) \<Longrightarrow> emits P (exec_runner name args)"
  unfolding exec_runner_def run_command_def by (intro emits_wrapping emits_perform) blast

lemma emits_mounts [emitting]:
  "emits (volume_action dest) (mount_level lm level lowerdir)"
  "emits (volume_action dest) (bind_level lm level)"
  "emits (volume_action dest) (unbind_root lm)"
  "emits (volume_action dest) (unmount_level lm n)"
  unfolding mount_level_def bind_level_def unbind_root_def unmount_level_def
  by (intro emits_wrapping emits_runner, simp)+

lemma emits_dial [emitting]: "emits P (dial addr)"
  unfolding dial_def by (intro emitting)

lemma emits_send_frame:
  "(\<And>es. P (SendFrame addr h es)) \<Longrightarrow> emits P archive \<Longrightarrow> emits P (send_frame addr h archive)"
  by (rule emits_dep [where m = "\<lambda>_. send_frame addr h archive"], rule refl)
     (auto simp: send_frame_def split: sum.split intro!: emits_andthen emits_perform emits_throw)

lemma emits_send_dir:
  "dest \<noteq> [] \<Longrightarrow> emits (volume_action dest) (send_dir dest n name dir)"
  unfolding send_dir_def
  by (intro emits_andthen emits_dial emits_send_frame emits_wrapping)
     (simp, rule emits_dep [where m = "\<lambda>a. reading (tar_dir (located a dir))"], simp, rule emits_reading)

lemma emits_send_layer:
  "dest \<noteq> [] \<Longrightarrow> emits (volume_action dest) (send_layer lm what dest n)"
  unfolding send_layer_def by (intro emits_andthen emits_wrapping emits_send_dir emits_mark)

lemma emits_copy_layer:
  "dest \<noteq> [] \<Longrightarrow> emits (volume_action dest) (copy_layer lm dest n)"
  unfolding copy_layer_def
  by (auto intro!: emits_andthen emits_levels emits_looking emits_ret emits_send_layer)

lemma emits_volume [emitting]:
  "emits (volume_action dest) (discover lm)"
  "emits (volume_action dest) (init_volume lm)"
  "emits (volume_action dest) (create_checkpoint lm)"
  "emits (volume_action dest) (copy_checkpoint lm dest)"
  "emits (volume_action dest) (end_volume lm dest)"
  unfolding discover_def init_volume_def create_checkpoint_def copy_checkpoint_def end_volume_def Let_def
  by (auto intro!: emitting emits_for_each emits_copy_layer emits_send_layer)

lemma emits_volume_round [emitting]: "emits (volume_action dest) (volume_round lm dest i)"
  unfolding volume_round_def by (intro emitting)

lemma emits_rounds [emitting]: "emits (volume_action dest) (volume_rounds lm dest n)"
  unfolding volume_rounds_def by (intro emitting emits_for_each)

lemma emits_pre_transfer [emitting]: "emits (volume_action dest) (volume_pre_transfer lm dest)"
  unfolding volume_pre_transfer_def
proof (intro emitting)
  show "emits (volume_action dest) (\<lambda>a. if 0 < level \<and> dest \<noteq> []
      then volume_rounds lm dest (env_int (a_env a) ''CHECKPOINT_ROUNDS'' 1) a else ret 0 a)" for level
    by (rule emits_dep [where m = "\<lambda>a. if 0 < level \<and> dest \<noteq> []
          then volume_rounds lm dest (env_int (a_env a) ''CHECKPOINT_ROUNDS'' 1) else ret 0"])
       (auto intro: emitting)
qed

lemma emits_volume_end [emitting]: "emits (volume_action dest) (volume_end lm dest)"
  unfolding volume_end_def by (auto intro!: emitting emits_send_dir)

section \<open>The process\<close>

fun process_action :: "string \<Rightarrow> action \<Rightarrow> bool" where
  "process_action dest (RunProgram argv) = (argv \<noteq> [] \<and> hd argv = ''dmtcp_command'')"
| "process_action dest (SendFrame d h es) =
     (d = dest \<and> dest \<noteq> [] \<and> fh_kind h = kind_checkpoint_file)"
| "process_action dest _ = False"

lemma emits_checkpoint [emitting]: "emits (process_action dest) (checkpoint h)"
  unfolding checkpoint_def
  by (auto intro!: emits_andthen emits_levels emits_throw emits_or_error emits_wrapping emits_perform)

lemma emits_wait [emitting]: "emits P (wait_for_checkpoint_file h timeout)"
proof (rule emits_none)
  have "a_log (snd (wait_loop h deadline a)) = a_log a" for deadline a
  proof (induction h deadline a rule: wait_loop.induct)
    case (1 h deadline a)
    obtain r b where b: "latest_checkpoint_file h a = (r, b)" by (cases "latest_checkpoint_file h a")
    then have "a_log b = a_log a" using keeps_run [OF silent_latest] by (simp add: silent_def)
    moreover have "a_log (snd (sleep_half b)) = a_log b"
      using next_outcome_fields(1) [of b] by (simp add: sleep_half_def) (metis prod.collapse)
    ultimately show ?case using 1 b by (subst wait_loop.simps) (auto split: sum.split)
  qed
  then show "a_log (snd (wait_for_checkpoint_file h timeout a)) = a_log a" for a
    by (simp add: wait_for_checkpoint_file_def)
qed

lemma emits_list [emitting]: "emits P (list_checkpoints h)"
  by (rule emits_silent) (rule silent_list)

lemma emits_send_file:
  "dest \<noteq> [] \<Longrightarrow> emits (process_action dest) (send_checkpoint_file dest f)"
  unfolding send_checkpoint_file_def
  by (intro emits_andthen emits_dial emits_send_frame emits_wrapping emits_os)
     (auto simp: file_archive_def split: sum.split intro!: emits_throw emits_ret)

lemma emits_process [emitting]: "emits (process_action dest) (process_checkpoint dir dest)"
proof (rule emits_dep [where m = "\<lambda>a. checkpoint_with (new_handler_from_env (a_env a) dir) dest"])
  show "process_checkpoint dir dest a = checkpoint_with (new_handler_from_env (a_env a) dir) dest a" for a
    by (rule process_checkpoint_def)
  show "emits (process_action dest) (checkpoint_with (new_handler_from_env (a_env a) dir) dest)" for a
    unfolding checkpoint_with_def send_checkpoint_files_def attach_running_def
    by (auto intro!: emits_andthen emits_wrapping emits_checkpoint emits_wait emits_list emits_ret
        emits_for_each emits_send_file emits_levels simp del: set_state_run)
qed

section \<open>The sequence of the preStop hook\<close>

text \<open>What may leave the source between the answer to \<open>/remove\<close> and DONE, given that answer.\<close>

definition source_action :: "remove_response \<Rightarrow> action \<Rightarrow> bool" where
  "source_action resp act \<longleftrightarrow>
     (rr_volume_migration resp \<and> volume_action (rr_dest_address resp) act) \<or>
     (rr_process_migration resp \<and> process_action (rr_dest_address resp) act)"

lemma emits_source:
  "rr_volume_migration resp \<Longrightarrow> emits (volume_action (rr_dest_address resp)) m \<Longrightarrow>
   emits (source_action resp) m"
  "rr_process_migration resp \<Longrightarrow> emits (process_action (rr_dest_address resp)) m \<Longrightarrow>
   emits (source_action resp) m"
  by (erule emits_weaken, simp add: source_action_def)+

lemma emits_transfer_out:
  "(vol \<Longrightarrow> rr_volume_migration resp) \<Longrightarrow>
   emits (source_action resp)
     (transfer_out lm (rr_process_migration resp) vol dir (rr_dest_address resp))"
  unfolding transfer_out_def
  by (intro emits_andthen emits_when_on emits_ret)
     (blast intro: emits_source emits_pre_transfer emits_process emits_volume_end)+

end
