(* ===== verification/OverlaySteps.thy ===== *)
theory OverlaySteps
  imports Overlay AgentTrace
begin

text \<open>
  The commands of the layer manager: how its arguments reach the programs it runs, and which
  mounts each method performs, in which order, on success and on every failure, whatever else
  happens on the machine in the meantime.
\<close>

section \<open>Arguments\<close>

text \<open>A character that no white space starts with.\<close>

definition word_char :: "char \<Rightarrow> bool" where
  "word_char c \<longleftrightarrow> c \<notin> hd ` set spaces"

definition word :: "string \<Rightarrow> bool" where
  "word w \<longleftrightarrow> w \<noteq> [] \<and> list_all word_char w"

lemma space_prefix_word: "word_char c \<Longrightarrow> space_prefix (c # s) = None"
proof -
  assume c: "word_char c"
  have "\<not> has_prefix (c # s) p" if "p \<in> set spaces" for p
  proof -
    have "p \<noteq> []" using that by (auto simp: spaces_def)
    moreover have "hd p \<noteq> c" using c that by (auto simp: word_char_def)
    ultimately show ?thesis by (cases p) (auto simp: has_prefix_def)
  qed
  then show ?thesis by (auto simp: space_prefix_def find_None_iff)
qed

lemma space_prefix_space: "space_prefix (CHR '' '' # s) = Some '' ''"
proof -
  have "char_of (32 :: nat) = CHR '' ''" by code_simp
  then show ?thesis by (simp add: space_prefix_def spaces_def has_prefix_def)
qed

lemma trim_left_word: "word_char c \<Longrightarrow> trim_left_space (c # s) = c # s"
  by (simp add: trim_left_space.simps space_prefix_word)

lemma trim_left_one_space: "trim_left_space (CHR '' '' # s) = trim_left_space s"
  by (subst trim_left_space.simps) (simp add: space_prefix_space)

lemma trim_left_Nil [simp]: "trim_left_space [] = []"
  using trim_left_space_length [of "[]"] by simp

lemma take_word_to_space:
  "list_all word_char w \<Longrightarrow> take_word (w @ CHR '' '' # s) = (w, CHR '' '' # s)"
  by (induction w) (simp_all add: space_prefix_word space_prefix_space)

lemma take_word_all: "list_all word_char w \<Longrightarrow> take_word w = (w, [])"
  by (induction w) (simp_all add: space_prefix_word)

lemma string_fields_word:
  assumes "word w"
  shows "string_fields w = [w]"
    and "string_fields (w @ CHR '' '' # s) = w # string_fields (CHR '' '' # s)"
proof -
  obtain c u where w: "w = c # u" "word_char c" using assms by (cases w) (auto simp: word_def)
  have nil: "string_fields [] = []" by (subst string_fields.simps) simp
  show "string_fields w = [w]"
    using assms w nil take_word_all [of w]
    by (subst string_fields.simps) (simp add: trim_left_word word_def)
  show "string_fields (w @ CHR '' '' # s) = w # string_fields (CHR '' '' # s)"
    using assms w take_word_to_space [of w s]
    by (subst string_fields.simps) (simp add: trim_left_word word_def)
qed

lemma string_fields_space: "string_fields (CHR '' '' # s) = string_fields s"
  by (subst string_fields.simps, subst (2) string_fields.simps) (simp add: trim_left_one_space)

lemma string_fields_join: "list_all word args \<Longrightarrow> string_fields (join_with '' '' args) = args"
proof (induction args rule: induct_list012)
  case 1
  then show ?case by (subst string_fields.simps) simp
next
  case (3 a b args)
  then show ?case
    using string_fields_word(2) [of a "join_with '' '' (b # args)"]
    by (simp add: string_fields_space)
qed (simp add: string_fields_word)

text \<open>
  The arguments that a program is run with are those the caller gave, although they are joined
  into one string and split again in between, provided that each is a word; a path with a space in
  it arrives as two arguments.
\<close>

lemma runner_keeps_arguments:
  "list_all word args \<Longrightarrow> exec_runner name args =
     wrapping (name @ '' '' @ join_with '' '' args) (perform (RunProgram (name # args)))"
  by (simp add: exec_runner_def run_command_def string_fields_join)

lemma runner_splits_spaces:
  "exec_runner ''umount'' [''-l'', ''/my data''] =
     wrapping ''umount -l /my data'' (perform (RunProgram [''umount'', ''-l'', ''/my'', ''data'']))"
proof -
  have "list_all word [''-l'', ''/my'', ''data'']" by code_simp
  from string_fields_join [OF this] have "string_fields ''-l /my data'' = [''-l'', ''/my'', ''data'']"
    by simp
  then show ?thesis by (simp add: exec_runner_def run_command_def)
qed

section \<open>Sequences of commands\<close>

definition argv :: "string \<Rightarrow> string list \<Rightarrow> action" where
  "argv name args = RunProgram (name # string_fields (join_with '' '' args))"

text \<open>
  An operation that runs the given commands in this order, all of them if it succeeds; if it fails
  it has run a first part of them, all but the last with success. It leaves the level alone.
\<close>

definition steps :: "action list \<Rightarrow> ('a, agent) io \<Rightarrow> bool" where
  "steps cmds m \<longleftrightarrow> (\<forall>a. a_level (snd (m a)) = a_level a \<and>
     (\<exists>l. a_log (snd (m a)) = a_log a @ l \<and>
       (if isl (fst (m a)) then prefix (map fst l) cmds \<and> list_all snd (butlast l)
        else map fst l = cmds \<and> list_all snd l)))"

named_theorems stepping \<open>the commands an operation runs\<close>

text \<open>Operations without commands.\<close>

definition quiet_level :: "agent \<Rightarrow> agent \<Rightarrow> bool" where
  "quiet_level a b \<longleftrightarrow> a_log b = a_log a \<and> a_level b = a_level a"

interpretation level_silence: kept quiet_level
  by unfold_locales (auto simp: quiet_level_def)

lemma level_next: "quiet_level a (snd (next_outcome a))"
  using next_outcome_fields(1,2) [of a "fst (next_outcome a)" "snd (next_outcome a)"]
  by (simp add: quiet_level_def)

lemma keeps_level_calls: "keeps quiet_level (reading f)" "keeps quiet_level (changing g)"
  unfolding keeps_def reading_def changing_def
  using level_next by (auto simp: quiet_level_def split: prod.split option.split) (metis snd_conv)+

lemma keeps_level_os:
  "keeps quiet_level (os_stat p)" "keeps quiet_level (os_read_dir p)"
  "keeps quiet_level (os_mkdir_all p perm)" "keeps quiet_level (os_write_file p perm content)"
  using keeps_level_calls unfolding keeps_def
  by (auto simp: os_stat_def os_read_dir_def os_mkdir_all_def os_write_file_def)

lemma keeps_level_numbered: "keeps quiet_level (numbered_dirs lm pre)"
  unfolding numbered_dirs_def
  by (rule level_silence.keeps_andthen [OF level_silence.keeps_attempt [OF keeps_level_os(2)]])
     (auto split: sum.split intro: level_silence.keeps_ret level_silence.keeps_throw)

lemma keeps_level_mk_dirs: "keeps quiet_level (mk_level_dirs lm level)"
  unfolding mk_level_dirs_def
  by (intro level_silence.keeps_for_each level_silence.keeps_wrapping keeps_level_os)

lemma steps_silent: "keeps quiet_level m \<Longrightarrow> steps [] m"
  unfolding steps_def keeps_def quiet_level_def by (auto intro!: exI [of _ "[]"])

lemma steps_command [stepping]: "steps [argv name args] (wrapping pre (exec_runner name args))"
  unfolding steps_def
proof
  fix a
  obtain r b where b: "perform (argv name args) a = (r, b)" by (cases "perform (argv name args) a")
  obtain q c where c: "next_outcome a = (q, c)" by (cases "next_outcome a")
  have "a_level b = a_level a"
    using b c next_outcome_fields(2) [OF c] by (auto simp: perform_def split: option.splits)
  moreover from perform_run [OF b] obtain ok
    where "a_log b = a_log a @ [(argv name args, ok)]" and "ok \<longleftrightarrow> r = Inr ()" by auto
  ultimately show "a_level (snd (wrapping pre (exec_runner name args) a)) = a_level a \<and>
      (\<exists>l. a_log (snd (wrapping pre (exec_runner name args) a)) = a_log a @ l \<and>
        (if isl (fst (wrapping pre (exec_runner name args) a))
         then prefix (map fst l) [argv name args] \<and> list_all snd (butlast l)
         else map fst l = [argv name args] \<and> list_all snd l))"
    using b by (cases r) (auto simp: exec_runner_def run_command_def argv_def intro!: exI [of _ "[_]"])
qed

lemma steps_andthen:
  assumes "steps cs m" and "\<And>x. steps ds (f x)"
  shows "steps (cs @ ds) (andthen m f)"
  unfolding steps_def
proof
  fix a
  obtain r b where b: "m a = (r, b)" by (cases "m a")
  with assms(1) obtain l where l: "a_level b = a_level a" "a_log b = a_log a @ l"
      "if isl r then prefix (map fst l) cs \<and> list_all snd (butlast l) else map fst l = cs \<and> list_all snd l"
    unfolding steps_def by (metis fst_conv snd_conv)
  let ?goal = "\<lambda>p. a_level (snd p) = a_level a \<and> (\<exists>l. a_log (snd p) = a_log a @ l \<and>
      (if isl (fst p) then prefix (map fst l) (cs @ ds) \<and> list_all snd (butlast l)
       else map fst l = cs @ ds \<and> list_all snd l))"
  show "?goal (andthen m f a)"
  proof (cases r)
    case (Inl e)
    with b l show ?thesis by (auto simp: andthen_def)
  next
    case (Inr x)
    then have eq: "andthen m f a = f x b" using b by (simp add: andthen_def)
    from assms(2) [of x] obtain k where k: "a_level (snd (f x b)) = a_level b"
        "a_log (snd (f x b)) = a_log b @ k"
        "if isl (fst (f x b)) then prefix (map fst k) ds \<and> list_all snd (butlast k)
         else map fst k = ds \<and> list_all snd k"
      unfolding steps_def by blast
    have "list_all snd (butlast (l @ k))" if "list_all snd (butlast k)"
      using that l(3) Inr by (auto simp: butlast_append list_all_iff dest: in_set_butlastD)
    with l k Inr show ?thesis unfolding eq by (intro conjI exI [of _ "l @ k"]) auto
  qed
qed

lemma steps_after:
  "keeps quiet_level m \<Longrightarrow> (\<And>x. steps ds (f x)) \<Longrightarrow> steps ds (andthen m f)"
  using steps_andthen [OF steps_silent, of m ds f] by simp

section \<open>The methods\<close>

definition mount_action :: "layer_manager \<Rightarrow> int \<Rightarrow> string \<Rightarrow> action" where
  "mount_action lm level lowerdir =
     argv ''mount'' [''-t'', ''overlay'', ''overlay'', ''-o'', overlay_options lm level lowerdir,
       lm_dir lm ''o'' level]"

definition bind_action :: "layer_manager \<Rightarrow> int \<Rightarrow> action" where
  "bind_action lm level = argv ''mount'' [''--bind'', lm_dir lm ''o'' level, lm_root_dir lm]"

definition unbind_action :: "layer_manager \<Rightarrow> action" where
  "unbind_action lm = argv ''umount'' [''-l'', lm_root_dir lm]"

definition unmount_action :: "layer_manager \<Rightarrow> int \<Rightarrow> action" where
  "unmount_action lm n = argv ''umount'' [''-l'', lm_dir lm ''o'' n]"

lemma steps_mounts [stepping]:
  "steps [mount_action lm level lowerdir] (mount_level lm level lowerdir)"
  "steps [bind_action lm level] (bind_level lm level)"
  "steps [unbind_action lm] (unbind_root lm)"
  "steps [unmount_action lm n] (unmount_level lm n)"
  unfolding mount_action_def bind_action_def unbind_action_def unmount_action_def
    mount_level_def bind_level_def unbind_root_def unmount_level_def
  by (rule steps_command)+

lemma steps_unmount_all: "steps (map (unmount_action lm) ns) (for_each (unmount_level lm) ns)"
proof (induction ns)
  case Nil
  then show ?case by (simp add: steps_def)
next
  case (Cons n ns)
  have "for_each (unmount_level lm) (n # ns) =
      andthen (unmount_level lm n) (\<lambda>_. for_each (unmount_level lm) ns)"
    by (rule ext) simp
  with steps_andthen [OF steps_mounts(4) Cons] show ?case by simp
qed

text \<open>Commands run in order and then a new level.\<close>

lemma steps_then_level:
  assumes "steps cmds m" and "andthen m (\<lambda>_. andthen (set_level n) f) a = (r, b)"
    and "\<And>c. \<exists>x. f () c = (Inr x, c)"
  shows "\<exists>l. a_log b = a_log a @ l \<and>
     (if isl r then a_level b = a_level a \<and> prefix (map fst l) cmds \<and> list_all snd (butlast l)
      else a_level b = n \<and> map fst l = cmds \<and> list_all snd l)"
proof -
  obtain q c where c: "m a = (q, c)" by (cases "m a")
  with assms(1) have s: "a_level c = a_level a \<and> (\<exists>l. a_log c = a_log a @ l \<and>
      (if isl q then prefix (map fst l) cmds \<and> list_all snd (butlast l)
       else map fst l = cmds \<and> list_all snd l))"
    unfolding steps_def by (metis fst_conv snd_conv)
  show ?thesis
  proof (cases q)
    case (Inl e)
    with assms(2) c s show ?thesis by (auto simp: andthen_def)
  next
    case (Inr u)
    then obtain x where "f () (c\<lparr>a_level := n\<rparr>) = (Inr x, c\<lparr>a_level := n\<rparr>)" using assms(3) by blast
    with assms(2) c Inr have "r = Inr x" and "b = c\<lparr>a_level := n\<rparr>"
      by (auto simp: andthen_def set_level_def)
    with s Inr show ?thesis by auto
  qed
qed

lemma all_worked: "map fst l = cmds \<Longrightarrow> list_all snd l \<Longrightarrow> l = map (\<lambda>act. (act, True)) cmds"
  by (induction l arbitrary: cmds) auto

text \<open>
  C26: freezing a layer stacks the next level on the frozen one, takes the volume away from its
  place and binds the new level there, in this order; it returns the frozen level and moves to the
  next only when all three commands worked. When one fails the level stays, and the commands before
  it have been run: a failing bind leaves the volume unbound.
\<close>

theorem create_checkpoint_steps:
  assumes "create_checkpoint lm a = (r, b)"
  shows "if a_level a = 0 then b = a \<and> isl r
     else \<exists>l. a_log b = a_log a @ l \<and>
       (let level = a_level a + 1;
            cmds = [mount_action lm level (lm_dir lm ''o'' (a_level a)), unbind_action lm, bind_action lm level]
        in case r of
             Inl _ \<Rightarrow> a_level b = a_level a \<and> prefix (map fst l) cmds \<and> list_all snd (butlast l)
           | Inr n \<Rightarrow> n = a_level a \<and> a_level b = level \<and> l = map (\<lambda>act. (act, True)) cmds)"
proof (cases "a_level a = 0")
  case True
  with assms show ?thesis by (auto simp: create_checkpoint_def andthen_def get_level_def)
next
  case False
  let ?n = "a_level a + 1"
  let ?cmds = "[mount_action lm ?n (lm_dir lm ''o'' (a_level a)), unbind_action lm, bind_action lm ?n]"
  let ?m = "andthen (mk_level_dirs lm ?n) (\<lambda>_. andthen (mount_level lm ?n (lm_dir lm ''o'' (a_level a)))
      (\<lambda>_. andthen (unbind_root lm) (\<lambda>_. bind_level lm ?n)))"
  have run: "andthen ?m (\<lambda>_. andthen (set_level ?n) (\<lambda>_. ret (a_level a))) a = (r, b)"
    using assms False unfolding andthen_assoc
    by (simp add: create_checkpoint_def Let_def andthen_Inr [where m = get_level and x = "a_level a" and s' = a]
        get_level_def)
  have "steps ([mount_action lm ?n (lm_dir lm ''o'' (a_level a))] @ [unbind_action lm] @ [bind_action lm ?n]) ?m"
    by (intro steps_after keeps_level_mk_dirs steps_andthen stepping)
  then have "steps ?cmds ?m" by simp
  from steps_then_level [OF this run] obtain l where log: "a_log b = a_log a @ l"
    and l: "if isl r then a_level b = a_level a \<and> prefix (map fst l) ?cmds \<and> list_all snd (butlast l)
            else a_level b = ?n \<and> map fst l = ?cmds \<and> list_all snd l"
    by auto
  have frozen: "n = a_level a" if "r = Inr n" for n
    using run that by (auto simp: andthen_eq_Inr set_level_def)
  show ?thesis using log l frozen all_worked [of l ?cmds] False by (cases r) (auto simp: Let_def)
qed

lemma numbered_sorted:
  assumes "numbered_dirs lm pre a = (Inr ns, b)"
  shows "sorted ns"
proof -
  obtain q c where c: "os_read_dir (lm_data_dir lm) a = (q, c)"
    by (cases "os_read_dir (lm_data_dir lm) a")
  with assms show ?thesis
    by (cases q) (auto simp: numbered_dirs_def andthen_def attempt_def split: if_splits)
qed

text \<open>A mount from layers that have been listed.\<close>

lemma init_volume_listed:
  assumes "numbered_dirs lm ''l'' a = (Inr lowers, c)" and "init_volume lm a = (r, b)"
  shows "\<exists>l. a_log b = a_log a @ l \<and>
       (let level = a_level a + 1; cmds = [mount_action lm level (lower_option lm lowers), bind_action lm level]
        in if isl r then a_level b = a_level a \<and> prefix (map fst l) cmds \<and> list_all snd (butlast l)
           else a_level b = level \<and> map fst l = cmds \<and> list_all snd l)"
proof -
  let ?list = "wrapping ''list lower layers'' (numbered_dirs lm ''l'')"
  let ?n = "a_level a + 1"
  let ?m = "andthen (mk_level_dirs lm ?n) (\<lambda>_. andthen (mount_level lm ?n (lower_option lm lowers))
      (\<lambda>_. bind_level lm ?n))"
  have lv: "a_level c = a_level a" "a_log c = a_log a"
    using keeps_run [OF keeps_level_numbered assms(1)] by (simp_all add: quiet_level_def)
  have list: "?list a = (Inr lowers, c)" using assms(1) by simp
  have set: "andthen (set_level ?n) ret = set_level ?n"
    by (rule ext) (simp add: andthen_def set_level_def)
  have "init_volume lm a = andthen get_level (\<lambda>current. let level = current + 1 in
      andthen (mk_level_dirs lm level) (\<lambda>_. andthen (mount_level lm level (lower_option lm lowers)) (\<lambda>_.
      andthen (bind_level lm level) (\<lambda>_. set_level level)))) c"
    by (simp add: init_volume_def andthen_Inr [where m = ?list and x = lowers and s' = c, OF list])
  also have "\<dots> = andthen ?m (\<lambda>_. andthen (set_level ?n) ret) c"
    unfolding andthen_assoc set by (simp add: andthen_def [of get_level] get_level_def lv Let_def)
  finally have run: "andthen ?m (\<lambda>_. andthen (set_level ?n) ret) c = (r, b)" using assms(2) by simp
  have "steps ([mount_action lm ?n (lower_option lm lowers)] @ [bind_action lm ?n]) ?m"
    by (intro steps_after keeps_level_mk_dirs steps_andthen stepping)
  from steps_then_level [OF this run] show ?thesis by (auto simp: lv Let_def)
qed

text \<open>
  A volume is mounted with all the received layers that the data directory has below its
  writable one, the newest first, or with its own content when none was received; the level goes up
  by one only when it is mounted and bound.
\<close>

lemma init_volume_steps:
  assumes "init_volume lm a = (r, b)"
  shows "\<exists>lowers l. a_log b = a_log a @ l \<and>
       (fst (numbered_dirs lm ''l'' a) = Inr lowers \<and> sorted lowers \<or> l = [] \<and> isl r) \<and>
       (let level = a_level a + 1; cmds = [mount_action lm level (lower_option lm lowers), bind_action lm level]
        in if isl r then a_level b = a_level a \<and> prefix (map fst l) cmds \<and> list_all snd (butlast l)
           else a_level b = level \<and> l = map (\<lambda>act. (act, True)) cmds)"
proof -
  obtain q c where c: "numbered_dirs lm ''l'' a = (q, c)" by (cases "numbered_dirs lm ''l'' a")
  show ?thesis
  proof (cases q)
    case (Inl e)
    with assms c have "b = c" and "isl r" by (auto simp: init_volume_def andthen_def wrapping_def)
    with keeps_run [OF keeps_level_numbered c] show ?thesis
      by (intro exI [of _ "[]"]) (simp add: quiet_level_def Let_def)
  next
    case (Inr lowers)
    with c have listed: "numbered_dirs lm ''l'' a = (Inr lowers, c)" by simp
    from init_volume_listed [OF this assms] obtain l where "a_log b = a_log a @ l"
      and "let level = a_level a + 1; cmds = [mount_action lm level (lower_option lm lowers), bind_action lm level]
        in if isl r then a_level b = a_level a \<and> prefix (map fst l) cmds \<and> list_all snd (butlast l)
           else a_level b = level \<and> map fst l = cmds \<and> list_all snd l" by blast
    with numbered_sorted [OF listed] listed show ?thesis
      by (intro exI [of _ lowers] exI [of _ l]) (auto simp: Let_def dest: all_worked)
  qed
qed

end
