(* ===== verification/FileTreeSpec.thy ===== *)
theory FileTreeSpec
  imports FileTree
begin

text \<open>
  How paths resolve where no symbolic link is in the way, and what the system calls change there.
\<close>

section \<open>Clear paths\<close>

definition dir_at :: "tree \<Rightarrow> path \<Rightarrow> bool" where
  "dir_at t p \<longleftrightarrow> (\<exists>m. node_at t p = Some (Dir m))"

definition link_at :: "tree \<Rightarrow> path \<Rightarrow> bool" where
  "link_at t p \<longleftrightarrow> (\<exists>l. node_at t p = Some (Link l))"

text \<open>Every node hangs below a directory, under a proper name.\<close>

definition wf_tree :: "tree \<Rightarrow> bool" where
  "wf_tree t \<longleftrightarrow>
     (\<forall>p. fmlookup t p \<noteq> None \<longrightarrow> (if p = [] then dir_at t p else plain (last p) \<and> dir_at t (butlast p)))"

lemma dir_at_root [simp]: "dir_at t []"
  by (simp add: dir_at_def node_at_def)

lemma dir_at_not_link: "dir_at t p \<Longrightarrow> \<not> link_at t p"
  by (auto simp: dir_at_def link_at_def)

lemma node_at_upd: "p \<noteq> [] \<Longrightarrow> node_at (fmupd p nd t) q = (if q = p then Some nd else node_at t q)"
  by (simp add: node_at_def)

lemma node_at_lookup: "p \<noteq> [] \<Longrightarrow> node_at t p = fmlookup t p"
  by (simp add: node_at_def)

lemma wf_treeD:
  "wf_tree t \<Longrightarrow> node_at t p = Some nd \<Longrightarrow> p \<noteq> [] \<Longrightarrow> plain (last p) \<and> dir_at t (butlast p)"
  unfolding wf_tree_def node_at_def by (metis option.distinct(1))

lemma wf_tree_prefix:
  "wf_tree t \<Longrightarrow> node_at t p = Some nd \<Longrightarrow> strict_prefix q p \<Longrightarrow> dir_at t q"
proof (induction p arbitrary: nd rule: rev_induct)
  case Nil
  then show ?case by simp
next
  case (snoc c p)
  then have d: "dir_at t p" using wf_treeD [of t "p @ [c]" nd] by simp
  show ?case
  proof (cases "q = p")
    case False
    with snoc.prems(3) have "strict_prefix q p" by (auto simp: strict_prefix_def)
    with d snoc.IH snoc.prems(1) show ?thesis by (auto simp: dir_at_def)
  qed (simp add: d)
qed

lemma resolve_dir:
  assumes "plain c" and "dir_at t (cur @ [c])"
  shows "resolve t fl n cur (c # cs) = resolve t fl n (cur @ [c]) cs"
  using assms by (auto simp: resolve.simps(2) plain_def dir_at_def)

lemma resolve_link:
  assumes "plain c" and "node_at t (cur @ [c]) = Some (Link l)"
  shows "resolve t True (Suc n) cur (c # cs) =
         resolve t True n (if is_abs l then [] else cur) (split_slash l @ cs)"
  using assms by (simp add: resolve.simps(2) plain_def)

lemma resolve_through:
  "list_all plain xs \<Longrightarrow> (\<And>q. prefix q xs \<Longrightarrow> dir_at t (cur @ q)) \<Longrightarrow>
   resolve t fl n cur (xs @ cs) = resolve t fl n (cur @ xs) cs"
proof (induction xs arbitrary: cur)
  case Nil
  then show ?case by simp
next
  case (Cons x xs)
  have "dir_at t (cur @ [x])" using Cons.prems(2) [of "[x]"] by simp
  moreover have "dir_at t ((cur @ [x]) @ q)" if "prefix q xs" for q
    using Cons.prems(2) [of "x # q"] that by simp
  ultimately show ?case
    using Cons.IH [of "cur @ [x]"] Cons.prems(1) resolve_dir [of x t cur fl n "xs @ cs"] by simp
qed

text \<open>Below a directory the last component stands for itself unless it is a link to be followed.\<close>

lemma resolve_last:
  assumes "plain c" and "fl \<longrightarrow> \<not> link_at t (cur @ [c])"
  shows "resolve t fl n cur [c] = Inr (cur @ [c])"
  using assms by (auto simp: resolve.simps(2) plain_def link_at_def split: option.split fnode.split)

lemma walk_to_clear:
  assumes p: "list_all plain p" and dirs: "\<And>q. strict_prefix q p \<Longrightarrow> dir_at t q"
    and last: "fl \<longrightarrow> \<not> link_at t p"
  shows "walk_to fl t p = Inr p"
proof (cases p rule: rev_cases)
  case Nil
  then show ?thesis by (simp add: walk_to_def)
next
  case (snoc q c)
  have d: "dir_at t ([] @ r)" if "prefix r q" for r
    using that dirs [of r] snoc by (auto simp: strict_prefix_def prefix_def)
  have "resolve t fl max_links [] (q @ [c]) = resolve t fl max_links ([] @ q) [c]"
    using p snoc d by (intro resolve_through) auto
  also have "\<dots> = Inr (q @ [c])" using p last snoc resolve_last [of c fl t q] by simp
  finally show ?thesis by (simp add: walk_to_def snoc)
qed

text \<open>Where no link is on the way a path resolves to itself or not at all.\<close>

lemma resolve_linkless:
  "list_all plain cs \<Longrightarrow> (\<And>q. prefix q cs \<Longrightarrow> q \<noteq> [] \<Longrightarrow> (q = cs \<longrightarrow> fl) \<Longrightarrow> \<not> link_at t (cur @ q)) \<Longrightarrow>
   resolve t fl n cur cs = Inr (cur @ cs) \<or> (\<exists>e. resolve t fl n cur cs = Inl e)"
proof (induction cs arbitrary: cur)
  case Nil
  then show ?case by simp
next
  case (Cons c cs)
  have c: "plain c" using Cons.prems(1) by simp
  show ?case
  proof (cases "cs = []")
    case True
    with resolve_last [OF c, of fl t cur n] Cons.prems(2) [of "[c]"] show ?thesis by simp
  next
    case False
    have link: "\<not> link_at t (cur @ [c])" using Cons.prems(2) [of "[c]"] False by simp
    show ?thesis
    proof (cases "dir_at t (cur @ [c])")
      case True
      have "resolve t fl n (cur @ [c]) cs = Inr ((cur @ [c]) @ cs) \<or>
            (\<exists>e. resolve t fl n (cur @ [c]) cs = Inl e)"
      proof (rule Cons.IH)
        show "list_all plain cs" using Cons.prems(1) by simp
        show "\<not> link_at t ((cur @ [c]) @ q)" if "prefix q cs" "q \<noteq> []" "q = cs \<longrightarrow> fl" for q
          using Cons.prems(2) [of "c # q"] that by simp
      qed
      with resolve_dir [OF c True] show ?thesis by simp
    next
      case False
      with c link \<open>cs \<noteq> []\<close> show ?thesis
        by (auto simp: resolve.simps(2) plain_def dir_at_def link_at_def split: option.split fnode.split)
    qed
  qed
qed

lemma walk_to_linkless:
  assumes "list_all plain p" and "\<And>q. prefix q p \<Longrightarrow> (q = p \<longrightarrow> fl) \<Longrightarrow> \<not> link_at t q"
  shows "walk_to fl t p = Inr p \<or> (\<exists>e. walk_to fl t p = Inl e)"
  using resolve_linkless [of p fl t "[]"] assms by (simp add: walk_to_def)

text \<open>What a clear path names in a well-formed tree.\<close>

lemma stat_clear:
  assumes "wf_tree t" and "list_all plain p" and "fl \<longrightarrow> \<not> link_at t p" and "node_at t p = Some nd"
  shows "stat_node fl p t = Inr nd"
proof -
  have "walk_to fl t p = Inr p"
    using wf_tree_prefix [OF assms(1,4)] assms(3) by (intro walk_to_clear [OF assms(2)]) auto
  with assms(4) show ?thesis by (simp add: stat_node_def)
qed

lemma stat_missing:
  assumes "list_all plain p" and "\<And>q. prefix q p \<Longrightarrow> \<not> link_at t q" and "node_at t p = None"
  shows "\<exists>e. stat_node fl p t = Inl e"
  using walk_to_linkless [OF assms(1), of fl t] assms(2,3) by (auto simp: stat_node_def)

lemma wf_tree_upd:
  assumes wf: "wf_tree t" and p: "p \<noteq> []" "plain (last p)" "dir_at t (butlast p)"
    and kind: "dir_at t p \<longrightarrow> is_dir nd"
  shows "wf_tree (fmupd p nd t)"
proof -
  have keep: "dir_at (fmupd p nd t) q" if "dir_at t q" for q
    using that kind p(1) by (cases nd) (auto simp: dir_at_def node_at_upd)
  have "if q = [] then dir_at (fmupd p nd t) q else plain (last q) \<and> dir_at (fmupd p nd t) (butlast q)"
    if q: "fmlookup (fmupd p nd t) q \<noteq> None" for q
  proof (cases "q = p")
    case True
    with p keep show ?thesis by simp
  next
    case False
    with q have "fmlookup t q \<noteq> None" by simp
    with wf keep show ?thesis unfolding wf_tree_def by metis
  qed
  then show ?thesis unfolding wf_tree_def by blast
qed

lemma locate_render: "list_all plain cs \<Longrightarrow> locate cwd (render True cs) = cs"
  using split_render [of cs] by (simp add: locate_def) (simp add: render_def)

section \<open>Calls on clear paths\<close>

lemma mkdir_all_there:
  "stat_node True p t = Inr nd \<Longrightarrow> is_dir nd \<Longrightarrow> mkdir_all umask perm p t = (Inr (), t)"
  by (subst mkdir_all.simps) simp

lemma mkdir_all_root [simp]: "mkdir_all umask perm [] t = (Inr (), t)"
  by (rule mkdir_all_there [of _ _ "Dir 493"]) (simp_all add: stat_node_def walk_to_def node_at_def)

text \<open>Making a directory where nothing but directories is on the way.\<close>

lemma mkdir_all_clear:
  assumes "wf_tree t" and "list_all plain p" and "\<And>q. prefix q p \<Longrightarrow> node_at t q = None \<or> dir_at t q"
  shows "\<exists>t'. mkdir_all umask perm p t = (Inr (), t') \<and> wf_tree t' \<and> (\<forall>q. prefix q p \<longrightarrow> dir_at t' q) \<and>
           (\<forall>q. \<not> prefix q p \<longrightarrow> node_at t' q = node_at t q) \<and>
           (\<forall>q nd. node_at t q = Some nd \<longrightarrow> node_at t' q = Some nd) \<and>
           (node_at t p = None \<longrightarrow> node_at t' p = Some (Dir (created umask perm)))"
  using assms
proof (induction p rule: rev_induct)
  case Nil
  then show ?case by (auto simp: node_at_def)
next
  case (snoc c p)
  let ?p = "p @ [c]"
  have clear: "\<not> link_at t q" if "prefix q ?p" for q
    using snoc.prems(3) [OF that] by (auto simp: link_at_def dir_at_def)
  show ?case
  proof (cases "node_at t ?p")
    case (Some nd)
    then have d: "is_dir nd" using snoc.prems(3) [of ?p] by (auto simp: dir_at_def)
    have "stat_node True ?p t = Inr nd"
      using stat_clear [OF snoc.prems(1,2) _ Some, of True] clear by simp
    from mkdir_all_there [OF this d] have "mkdir_all umask perm ?p t = (Inr (), t)" .
    moreover have "dir_at t q" if "prefix q ?p" for q
      using wf_tree_prefix [OF snoc.prems(1) Some] snoc.prems(3) [OF that] that Some d
      by (cases "q = ?p") (auto simp: strict_prefix_def dir_at_def)
    ultimately show ?thesis using snoc.prems(1) Some by simp
  next
    case None
    obtain e where e: "stat_node True ?p t = Inl e"
      using stat_missing [OF snoc.prems(2) clear None] by blast
    have "\<exists>t'. mkdir_all umask perm p t = (Inr (), t') \<and> wf_tree t' \<and> (\<forall>q. prefix q p \<longrightarrow> dir_at t' q) \<and>
           (\<forall>q. \<not> prefix q p \<longrightarrow> node_at t' q = node_at t q) \<and>
           (\<forall>q nd. node_at t q = Some nd \<longrightarrow> node_at t' q = Some nd) \<and>
           (node_at t p = None \<longrightarrow> node_at t' p = Some (Dir (created umask perm)))"
      by (rule snoc.IH) (use snoc.prems in \<open>auto\<close>)
    then obtain t1 where t1: "mkdir_all umask perm p t = (Inr (), t1)" "wf_tree t1"
      and dirs: "\<And>q. prefix q p \<Longrightarrow> dir_at t1 q"
      and other: "\<And>q. \<not> prefix q p \<Longrightarrow> node_at t1 q = node_at t q"
      and kept: "\<And>q nd. node_at t q = Some nd \<Longrightarrow> node_at t1 q = Some nd" by blast
    have np: "\<not> prefix ?p p" by (auto dest: prefix_length_le)
    have none: "node_at t1 ?p = None" using other [OF np] None by simp
    have "walk_to False t1 ?p = Inr ?p"
      by (rule walk_to_clear [OF snoc.prems(2)]) (auto simp: strict_prefix_def dirs)
    then have mk: "mkdir umask perm ?p t1 = (Inr (), fmupd ?p (Dir (created umask perm)) t1)"
      by (simp add: mkdir_def none)
    let ?t2 = "fmupd ?p (Dir (created umask perm)) t1"
    have "mkdir_all umask perm ?p t = (Inr (), ?t2)"
      by (subst mkdir_all.simps) (simp add: e t1 mk)
    moreover have "wf_tree ?t2"
      by (rule wf_tree_upd) (use t1 snoc.prems(2) dirs in auto)
    moreover have "dir_at ?t2 q" if "prefix q ?p" for q
      using that dirs [of q] by (auto simp: dir_at_def node_at_upd)
    moreover have "node_at ?t2 q = node_at t q" if "\<not> prefix q ?p" for q
      using that other [of q] by (auto simp: node_at_upd)
    moreover have "node_at ?t2 q = Some nd" if "node_at t q = Some nd" for q nd
      using that kept [OF that] None by (auto simp: node_at_upd)
    ultimately show ?thesis by (auto simp: node_at_upd)
  qed
qed

lemma mkdir_all_last:
  assumes "list_all plain p" and "\<And>q. strict_prefix q p \<Longrightarrow> dir_at t q" and "node_at t p = None"
  shows "mkdir_all umask perm p t = (Inr (), fmupd p (Dir (created umask perm)) t)"
proof -
  have ne: "p \<noteq> []" using assms(3) by (auto simp: node_at_def)
  have nl: "\<not> link_at t p" using assms(3) by (simp add: link_at_def)
  have w: "walk_to fl t p = Inr p" for fl
    using walk_to_clear [OF assms(1,2)] nl by blast
  have bl: "dir_at t (butlast p)"
    using assms(2) ne by (metis append_butlast_last_id strict_prefixI')
  then obtain m where m: "node_at t (butlast p) = Some (Dir m)" by (auto simp: dir_at_def)
  have "walk_to True t (butlast p) = Inr (butlast p)"
  proof (rule walk_to_clear)
    show "list_all plain (butlast p)" using assms(1) by (auto simp: list_all_iff dest: in_set_butlastD)
    show "dir_at t q" if "strict_prefix q (butlast p)" for q
      using that assms(2) prefixeq_butlast prefix_order.less_le_trans by blast
  qed (simp add: dir_at_not_link bl)
  then have "mkdir_all umask perm (butlast p) t = (Inr (), t)"
    by (intro mkdir_all_there [of _ _ "Dir m"]) (simp_all add: stat_node_def m)
  then show ?thesis
    by (subst mkdir_all.simps) (simp add: ne stat_node_def w assms(3) mkdir_def)
qed

section \<open>Staying below a directory\<close>

text \<open>
  Between two trees nothing outside \<open>d\<close> changed, \<open>d\<close> is reached through directories and there is
  no link in it.
\<close>

definition confined :: "path \<Rightarrow> tree \<Rightarrow> tree \<Rightarrow> bool" where
  "confined d t0 t \<longleftrightarrow>
     (\<forall>q. prefix q d \<longrightarrow> dir_at t q) \<and> (\<forall>q. prefix d q \<longrightarrow> \<not> link_at t q) \<and>
     (\<forall>q. \<not> prefix d q \<longrightarrow> node_at t q = node_at t0 q)"

lemma confined_walk:
  assumes "confined d t0 t" and "list_all plain (d @ rel)"
  shows "walk_to fl t (d @ rel) = Inr (d @ rel) \<or> (\<exists>e. walk_to fl t (d @ rel) = Inl e)"
proof (rule walk_to_linkless [OF assms(2)])
  fix q assume "prefix q (d @ rel)"
  then have "prefix q d \<or> prefix d q" by (simp add: prefix_append)  (auto simp: prefix_def)
  with assms(1) show "\<not> link_at t q" by (auto simp: confined_def dir_at_not_link)
qed

lemma confined_upd:
  assumes "confined d t0 t" and "rel \<noteq> []" and "\<And>l. nd \<noteq> Link l"
  shows "confined d t0 (fmupd (d @ rel) nd t)"
proof -
  have "\<not> prefix (d @ rel) d" using assms(2) by (auto dest: prefix_length_le)
  with assms show ?thesis
    by (auto simp: confined_def dir_at_def link_at_def node_at_upd)
qed

lemma confined_mkdir:
  assumes "confined d t0 t" and "list_all plain (d @ rel)"
  shows "confined d t0 (snd (mkdir umask perm (d @ rel) t))"
proof (cases "rel = []")
  case True
  then have "node_at t (d @ rel) \<noteq> None" using assms(1) by (auto simp: confined_def dir_at_def)
  with assms confined_walk [OF assms, of False] show ?thesis by (auto simp: mkdir_def)
next
  case False
  with assms confined_walk [OF assms, of False] confined_upd [OF assms(1) False]
  show ?thesis by (auto simp: mkdir_def)
qed

lemma confined_mkdir_all:
  "confined d t0 t \<Longrightarrow> list_all plain (d @ rel) \<Longrightarrow> confined d t0 (snd (mkdir_all umask perm (d @ rel) t))"
proof (induction rel rule: rev_induct)
  case Nil
  have "walk_to True t d = Inr d"
    using Nil by (intro walk_to_clear) (auto simp: confined_def strict_prefix_def dir_at_not_link)
  moreover have "dir_at t d" using Nil by (simp add: confined_def)
  ultimately have "mkdir_all umask perm d t = (Inr (), t)"
    by (intro mkdir_all_there [of _ _ "the (node_at t d)"]) (auto simp: stat_node_def dir_at_def)
  with Nil show ?case by simp
next
  case (snoc c rel)
  have IH: "confined d t0 (snd (mkdir_all umask perm (d @ rel) t))"
    using snoc by simp
  have ne: "d @ rel @ [c] \<noteq> []" and bl: "butlast (d @ rel @ [c]) = d @ rel"
    by (simp_all add: butlast_append)
  show ?case
  proof (cases "mkdir_all umask perm (d @ rel) t")
    case (Pair r t1)
    with IH have "confined d t0 t1" by simp
    from confined_mkdir [OF this snoc.prems(2), of umask perm]
    show ?thesis
      using IH snoc.prems(1)
      by (subst mkdir_all.simps)
        (auto simp: Pair bl split: sum.split prod.split)
  qed
qed

lemma confined_write_file:
  assumes "confined d t0 t" and "list_all plain (d @ rel)"
  shows "confined d t0 (snd (write_file now umask perm content (d @ rel) t))"
proof (cases "rel = []")
  case True
  then have "dir_at t (d @ rel)" using assms(1) by (simp add: confined_def)
  with assms confined_walk [OF assms, of True] show ?thesis
    by (auto simp: write_file_def dir_at_def)
next
  case False
  with assms confined_walk [OF assms, of True] confined_upd [OF assms(1) False]
  show ?thesis by (auto simp: write_file_def split: option.split fnode.split)
qed

end
