(* ===== verification/ArchiveSpec.thy ===== *)
theory ArchiveSpec
  imports Archive FileTreeSpec
begin

text \<open>
  What a directory is after it went through an archive, and what an archive can do to the file
  system of the receiver.
\<close>

section \<open>Calls without interference\<close>

lemma changing_quiet:
  "a_script a = [] \<Longrightarrow> changing f a = (case f a (a_tree a) of (r, t) \<Rightarrow> (r, a\<lparr>a_tree := t\<rparr>))"
  by (simp add: changing_def)

lemma reading_quiet: "a_script a = [] \<Longrightarrow> reading f a = (f (a_tree a), a)"
  by (simp add: reading_def)

lemma agent_same_tree [simp]: "a\<lparr>a_tree := a_tree a\<rparr> = a"
  by simp

lemma path_dir_render:
  assumes "list_all plain cs" and "plain c"
  shows "path_dir (render True (cs @ [c])) = render True cs"
proof -
  have c: "CHR ''/'' \<notin> set c" using assms(2) by (simp add: plain_def)
  let ?pre = "if cs = [] then ''/'' else CHR ''/'' # join_slash cs @ ''/''"
  have js: "join_slash (cs @ [c]) = (if cs = [] then c else join_slash cs @ CHR ''/'' # c)"
    by (induction cs rule: join_slash.induct) auto
  then have r: "render True (cs @ [c]) = ?pre @ c" by (simp add: render_def)
  have "last ?pre = CHR ''/''" and ne: "?pre \<noteq> []" by auto
  then have "dropWhile (\<lambda>x. x \<noteq> CHR ''/'') (rev c @ rev ?pre) = rev ?pre"
    using c by (subst dropWhile_append2) (auto simp: dropWhile_eq_self_iff hd_rev)
  then have "path_dir (render True (cs @ [c])) = path_clean ?pre"
    by (simp only: path_dir_def r rev_append rev_rev_ident)
  also have "\<dots> = render True cs"
  proof (cases "cs = []")
    case True
    then show ?thesis
      by (simp add: path_clean_def components_def is_abs_def has_prefix_def render_def)
  next
    case False
    have "split_slash ((CHR ''/'' # join_slash cs) @ CHR ''/'' # []) = ([] # cs) @ [[]]"
      using False assms(1) by (simp only: split_slash_append) (simp add: split_join_slash plain_no_slash)
    then have "components ?pre = clean_loop True [] (cs @ [[]])"
      using False by (simp add: components_def is_abs_def has_prefix_def)
    also have "\<dots> = cs" using assms(1) by (simp add: clean_loop_append clean_loop_plain)
    finally have "components ?pre = cs" .
    moreover have "is_abs ?pre" by (simp add: is_abs_def has_prefix_def)
    ultimately show ?thesis using False by (simp add: path_clean_def)
  qed
  finally show ?thesis .
qed

section \<open>One entry\<close>

text \<open>What a node is at the other end.\<close>

fun arrived :: "int \<Rightarrow> instant \<Rightarrow> fnode \<Rightarrow> fnode" where
  "arrived umask now (Dir m) = Dir (created umask (perm_bits m))"
| "arrived umask now (File m c _) = File (created umask (perm_bits m)) c now"
| "arrived umask now (Link l) = Link l"
| "arrived umask now (Special k m) = File (created umask (perm_bits m)) [] now"

lemma os_mkdir_all_there:
  assumes "a_script a = []" and "list_all plain p" and "\<And>q. prefix q p \<Longrightarrow> dir_at (a_tree a) q"
  shows "os_mkdir_all (render True p) perm a = (Inr (), a)"
proof -
  have "walk_to True (a_tree a) p = Inr p"
    by (rule walk_to_clear [OF assms(2)]) (auto simp: strict_prefix_def assms(3) dir_at_not_link)
  moreover obtain m where "node_at (a_tree a) p = Some (Dir m)" using assms(3) [of p] by (auto simp: dir_at_def)
  ultimately have "mkdir_all umask perm p (a_tree a) = (Inr (), a_tree a)" for umask
    by (intro mkdir_all_there [of _ _ "Dir m"]) (simp_all add: stat_node_def)
  then show ?thesis
    by (simp add: os_mkdir_all_def changing_quiet assms(1) located_def locate_render [OF assms(2)])
qed

lemma extract_one:
  assumes quiet: "a_script a = []" and plain: "list_all plain d" "list_all plain rel" and ne: "rel \<noteq> []"
    and dirs: "\<And>q. strict_prefix q (d @ rel) \<Longrightarrow> dir_at (a_tree a) q"
    and fresh: "node_at (a_tree a) (d @ rel) = None"
    and te: "entry_of (join_slash rel) nd = Inr te" and link: "nd \<noteq> Link []"
  shows "extract_entry (render True d) te a =
    (Inr (), a\<lparr>a_tree := fmupd (d @ rel) (arrived (a_umask a) (a_clock a) nd) (a_tree a)\<rparr>)"
proof -
  let ?p = "d @ rel" and ?t = "a_tree a"
  have p: "list_all plain ?p" using plain by simp
  obtain q c where qc: "?p = q @ [c]" using ne by (metis append_is_Nil_conv rev_exhaust)
  then have qp: "list_all plain q" "plain c" using p by auto
  have qd: "dir_at ?t r" if "prefix r q" for r
    using dirs that qc by (metis prefix_order.le_less_trans prefix_snoc strict_prefixI')
  have w: "walk_to fl ?t ?p = Inr ?p" for fl
    by (rule walk_to_clear [OF p]) (use fresh in \<open>auto simp: link_at_def dirs\<close>)
  have parent: "make_parent (render True ?p) a = (Inr (), a)"
    using os_mkdir_all_there [OF quiet qp(1) qd] path_dir_render [OF qp]
    by (simp add: make_parent_def qc)
  have loc: "locate cwd (render True ?p) = ?p" for cwd by (rule locate_render [OF p])
  have name: "te_name te = join_slash rel" "te_error te = None"
    using te by (auto simp: entry_of_def Let_def split: fnode.splits if_splits)
  have join: "safe_join (render True d) (te_name te) = Inr (render True ?p)"
    by (simp add: name(1) safe_join_plain [OF plain ne])
  have wrote: "os_write_file (render True ?p) perm cnt a =
      (Inr (), a\<lparr>a_tree := fmupd ?p (File (created (a_umask a) perm) cnt (a_clock a)) ?t\<rparr>)" for perm cnt
    by (simp add: os_write_file_def changing_quiet quiet located_def loc write_file_def w fresh)
  show ?thesis
  proof (cases nd)
    case (Dir m)
    then have "te_type te = TypeDir" "te_mode te = m" using te by (auto simp: entry_of_def Let_def)
    moreover have "os_mkdir_all (render True ?p) perm a =
        (Inr (), a\<lparr>a_tree := fmupd ?p (Dir (created (a_umask a) perm)) ?t\<rparr>)" for perm
      by (simp add: os_mkdir_all_def changing_quiet quiet located_def loc mkdir_all_last [OF p dirs fresh])
    ultimately show ?thesis by (simp add: extract_entry_def join Dir)
  next
    case (File m c' mt)
    then have "te_type te = TypeReg" "te_mode te = m" "te_body te = c'"
      using te by (auto simp: entry_of_def Let_def)
    then show ?thesis by (simp add: extract_entry_def join parent wrote name(2) File andthen_def wrapping_def)
  next
    case (Link l)
    then have "te_type te = TypeSymlink" "te_link te = l" using te by (auto simp: entry_of_def Let_def)
    moreover have "attempt (os_remove (render True ?p)) a = (Inr (Inl enoent), a)"
      by (simp add: attempt_def os_remove_def changing_quiet quiet located_def loc remove_node_def w fresh)
    moreover have "os_symlink l (render True ?p) a = (Inr (), a\<lparr>a_tree := fmupd ?p (Link l) ?t\<rparr>)"
      using link Link
      by (simp add: os_symlink_def changing_quiet quiet located_def loc make_link_def w fresh)
    ultimately show ?thesis
      by (simp add: extract_entry_def join parent Link andthen_def wrapping_def)
  next
    case (Special k m)
    then have "te_type te = TypeOther" "te_mode te = m" "te_body te = []"
      using te by (auto simp: entry_of_def Let_def split: if_splits)
    then show ?thesis by (simp add: extract_entry_def join parent wrote name(2) Special andthen_def wrapping_def)
  qed
qed

section \<open>A whole directory\<close>

lemma strict_prefix_less: "strict_prefix (p :: path) q \<Longrightarrow> p < q"
  unfolding list_less_def strict_prefix_def prefix_def
  by (metis append_Nil2 lexord_append_rightI neq_Nil_conv)

text \<open>Where a node below \<open>s\<close> arrives when \<open>s\<close> is extracted to \<open>d\<close>.\<close>

definition moved :: "path \<Rightarrow> path \<Rightarrow> path \<Rightarrow> path" where
  "moved s d p = d @ drop (length s) p"

definition received :: "int \<Rightarrow> instant \<Rightarrow> tree \<Rightarrow> path \<Rightarrow> path \<Rightarrow> path list \<Rightarrow> tree \<Rightarrow> tree" where
  "received umask now t s d ps t0 =
     foldl (\<lambda>u p. fmupd (moved s d p) (arrived umask now (the (node_at t p))) u) t0 ps"

text \<open>The source: a well-formed tree of files, directories, links and special files below \<open>s\<close>.\<close>

definition archivable :: "tree \<Rightarrow> path \<Rightarrow> bool" where
  "archivable t s \<longleftrightarrow> wf_tree t \<and> (\<forall>p. strict_prefix s p \<longrightarrow> node_at t p \<noteq> Some (Link []))"

lemma extract_walk:
  assumes "archivable t s" and "sorted_wrt (<) ps" and "tar_walk t s ps = Inr es"
    and "\<And>p. p \<in> set ps \<Longrightarrow> strict_prefix s p \<and> node_at t p \<noteq> None"
    and "a_script a = []" and "list_all plain d"
    and "\<And>q. prefix q d \<Longrightarrow> dir_at (a_tree a) q" and "wf_tree (a_tree a)"
    and "\<And>p. p \<in> set ps \<Longrightarrow> node_at (a_tree a) (moved s d p) = None"
    and "\<And>p. p \<in> set ps \<Longrightarrow> butlast p \<in> set ps \<or> dir_at (a_tree a) (moved s d (butlast p))"
  shows "for_each (extract_entry (render True d)) es a =
    (Inr (), a\<lparr>a_tree := received (a_umask a) (a_clock a) t s d ps (a_tree a)\<rparr>)"
  using assms
proof (induction ps arbitrary: es a)
  case Nil
  then show ?case by (simp add: received_def)
next
  case (Cons p ps)
  let ?t = "a_tree a" and ?q = "moved s d p"
  obtain nd where nd: "node_at t p = Some nd" and sp: "strict_prefix s p" using Cons.prems(4) [of p] by auto
  obtain rel where rel: "p = s @ rel" "rel \<noteq> []" using sp by (auto simp: strict_prefix_def prefix_def)
  have q: "?q = d @ rel" by (simp add: moved_def rel)
  obtain te tes where te: "entry_of (join_slash rel) nd = Inr te" and tes: "tar_walk t s ps = Inr tes"
    and es: "es = te # tes"
    using Cons.prems(3) nd rel by (auto split: sum.splits)
  have wf: "wf_tree t" using Cons.prems(1) by (simp add: archivable_def)
  have plain_p: "list_all plain p" if "node_at t p = Some nd" for p nd
    using that
  proof (induction p arbitrary: nd rule: rev_induct)
    case (snoc c p)
    from wf_treeD [OF wf snoc.prems] show ?case by (auto simp: dir_at_def intro: snoc.IH)
  qed simp
  have plain: "list_all plain rel" using plain_p [OF nd] rel by simp
  have less: "p < r" if "r \<in> set ps" for r using Cons.prems(2) that by simp
  have bl: "butlast p < p" by (rule strict_prefix_less) (use rel in \<open>simp add: strict_prefix_def prefixeq_butlast\<close>, metis append_Nil2 append_butlast_last_id append_is_Nil_conv not_Cons_self2 same_append_eq)
  have "butlast p \<notin> set (p # ps)"
    using bl less by (auto dest: less_trans)
  then have parent: "dir_at ?t (moved s d (butlast p))" using Cons.prems(10) [of p] by simp
  have mbl: "moved s d (butlast p) = butlast ?q" using rel by (simp add: moved_def butlast_append)
  have dirs: "dir_at ?t r" if "strict_prefix r (d @ rel)" for r
  proof -
    have "prefix r (butlast ?q)"
      using that rel(2) unfolding q
      by (metis append_butlast_last_id append_is_Nil_conv prefix_order.le_less_trans
          prefix_snoc strict_prefix_def)
    with parent mbl wf_tree_prefix [OF Cons.prems(8)] show ?thesis
      by (cases "r = butlast ?q") (auto simp: dir_at_def strict_prefix_def)
  qed
  have fresh: "node_at ?t (d @ rel) = None" using Cons.prems(9) [of p] q by simp
  have link: "nd \<noteq> Link []" using Cons.prems(1) sp nd by (auto simp: archivable_def)
  let ?a = "a\<lparr>a_tree := fmupd ?q (arrived (a_umask a) (a_clock a) nd) ?t\<rparr>"
  have one: "extract_entry (render True d) te a = (Inr (), ?a)"
    using extract_one [OF Cons.prems(5,6) plain rel(2) dirs fresh te link] by (simp add: q)
  have wf': "wf_tree (a_tree ?a)"
  proof -
    have "\<not> dir_at ?t (d @ rel)" using fresh by (simp add: dir_at_def)
    then show ?thesis
      using wf_tree_upd [OF Cons.prems(8), of "d @ rel"] plain rel(2) parent mbl q
      by (simp add: list_all_iff)
  qed
  have ne: "?q \<noteq> []" using q rel(2) by simp
  have inj: "moved s d r \<noteq> ?q" if "r \<in> set ps" for r
    using that less [OF that] Cons.prems(4) [of r] rel
    by (auto simp: moved_def strict_prefix_def prefix_def)
  have "for_each (extract_entry (render True d)) tes ?a =
    (Inr (), ?a\<lparr>a_tree := received (a_umask ?a) (a_clock ?a) t s d ps (a_tree ?a)\<rparr>)"
  proof (rule Cons.IH)
    show "sorted_wrt (<) ps" using Cons.prems(2) by simp
    show "strict_prefix s r \<and> node_at t r \<noteq> None" if "r \<in> set ps" for r
      using that Cons.prems(4) by simp
    show "dir_at (a_tree ?a) r" if "prefix r d" for r
    proof -
      have "r \<noteq> ?q" using that q rel(2) by (auto dest: prefix_length_le)
      with Cons.prems(7) [OF that] ne show ?thesis by (simp add: dir_at_def node_at_upd)
    qed
    show "node_at (a_tree ?a) (moved s d r) = None" if "r \<in> set ps" for r
      using that inj [OF that] Cons.prems(9) [of r] ne by (simp add: node_at_upd)
    show "butlast r \<in> set ps \<or> dir_at (a_tree ?a) (moved s d (butlast r))" if r: "r \<in> set ps" for r
    proof -
      have "butlast r \<in> set (p # ps) \<or> dir_at ?t (moved s d (butlast r))"
        using r Cons.prems(10) [of r] by simp
      moreover have "dir_at (a_tree ?a) (moved s d (butlast r))" if "butlast r = p"
      proof -
        obtain nr where nr: "node_at t r = Some nr" using r Cons.prems(4) [of r] by auto
        have "r \<noteq> []" using r Cons.prems(4) [of r] by auto
        with wf_treeD [OF wf nr] that have "dir_at t p" by simp
        then obtain m where "nd = Dir m" using nd by (auto simp: dir_at_def)
        with that ne show ?thesis by (simp add: dir_at_def node_at_upd)
      qed
      moreover have "dir_at (a_tree ?a) (moved s d (butlast r))" if "dir_at ?t (moved s d (butlast r))"
        using that fresh q ne by (auto simp: dir_at_def node_at_upd)
      ultimately show ?thesis by auto
    qed
  qed (use Cons.prems tes wf' in simp_all)
  then show ?case
    by (simp add: es andthen_Inr [where m = "extract_entry (render True d) te", OF one] received_def nd)
qed

lemma node_at_received:
  assumes "\<And>p. p \<in> set ps \<Longrightarrow> strict_prefix s p"
  shows "node_at (received umask now t s d ps t0) q =
    (if \<exists>p \<in> set ps. q = moved s d p
     then Some (arrived umask now (the (node_at t (s @ drop (length d) q)))) else node_at t0 q)"
  using assms
proof (induction ps rule: rev_induct)
  case Nil
  then show ?case by (simp add: received_def)
next
  case (snoc p ps)
  have IH: "node_at (received umask now t s d ps t0) q =
    (if \<exists>p \<in> set ps. q = moved s d p
     then Some (arrived umask now (the (node_at t (s @ drop (length d) q)))) else node_at t0 q)"
    using snoc by simp
  obtain rel where rel: "p = s @ rel" "rel \<noteq> []"
    using snoc.prems [of p] by (auto simp: strict_prefix_def prefix_def)
  then have ne: "moved s d p \<noteq> []" and home: "s @ drop (length d) (moved s d p) = p"
    by (simp_all add: moved_def)
  have "received umask now t s d (ps @ [p]) t0 =
      fmupd (moved s d p) (arrived umask now (the (node_at t p))) (received umask now t s d ps t0)"
    by (simp add: received_def)
  then show ?case using IH home by (simp add: node_at_upd [OF ne])
qed

lemma wf_tree_plain: "wf_tree t \<Longrightarrow> node_at t p = Some nd \<Longrightarrow> list_all plain p"
proof (induction p arbitrary: nd rule: rev_induct)
  case (snoc c p)
  from wf_treeD [OF snoc.prems] snoc.prems(1) show ?case by (auto simp: dir_at_def intro: snoc.IH)
qed simp

lemma set_walk_below: "p \<in> set (walk_below t s) \<longleftrightarrow> strict_prefix s p \<and> fmlookup t p \<noteq> None"
  by (auto simp: walk_below_def sorted_list_of_fset.rep_eq fmlookup_dom_iff)

lemma sorted_walk_below: "sorted_wrt (<) (walk_below t s)"
  by (simp add: walk_below_def sorted_list_of_fset.rep_eq)

lemma tar_dir_walk:
  assumes "wf_tree t" and "dir_at t s"
  shows "tar_dir s t = tar_walk t s (walk_below t s)"
proof -
  obtain m where m: "node_at t s = Some (Dir m)" using assms(2) by (auto simp: dir_at_def)
  have "walk_to False t s = Inr s"
    by (rule walk_to_clear) (use wf_tree_plain [OF assms(1) m] wf_tree_prefix [OF assms(1) m] in auto)
  then show ?thesis by (simp add: tar_dir_def m)
qed

text \<open>Where the extraction may go: directories or nothing on the way, nothing below.\<close>

definition room_for :: "path \<Rightarrow> tree \<Rightarrow> bool" where
  "room_for d t \<longleftrightarrow>
     wf_tree t \<and> list_all plain d \<and> (\<forall>q. prefix q d \<longrightarrow> node_at t q = None \<or> dir_at t q) \<and>
     (\<forall>q. strict_prefix d q \<longrightarrow> node_at t q = None)"

lemma extract_tar_dir:
  assumes source: "archivable t s" "dir_at t s" "tar_dir s t = Inr es"
    and quiet: "a_script a = []" and room: "room_for d (a_tree a)"
  shows "\<exists>u. extract_tar_gz (Archive es None) (render True d) a = (Inr (), a\<lparr>a_tree := u\<rparr>) \<and>
    (\<forall>q. prefix q d \<longrightarrow> dir_at u q) \<and>
    (\<forall>rel. rel \<noteq> [] \<longrightarrow>
       node_at u (d @ rel) = map_option (arrived (a_umask a) (a_clock a)) (node_at t (s @ rel))) \<and>
    (\<forall>q. \<not> prefix d q \<and> \<not> prefix q d \<longrightarrow> node_at u q = node_at (a_tree a) q)"
proof -
  let ?t = "a_tree a" and ?ps = "walk_below t s"
  have plain: "list_all plain d" and wf: "wf_tree ?t" using room by (simp_all add: room_for_def)
  have way: "node_at ?t q = None \<or> dir_at ?t q" if "prefix q d" for q
    using room that by (simp add: room_for_def)
  obtain t1 where mk: "mkdir_all (a_umask a) 493 d ?t = (Inr (), t1)" and wf1: "wf_tree t1"
    and dirs: "\<And>q. prefix q d \<Longrightarrow> dir_at t1 q"
    and other: "\<And>q. \<not> prefix q d \<Longrightarrow> node_at t1 q = node_at ?t q"
    using mkdir_all_clear [OF wf plain way, of "a_umask a" 493] by blast
  let ?a = "a\<lparr>a_tree := t1\<rparr>"
  have made: "wrapping pre (os_mkdir_all (render True d) 493) a = (Inr (), ?a)" for pre
    by (simp add: wrapping_def os_mkdir_all_def changing_quiet quiet located_def
        locate_render [OF plain] mk)
  have below: "strict_prefix s p \<and> node_at t p \<noteq> None" if "p \<in> set ?ps" for p
    using that by (auto simp: set_walk_below node_at_def)
  let ?u = "received (a_umask a) (a_clock a) t s d ?ps t1"
  have fresh: "node_at t1 (moved s d p) = None" if p: "p \<in> set ?ps" for p
  proof -
    obtain rel where "p = s @ rel" "rel \<noteq> []"
      using below [OF p] by (auto simp: strict_prefix_def prefix_def)
    then have "strict_prefix d (moved s d p)" by (simp add: moved_def strict_prefix_def)
    with room other [of "moved s d p"] show ?thesis
      by (auto simp: room_for_def dest: prefix_order.less_le_not_le [THEN iffD1])
  qed
  have parents: "butlast p \<in> set ?ps \<or> dir_at t1 (moved s d (butlast p))" if p: "p \<in> set ?ps" for p
  proof (cases "butlast p = s")
    case True
    then show ?thesis using dirs [of d] by (simp add: moved_def)
  next
    case False
    obtain nd where nd: "node_at t p = Some nd" "strict_prefix s p" using below [OF p] by auto
    then have "p \<noteq> []" by auto
    with nd source(1) have "dir_at t (butlast p)" by (simp add: archivable_def wf_treeD)
    moreover have "strict_prefix s (butlast p)"
      using nd(2) False \<open>p \<noteq> []\<close>
      by (metis append_butlast_last_id prefix_snoc strict_prefix_def)
    ultimately show ?thesis by (auto simp: set_walk_below dir_at_def node_at_def split: if_splits)
  qed
  have loop: "for_each (extract_entry (render True d)) es ?a = (Inr (), ?a\<lparr>a_tree := ?u\<rparr>)"
    using extract_walk [where a = ?a and es = es and d = d, OF source(1) sorted_walk_below _ below]
      source(3) tar_dir_walk [of t s] source quiet plain dirs wf1 fresh parents
    by (simp add: archivable_def)
  have res: "extract_tar_gz (Archive es None) (render True d) a = (Inr (), a\<lparr>a_tree := ?u\<rparr>)"
    by (simp add: extract_tar_gz_def andthen_def made loop)
  note at = node_at_received [of ?ps s "a_umask a" "a_clock a" t d t1]
  have hit: "(\<exists>p \<in> set ?ps. d @ rel = moved s d p) \<longleftrightarrow> node_at t (s @ rel) \<noteq> None" if "rel \<noteq> []" for rel
  proof
    assume "\<exists>p \<in> set ?ps. d @ rel = moved s d p"
    then obtain p where p: "p \<in> set ?ps" "d @ rel = moved s d p" by blast
    with below [OF p(1)] have "p = s @ rel" by (auto simp: moved_def strict_prefix_def prefix_def)
    with below [OF p(1)] show "node_at t (s @ rel) \<noteq> None" by simp
  next
    assume "node_at t (s @ rel) \<noteq> None"
    then have "s @ rel \<in> set ?ps" using that by (simp add: set_walk_below node_at_def strict_prefix_def)
    then show "\<exists>p \<in> set ?ps. d @ rel = moved s d p" by (rule bexI [rotated]) (simp add: moved_def)
  qed
  have miss: "\<not> (\<exists>p \<in> set ?ps. q = moved s d p)" if "\<not> strict_prefix d q" for q
    using that below by (fastforce simp: moved_def strict_prefix_def prefix_def)
  have "node_at ?u (d @ rel) = map_option (arrived (a_umask a) (a_clock a)) (node_at t (s @ rel))"
    if "rel \<noteq> []" for rel
  proof (cases "node_at t (s @ rel)")
    case None
    moreover have "node_at t1 (d @ rel) = None"
      using room other [of "d @ rel"] that by (auto simp: room_for_def strict_prefix_def dest: prefix_length_le)
    ultimately show ?thesis using hit [OF that] below by (subst at) auto
  next
    case (Some nd)
    then show ?thesis using hit [OF that] below by (subst at) auto
  qed
  moreover have "dir_at ?u q" if "prefix q d" for q
  proof -
    have "\<not> strict_prefix d q" using that by (auto simp: strict_prefix_def dest: prefix_order.antisym)
    then have "node_at ?u q = node_at t1 q" using miss below by (subst at) auto
    with dirs [OF that] show ?thesis by (simp add: dir_at_def)
  qed
  moreover have "node_at ?u q = node_at ?t q" if "\<not> prefix d q" "\<not> prefix q d" for q
  proof -
    have "\<not> strict_prefix d q" using that by (auto simp: strict_prefix_def)
    then have "node_at ?u q = node_at t1 q" using miss below by (subst at) auto
    with other [OF that(2)] show ?thesis by simp
  qed
  ultimately show ?thesis using res by blast
qed

text \<open>
  C11: a directory that is archived on one machine and extracted to a free place on another arrives
  complete: every file with its contents, every directory and every link; permissions are cut
  to nine bits and by the umask, and what is none of these (a device, as overlay whiteouts are, or
  a pipe) has become an empty regular file. Nothing else on the receiver changes.
\<close>

theorem directory_arrives:
  assumes "archivable t s" and "dir_at t s" and "tar_dir s t = Inr es"
    and "a_script a = []" and "room_for d (a_tree a)"
  shows "\<exists>u. extract_tar_gz (Archive es None) (render True d) a = (Inr (), a\<lparr>a_tree := u\<rparr>) \<and>
    (\<forall>rel. rel \<noteq> [] \<longrightarrow>
       node_at u (d @ rel) = map_option (arrived (a_umask a) (a_clock a)) (node_at t (s @ rel))) \<and>
    (\<forall>q. \<not> prefix d q \<and> \<not> prefix q d \<longrightarrow> node_at u q = node_at (a_tree a) q)"
  using extract_tar_dir [OF assms] by blast

section \<open>What an archive can reach\<close>

text \<open>Others may take time and calls may fail, but nobody else changes the file system.\<close>

definition still :: "agent \<Rightarrow> bool" where
  "still a \<longleftrightarrow> list_all (\<lambda>oc. \<forall>t m. fst (oc_meanwhile oc (t, m)) = t) (a_script a)"

lemma next_outcome_still:
  "still a \<Longrightarrow> next_outcome a = (r, b) \<Longrightarrow> still b \<and> a_tree b = a_tree a"
  by (auto simp: next_outcome_def still_def elapse_def split: list.splits prod.splits)
     (metis fst_conv)+

definition staying :: "path \<Rightarrow> tree \<Rightarrow> agent \<Rightarrow> bool" where
  "staying d t0 a \<longleftrightarrow> still a \<and> confined d t0 (a_tree a)"

lemma staying_changing:
  assumes "\<And>b. confined d t0 (a_tree b) \<Longrightarrow> confined d t0 (snd (f b (a_tree b)))"
  shows "ensures (staying d t0) (changing f) (\<lambda>_. staying d t0) (staying d t0)"
proof -
  have "staying d t0 (snd (changing f a))" if a: "staying d t0 a" for a
  proof (cases "next_outcome a")
    case (Pair r b)
    with a have b: "still b" "confined d t0 (a_tree b)"
      using next_outcome_still [of a r b] by (auto simp: staying_def)
    then show ?thesis using assms [OF b(2)]
      by (auto simp: changing_def Pair staying_def still_def split: option.split prod.split)
  qed
  then show ?thesis by (intro ensuresI) (metis snd_conv)+
qed

lemma staying_mkdir_all:
  "list_all plain (d @ rel) \<Longrightarrow>
   ensures (staying d t0) (os_mkdir_all (render True (d @ rel)) perm) (\<lambda>_. staying d t0) (staying d t0)"
  using staying_changing [of d t0 "\<lambda>b. mkdir_all (a_umask b) perm (d @ rel)"] confined_mkdir_all
  by (simp add: os_mkdir_all_def [abs_def] located_def locate_render)

text \<open>The parent directory of an entry: at worst the one above \<open>d\<close>, which is there.\<close>

lemma confined_above:
  assumes "confined d t0 t" and "list_all plain d" and "prefix q d"
  shows "mkdir_all umask perm q t = (Inr (), t)"
proof -
  have dirs: "dir_at t r" if "prefix r q" for r
    using assms(1,3) that by (auto simp: confined_def dest: prefix_order.order_trans)
  then obtain m where "node_at t q = Some (Dir m)" by (auto simp: dir_at_def)
  moreover have "list_all plain q" using assms(2,3) by (auto simp: prefix_def)
  then have "walk_to True t q = Inr q"
    by (rule walk_to_clear) (auto simp: dirs dir_at_not_link strict_prefix_def)
  ultimately show ?thesis by (intro mkdir_all_there [of _ _ "Dir m"]) (simp_all add: stat_node_def)
qed

lemma staying_make_parent:
  assumes "list_all plain (d @ rel)" and "d \<noteq> []"
  shows "ensures (staying d t0) (make_parent (render True (d @ rel))) (\<lambda>_. staying d t0) (staying d t0)"
proof (cases rel rule: rev_cases)
  case Nil
  obtain q c where d: "d = q @ [c]" using assms(2) by (metis rev_exhaust)
  then have qc: "list_all plain q" "plain c" using assms(1) by auto
  have q: "path_dir (render True d) = render True q" using path_dir_render [OF qc] d by simp
  have up: "confined d t0 t \<Longrightarrow> confined d t0 (snd (mkdir_all umask perm q t))" for umask perm t
    using confined_above [of d t0 t q umask perm] assms(1) d by simp
  have "ensures (staying d t0) (os_mkdir_all (render True q) 493) (\<lambda>_. staying d t0) (staying d t0)"
    using staying_changing [of d t0 "\<lambda>b. mkdir_all (a_umask b) 493 q"] up
    by (simp add: os_mkdir_all_def [abs_def] located_def locate_render [OF qc(1)])
  then show ?thesis by (simp add: make_parent_def [abs_def] Nil q ensures_wrapping)
next
  case (snoc r c)
  then have "path_dir (render True (d @ rel)) = render True (d @ r)"
    using path_dir_render [of "d @ r" c] assms(1) by simp
  then show ?thesis
    using staying_mkdir_all [of d r t0 493] assms(1) snoc
    by (simp add: make_parent_def [abs_def] ensures_wrapping)
qed

lemma staying_seq:
  "ensures (staying d t0) m (\<lambda>_. staying d t0) (staying d t0) \<Longrightarrow>
   (\<And>x. ensures (staying d t0) (f x) (\<lambda>_. staying d t0) (staying d t0)) \<Longrightarrow>
   ensures (staying d t0) (andthen m f) (\<lambda>_. staying d t0) (staying d t0)"
  by (rule ensures_andthen)

lemma staying_end:
  "ensures (staying d t0) (case err of None \<Rightarrow> ret () | Some e \<Rightarrow> throw (wrap_err pre e))
     (\<lambda>_. staying d t0) (staying d t0)"
  by (simp add: ensures_def split: option.split)

lemma staying_entry:
  assumes "list_all plain d" and "d \<noteq> []" and "te_type e \<noteq> TypeSymlink"
  shows "ensures (staying d t0) (extract_entry (render True d) e) (\<lambda>_. staying d t0) (staying d t0)"
proof (cases "safe_join (render True d) (te_name e)")
  case (Inl err)
  then show ?thesis by (simp add: extract_entry_def [abs_def] ensures_def)
next
  case (Inr tgt)
  then have tgt: "tgt = render True (d @ components (te_name e))" and pl: "list_all plain (components (te_name e))"
    using safe_join_render [OF Inr] components_render [OF assms(1)]
    by (auto simp: render_def is_abs_def has_prefix_def)
  let ?rel = "components (te_name e)"
  have p: "list_all plain (d @ ?rel)" using assms(1) pl by simp
  note parent = staying_make_parent [OF p assms(2), of t0]
  have wrt: "ensures (staying d t0) (os_write_file tgt perm cnt) (\<lambda>_. staying d t0) (staying d t0)" for perm cnt
    using staying_changing [of d t0 "\<lambda>b. write_file (a_clock b) (a_umask b) perm cnt (d @ ?rel)"]
      confined_write_file [OF _ p]
    by (simp add: os_write_file_def [abs_def] located_def tgt locate_render [OF p])
  have body: "ensures (staying d t0)
      (andthen (make_parent tgt) (\<lambda>_. andthen (wrapping pre (os_write_file tgt perm cnt)) (\<lambda>_.
         case te_error e of None \<Rightarrow> ret () | Some err \<Rightarrow> throw (wrap_err post err))))
      (\<lambda>_. staying d t0) (staying d t0)" for pre post perm cnt
    by (rule staying_seq, use parent tgt in simp, rule staying_seq, rule ensures_wrapping [OF wrt],
        rule staying_end)
  have dir: "ensures (staying d t0) (wrapping pre (os_mkdir_all tgt perm)) (\<lambda>_. staying d t0) (staying d t0)"
    for pre perm
    using staying_mkdir_all [OF p, of t0 perm] by (simp add: tgt ensures_wrapping)
  show ?thesis
    using assms(3) body dir by (cases "te_type e") (simp_all add: extract_entry_def [abs_def] Inr)
qed

lemma staying_entries:
  assumes "list_all plain d" and "d \<noteq> []" and "list_all (\<lambda>e. te_type e \<noteq> TypeSymlink) es"
  shows "ensures (staying d t0) (for_each (extract_entry (render True d)) es) (\<lambda>_. staying d t0) (staying d t0)"
  using assms(3)
proof (induction es)
  case Nil
  then show ?case by (simp add: ensures_def)
next
  case (Cons e es)
  have "for_each (extract_entry (render True d)) (e # es) =
      andthen (extract_entry (render True d) e) (\<lambda>_. for_each (extract_entry (render True d)) es)"
    by (rule ext) simp
  then show ?case
    using Cons staying_entry [OF assms(1,2), of e t0] by (simp add: ensures_andthen)
qed

text \<open>
  C16: an archive without symbolic links cannot change anything outside the directory it is
  extracted to, whatever names its entries have, whether or not it is cut off or a call fails,
  provided that the directory is there and has no symbolic link in it.
\<close>

theorem extraction_confined:
  assumes "list_all plain d" and "d \<noteq> []" and "\<And>q. prefix q d \<Longrightarrow> dir_at (a_tree a) q"
    and "\<And>q. prefix d q \<Longrightarrow> \<not> link_at (a_tree a) q" and "still a"
    and "list_all (\<lambda>e. te_type e \<noteq> TypeSymlink) es"
    and "extract_tar_gz (Archive es end_err) (render True d) a = (r, b)" and "\<not> prefix d q"
  shows "node_at (a_tree b) q = node_at (a_tree a) q"
proof -
  have start: "staying d (a_tree a) a" using assms(3-5) by (simp add: staying_def confined_def)
  have "ensures (staying d (a_tree a)) (extract_tar_gz (Archive es end_err) (render True d))
      (\<lambda>_. staying d (a_tree a)) (staying d (a_tree a))"
    unfolding extract_tar_gz_def payload.case
  proof (rule staying_seq)
    show "ensures (staying d (a_tree a)) (wrapping (''mkdir '' @ render True d) (os_mkdir_all (render True d) 493))
        (\<lambda>_. staying d (a_tree a)) (staying d (a_tree a))"
      using staying_mkdir_all [of d "[]" "a_tree a" 493] assms(1) by (simp add: ensures_wrapping)
  qed (rule staying_seq [OF staying_entries [OF assms(1,2,6)] staying_end])
  with start assms(7) have "staying d (a_tree a) b"
    by (cases r) (auto dest: ensuresD_Inr ensuresD_Inl)
  with assms(8) show ?thesis by (simp add: staying_def confined_def)
qed

text \<open>A path through a symbolic link to another directory, and a file that is written there.\<close>

lemma resolve_behind_link:
  assumes "list_all plain d" and "plain x" and "list_all plain e" and "e \<noteq> []"
    and d: "\<And>q. prefix q d \<Longrightarrow> dir_at t q" and e: "\<And>q. prefix q e \<Longrightarrow> dir_at t q"
    and link: "node_at t (d @ [x]) = Some (Link (render True e))"
  shows "resolve t True max_links [] (d @ x # cs) = resolve t True 39 e cs"
proof -
  let ?l = "render True e"
  have split: "split_slash ?l = [] # e"
    using assms(3,4) by (simp add: render_def split_join_slash plain_no_slash)
  have abs: "is_abs ?l" by (rule is_abs_render)
  have "resolve t True max_links [] (d @ x # cs) = resolve t True max_links ([] @ d) (x # cs)"
    by (rule resolve_through) (use assms(1) d in auto)
  also have "\<dots> = resolve t True 39 [] (split_slash ?l @ cs)"
    using resolve_link [of x t d ?l 39 cs] assms(2) link abs by (simp add: max_links_def)
  also have "\<dots> = resolve t True 39 [] (e @ cs)" by (simp add: split resolve.simps(2) [of _ _ _ _ "[]"])
  also have "\<dots> = resolve t True 39 ([] @ e) cs"
    by (rule resolve_through) (use assms(3) e in auto)
  finally show ?thesis by simp
qed

lemma file_behind_link:
  assumes "list_all plain d" and "list_all plain [x, n]" and "list_all plain e" and "e \<noteq> []"
    and quiet: "a_script a = []"
    and "\<And>q. prefix q d \<Longrightarrow> dir_at (a_tree a) q" and e: "\<And>q. prefix q e \<Longrightarrow> dir_at (a_tree a) q"
    and "node_at (a_tree a) (d @ [x]) = Some (Link (render True e))"
    and none: "node_at (a_tree a) (e @ [n]) = None"
  shows "extract_entry (render True d) \<lparr>te_name = join_slash [x, n], te_type = TypeReg, te_mode = mode,
      te_link = l, te_body = content, te_error = None\<rparr> a = (Inr (), a\<lparr>a_tree :=
      fmupd (e @ [n]) (File (created (a_umask a) (perm_bits mode)) content (a_clock a)) (a_tree a)\<rparr>)"
proof -
  have px: "plain x" using assms(2) by simp
  note over = resolve_behind_link [OF assms(1) px assms(3,4,6-8)]
  have p: "list_all plain (d @ [x, n])" "list_all plain (d @ [x])" "plain n" using assms(1,2) by auto
  have join: "safe_join (render True d) (join_slash [x, n]) = Inr (render True (d @ [x, n]))"
    using safe_join_plain [OF assms(1,2)] by simp
  have pd: "path_dir (render True (d @ [x, n])) = render True (d @ [x])"
    using path_dir_render [of "d @ [x]" n] p by simp
  obtain m where m: "node_at (a_tree a) e = Some (Dir m)" using e [of e] by (auto simp: dir_at_def)
  have "stat_node True (d @ [x]) (a_tree a) = Inr (Dir m)"
    using over [of "[]"] by (simp add: stat_node_def walk_to_def m)
  then have parent: "make_parent (render True (d @ [x, n])) a = (Inr (), a)"
    using mkdir_all_there [of "d @ [x]" "a_tree a" "Dir m" "a_umask a" 493]
    by (simp add: make_parent_def wrapping_def os_mkdir_all_def changing_quiet quiet located_def
        pd locate_render [OF p(2)])
  have "walk_to True (a_tree a) (d @ [x, n]) = Inr (e @ [n])"
    using over [of "[n]"] resolve_last [OF p(3), of True "a_tree a" e 39] none
    by (simp add: walk_to_def link_at_def)
  then have wrote: "os_write_file (render True (d @ [x, n])) perm content a = (Inr (), a\<lparr>a_tree :=
      fmupd (e @ [n]) (File (created (a_umask a) perm) content (a_clock a)) (a_tree a)\<rparr>)" for perm
    by (simp add: os_write_file_def changing_quiet quiet located_def locate_render [OF p(1)]
        write_file_def none)
  show ?thesis using join parent wrote by (simp add: extract_entry_def andthen_def wrapping_def)
qed

text \<open>
  C40: with a symbolic link an archive leaves the directory: an entry for a link to any other
  directory, and an entry for a file behind that link, put the file there, although both names
  pass the check.
\<close>

theorem symlink_entry_escapes:
  assumes "list_all plain d" and "list_all plain [x, n]" and "list_all plain e" and "e \<noteq> []"
    and "a_script a = []" and "wf_tree (a_tree a)"
    and "\<And>q. prefix q d \<Longrightarrow> dir_at (a_tree a) q" and "\<And>q. prefix q e \<Longrightarrow> dir_at (a_tree a) q"
    and "node_at (a_tree a) (d @ [x]) = None" and "node_at (a_tree a) (e @ [n]) = None"
    and "\<not> prefix d e"
  shows "\<exists>b m. extract_tar_gz
      (Archive [\<lparr>te_name = x, te_type = TypeSymlink, te_mode = 511, te_link = render True e,
                 te_body = [], te_error = None\<rparr>,
                \<lparr>te_name = join_slash [x, n], te_type = TypeReg, te_mode = 384, te_link = [],
                 te_body = content, te_error = None\<rparr>] None) (render True d) a = (Inr (), b) \<and>
      node_at (a_tree b) (e @ [n]) = Some (File m content (a_clock a))"
proof -
  let ?l = "render True e"
  let ?a = "a\<lparr>a_tree := fmupd (d @ [x]) (Link ?l) (a_tree a)\<rparr>"
  have made: "wrapping pre (os_mkdir_all (render True d) 493) a = (Inr (), a)" for pre
    using os_mkdir_all_there [OF assms(5,1,7)] by (simp add: wrapping_def)
  have ent: "entry_of (join_slash [x]) (Link ?l) = Inr \<lparr>te_name = x, te_type = TypeSymlink,
      te_mode = 511, te_link = ?l, te_body = [], te_error = None\<rparr>" by (simp add: entry_of_def)
  have dirs: "dir_at (a_tree a) q" if "strict_prefix q (d @ [x])" for q
    using that assms(7) by (auto simp: strict_prefix_def)
  have one: "extract_entry (render True d) \<lparr>te_name = x, te_type = TypeSymlink, te_mode = 511,
      te_link = ?l, te_body = [], te_error = None\<rparr> a = (Inr (), ?a)"
    using extract_one [OF assms(5,1) _ _ dirs assms(9) ent] assms(2) by (simp add: render_def)
  have kept: "dir_at (a_tree ?a) q" if "dir_at (a_tree a) q" for q
    using that assms(9) by (auto simp: dir_at_def node_at_upd)
  have none: "node_at (a_tree ?a) (e @ [n]) = None" and link: "node_at (a_tree ?a) (d @ [x]) = Some (Link ?l)"
    using assms(10,11) by (auto simp: node_at_upd)
  have quiet: "a_script ?a = []" using assms(5) by simp
  note two = file_behind_link [OF assms(1-4) quiet kept [OF assms(7)] kept [OF assms(8)] link none,
      of 384 "[]" content]
  show ?thesis
    by (simp add: extract_tar_gz_def andthen_def made one two [simplified] node_at_upd)
qed

end
