(* ===== verification/OverlaySpec.thy ===== *)
theory OverlaySpec
  imports OverlaySteps ArchiveSpec
begin

text \<open>
  The layer manager on a machine where no call fails and nobody else changes the data directory:
  which layers it finds, which it sends, and how it finds its level again in another process.
\<close>

section \<open>Numbered directories\<close>

lemma ordinal_of_iff:
  "ordinal_of pre (name, isdir) = Some n \<longleftrightarrow>
     isdir \<and> has_prefix name pre \<and> atoi (drop (length pre) name) = Some n \<and> 0 < n"
  by (auto simp: ordinal_of_def split: option.splits)

lemma atoi_range: "atoi s = Some n \<Longrightarrow> in_i64 n"
  by (auto simp: atoi_def split: list.splits if_splits option.splits)

lemma ordinal_of_self: "0 < n \<Longrightarrow> in_i64 n \<Longrightarrow> ordinal_of pre (pre @ itoa n, True) = Some n"
  by (auto simp: ordinal_of_iff has_prefix_iff atoi_itoa)

text \<open>The ordinals of a prefix, and directories whose names are written the way the manager does.\<close>

definition ordinals :: "string \<Rightarrow> path \<Rightarrow> tree \<Rightarrow> int set" where
  "ordinals pre d t = {n. 0 < n \<and> in_i64 n \<and> dir_at t (d @ [pre @ itoa n])}"

definition canonical :: "string \<Rightarrow> path \<Rightarrow> tree \<Rightarrow> bool" where
  "canonical pre d t \<longleftrightarrow>
     (\<forall>name n. dir_at t (d @ [name]) \<longrightarrow> ordinal_of pre (name, True) = Some n \<longrightarrow> name = pre @ itoa n)"

lemma finite_ordinals [simp]: "finite (ordinals pre d t)"
proof (rule finite_imageD [of "\<lambda>n. d @ [pre @ itoa n]"])
  show "finite ((\<lambda>n. d @ [pre @ itoa n]) ` ordinals pre d t)"
    by (rule finite_subset [of _ "fset (fmdom t)"])
       (auto simp: ordinals_def dir_at_def node_at_def fmlookup_dom_iff)
  show "inj_on (\<lambda>n. d @ [pre @ itoa n]) (ordinals pre d t)"
    by (auto simp: inj_on_def ordinals_def itoa_inj)
qed

lemma set_child_names: "set (child_names t q) = {c. fmlookup t (q @ [c]) \<noteq> None}"
proof -
  have "c \<in> set (child_names t q) \<longleftrightarrow> fmlookup t (q @ [c]) \<noteq> None" for c
  proof
    assume "c \<in> set (child_names t q)"
    then obtain p where "p \<noteq> []" "butlast p = q" "fmlookup t p \<noteq> None" "c = last p"
      by (auto simp: child_names_def sorted_list_of_fset.rep_eq fmlookup_dom_iff)
    then show "fmlookup t (q @ [c]) \<noteq> None" by (metis append_butlast_last_id)
  next
    assume "fmlookup t (q @ [c]) \<noteq> None"
    then have "last (q @ [c]) \<in> last ` fset (ffilter (\<lambda>p. p \<noteq> [] \<and> butlast p = q) (fmdom t))"
      by (intro imageI) (auto simp: fmlookup_dom_iff)
    then show "c \<in> set (child_names t q)"
      by (simp add: child_names_def sorted_list_of_fset.rep_eq)
  qed
  then show ?thesis by blast
qed

lemma distinct_child_names: "distinct (child_names t q)"
  unfolding child_names_def distinct_map
proof
  show "inj_on last (set (sorted_list_of_fset (ffilter (\<lambda>p. p \<noteq> [] \<and> butlast p = q) (fmdom t))))"
    by (auto simp: inj_on_def sorted_list_of_fset.rep_eq) (metis append_butlast_last_id)
qed (simp add: sorted_list_of_fset.rep_eq)

lemma read_dir_clear:
  assumes "wf_tree t" and "list_all plain d" and "dir_at t d"
  shows "read_dir d t = Inr (map (\<lambda>n. (n, dir_at t (d @ [n]))) (child_names t d))"
proof -
  obtain m where m: "node_at t d = Some (Dir m)" using assms(3) by (auto simp: dir_at_def)
  have "walk_to True t d = Inr d"
    using wf_tree_prefix [OF assms(1) m] assms(3) by (intro walk_to_clear [OF assms(2)]) (auto simp: dir_at_not_link)
  moreover have "(case node_at t (d @ [n]) of Some nd \<Rightarrow> is_dir nd | None \<Rightarrow> False) = dir_at t (d @ [n])" for n
    by (auto simp: dir_at_def split: option.split elim: is_dir.elims)
  ultimately show ?thesis by (simp add: read_dir_def m)
qed

lemma resolve_missing:
  "list_all plain cs \<Longrightarrow> (\<And>q. prefix q cs \<Longrightarrow> node_at t (cur @ q) = None \<or> dir_at t (cur @ q)) \<Longrightarrow>
   node_at t (cur @ cs) = None \<Longrightarrow>
   resolve t fl n cur cs = Inr (cur @ cs) \<or> resolve t fl n cur cs = Inl enoent"
proof (induction cs arbitrary: cur)
  case (Cons c cs)
  have c: "plain c" using Cons.prems(1) by simp
  from Cons.prems(2) [of "[c]"] consider "node_at t (cur @ [c]) = None" | "dir_at t (cur @ [c])" by auto
  then show ?case
  proof cases
    case 1
    with c show ?thesis by (auto simp: resolve.simps(2) plain_def)
  next
    case 2
    have "resolve t fl n (cur @ [c]) cs = Inr ((cur @ [c]) @ cs) \<or> resolve t fl n (cur @ [c]) cs = Inl enoent"
    proof (rule Cons.IH)
      show "node_at t ((cur @ [c]) @ q) = None \<or> dir_at t ((cur @ [c]) @ q)" if "prefix q cs" for q
        using Cons.prems(2) [of "c # q"] that by simp
    qed (use Cons.prems in auto)
    with resolve_dir [OF c 2] show ?thesis by simp
  qed
qed simp

lemma read_dir_missing:
  assumes "list_all plain d" and "\<And>q. prefix q d \<Longrightarrow> node_at t q = None \<or> dir_at t q" and "node_at t d = None"
  shows "read_dir d t = Inl enoent"
  using resolve_missing [of d t "[]" True max_links] assms by (auto simp: read_dir_def walk_to_def)

text \<open>A place for layers: the way there is clear, and the tree is in order.\<close>

definition data_place :: "layer_manager \<Rightarrow> path \<Rightarrow> agent \<Rightarrow> bool" where
  "data_place lm d a \<longleftrightarrow>
     a_script a = [] \<and> wf_tree (a_tree a) \<and> list_all plain d \<and> lm_data_dir lm = render True d \<and>
     (\<forall>q. prefix q d \<longrightarrow> node_at (a_tree a) q = None \<or> dir_at (a_tree a) q)"

definition listing :: "path \<Rightarrow> tree \<Rightarrow> (string \<times> bool) list" where
  "listing d t = map (\<lambda>n. (n, dir_at t (d @ [n]))) (child_names t d)"

lemma distinct_listing: "distinct (listing d t)"
  by (simp add: listing_def distinct_map distinct_child_names inj_on_def)

lemma listed_name:
  assumes "canonical pre d t" and "x \<in> set (listing d t)" and "ordinal_of pre x = Some n"
  shows "x = (pre @ itoa n, True)" and "n \<in> ordinals pre d t"
proof -
  obtain name where x: "x = (name, dir_at t (d @ [name]))" using assms(2) by (auto simp: listing_def)
  with assms(3) have dir: "dir_at t (d @ [name])" by (simp add: ordinal_of_iff)
  with assms(1,3) x have "name = pre @ itoa n" by (simp add: canonical_def)
  with x dir show "x = (pre @ itoa n, True)" by simp
  with assms(3) x dir show "n \<in> ordinals pre d t"
    by (auto simp: ordinals_def ordinal_of_iff dest: atoi_range)
qed

lemma sorted_listing:
  assumes "canonical pre d t"
  shows "sort (List.map_filter (ordinal_of pre) (listing d t)) = sorted_list_of_set (ordinals pre d t)"
proof -
  let ?xs = "filter (\<lambda>x. ordinal_of pre x \<noteq> None) (listing d t)"
  have mf: "List.map_filter (ordinal_of pre) (listing d t) = map (\<lambda>x. the (ordinal_of pre x)) ?xs"
    by (simp add: List.map_filter_def comp_def)
  have "ordinals pre d t \<subseteq> (\<lambda>x. the (ordinal_of pre x)) ` set ?xs"
  proof
    fix n assume "n \<in> ordinals pre d t"
    then have n: "0 < n" "in_i64 n" "dir_at t (d @ [pre @ itoa n])" by (auto simp: ordinals_def)
    then have "pre @ itoa n \<in> set (child_names t d)"
      by (auto simp: set_child_names dir_at_def node_at_def)
    with n have "(pre @ itoa n, True) \<in> set (listing d t)" by (auto simp: listing_def)
    with ordinal_of_self [OF n(1,2), of pre] show "n \<in> (\<lambda>x. the (ordinal_of pre x)) ` set ?xs"
      by (intro image_eqI [of _ _ "(pre @ itoa n, True)"]) auto
  qed
  then have "set (map (\<lambda>x. the (ordinal_of pre x)) ?xs) = ordinals pre d t"
    using listed_name(2) [OF assms] by fastforce
  moreover have "distinct (map (\<lambda>x. the (ordinal_of pre x)) ?xs)"
    unfolding distinct_map
  proof
    have "x = (pre @ itoa (the (ordinal_of pre x)), True)" if "x \<in> set ?xs" for x
      using that listed_name(1) [OF assms, of x] by auto
    then show "inj_on (\<lambda>x. the (ordinal_of pre x)) (set ?xs)"
      by (intro inj_on_inverseI [where g = "\<lambda>n. (pre @ itoa n, True)"]) simp
  qed (simp add: distinct_listing)
  ultimately show ?thesis
    unfolding mf using sorted_list_of_set_sort_remdups by (metis distinct_remdups_id)
qed

lemma numbered_quiet:
  assumes "data_place lm d a" and "canonical pre d (a_tree a)"
  shows "numbered_dirs lm pre a = (Inr (sorted_list_of_set (ordinals pre d (a_tree a))), a)"
proof -
  let ?t = "a_tree a"
  from assms(1) have q: "a_script a = []" and wf: "wf_tree ?t" and p: "list_all plain d"
    and dd: "lm_data_dir lm = render True d"
    and way: "\<And>r. prefix r d \<Longrightarrow> node_at ?t r = None \<or> dir_at ?t r"
    by (auto simp: data_place_def)
  have read: "attempt (os_read_dir (lm_data_dir lm)) a = (Inr (read_dir d ?t), a)"
    by (simp add: attempt_def os_read_dir_def reading_quiet [OF q] dd located_def locate_render [OF p])
  show ?thesis
  proof (cases "node_at ?t d")
    case None
    have none: "node_at ?t (d @ [c]) = None" for c
    proof (rule ccontr)
      assume "node_at ?t (d @ [c]) \<noteq> None"
      then obtain nd where "node_at ?t (d @ [c]) = Some nd" by auto
      from wf_tree_prefix [OF wf this, of d] None show False by (simp add: dir_at_def strict_prefix_def)
    qed
    then have "ordinals pre d ?t = {}" by (auto simp: ordinals_def dir_at_def)
    with read read_dir_missing [OF p way None] show ?thesis
      by (simp add: numbered_dirs_def andthen_def enoent_def)
  next
    case (Some nd)
    then have "dir_at ?t d" using way [of d] by auto
    from read_dir_clear [OF wf p this] read sorted_listing [OF assms(2)] show ?thesis
      by (simp add: numbered_dirs_def andthen_def listing_def)
  qed
qed

lemma path_join_plain:
  assumes "list_all plain d" and "plain c"
  shows "path_join (render True d) c = render True (d @ [c])"
proof -
  have "safe_join (render True d) (join_slash [c]) = Inr (render True (d @ [c]))"
    by (rule safe_join_plain) (use assms in auto)
  moreover have "path_clean c = c" "\<not> is_abs c" "c \<noteq> ''..''" "\<not> has_prefix c ''../''"
    using join_slash_relative [of "[c]"] join_slash_no_parent [of "[c]"] assms(2) by auto
  ultimately show ?thesis by (simp add: safe_join_def)
qed

lemma plain_numbered: "pre \<noteq> [] \<Longrightarrow> CHR ''/'' \<notin> set pre \<Longrightarrow> hd pre \<noteq> CHR ''.'' \<Longrightarrow> plain (pre @ itoa n)"
  by (cases pre) (auto simp: plain_def)

lemma lm_dir_render:
  assumes "data_place lm d a" and "p \<in> {''u'', ''w'', ''o'', ''l''}"
  shows "lm_dir lm p n = render True (d @ [p @ itoa n])" and "plain (p @ itoa n)"
  using assms path_join_plain [of d "p @ itoa n"] plain_numbered [of p n]
  by (auto simp: lm_dir_def data_place_def)

section \<open>Sending\<close>

lemma length_nat_digits: "n < 10 ^ k \<Longrightarrow> 0 < k \<Longrightarrow> length (nat_digits n) \<le> k"
proof (induction k arbitrary: n)
  case (Suc k)
  show ?case
  proof (cases "n < 10")
    case True
    then show ?thesis by (subst nat_digits.simps) simp
  next
    case False
    with Suc.prems have "k \<noteq> 0" by (cases k) auto
    moreover have "n div 10 < 10 ^ k" using Suc.prems(1) by (simp add: less_mult_imp_div_less mult.commute)
    ultimately have "length (nat_digits (n div 10)) \<le> k" by (intro Suc.IH) auto
    with False show ?thesis by (subst nat_digits.simps) simp
  qed
qed simp

lemma length_itoa: "0 < n \<Longrightarrow> in_i64 n \<Longrightarrow> length (itoa n) \<le> 19"
proof -
  assume n: "0 < n" "in_i64 n"
  then have "nat n < 2 ^ 63" by (simp add: in_i64_def nat_less_iff)
  also have "(2 ^ 63 :: nat) < 10 ^ 19" by simp
  finally show ?thesis using n length_nat_digits [of "nat n" 19] by (simp add: itoa_def)
qed

definition layer_header :: "int \<Rightarrow> frame_header" where
  "layer_header n = \<lparr>fh_kind = kind_layer, fh_ordinal = n, fh_name = ''u'' @ itoa n\<rparr>"

definition marker :: "int \<Rightarrow> string" where
  "marker n = ''.sent_'' @ itoa n"

lemma plain_marker [simp]: "plain (marker n)"
  by (simp add: marker_def plain_def)

lemma marker_not_layer [simp]: "marker n \<noteq> CHR ''u'' # s" "CHR ''u'' # s \<noteq> marker n"
  by (simp_all add: marker_def)

lemma nat_digits_inject [simp]: "nat_digits m = nat_digits n \<longleftrightarrow> m = n"
  by (metis nat_digits_val)

lemma itoa_inject: "itoa i = itoa j \<longleftrightarrow> i = j"
proof -
  have neg: "CHR ''-'' # s \<noteq> nat_digits n" for s n
    using hd_nat_digits [of n] by (metis is_digit_not(1) list.sel(1))
  show ?thesis by (auto simp: itoa_def neg neg [symmetric])
qed

lemma marker_inject [simp]: "marker i = marker j \<longleftrightarrow> i = j"
  by (simp add: marker_def itoa_inject)

definition sent_at :: "path \<Rightarrow> tree \<Rightarrow> int \<Rightarrow> bool" where
  "sent_at d t n \<longleftrightarrow> node_at t (d @ [marker n]) \<noteq> None"

text \<open>The entries of layer \<open>n\<close>.\<close>

definition layer_archive :: "path \<Rightarrow> tree \<Rightarrow> int \<Rightarrow> go_err + tar_entry list" where
  "layer_archive d t n = tar_dir (d @ [''u'' @ itoa n]) t"

text \<open>A data directory whose markers, if any, are files.\<close>

definition send_place :: "layer_manager \<Rightarrow> path \<Rightarrow> agent \<Rightarrow> bool" where
  "send_place lm d a \<longleftrightarrow> data_place lm d a \<and> dir_at (a_tree a) d \<and>
     (\<forall>n. node_at (a_tree a) (d @ [marker n]) = None \<or>
          (\<exists>m c x. node_at (a_tree a) (d @ [marker n]) = Some (File m c x)))"

lemma sent_marker_render:
  "send_place lm d a \<Longrightarrow> sent_marker lm n = render True (d @ [marker n])"
  unfolding sent_marker_def marker_def [symmetric]
  using path_join_plain by (simp add: send_place_def data_place_def)

lemma marker_walk:
  assumes "send_place lm d a"
  shows "list_all plain (d @ [marker n])" and "walk_to fl (a_tree a) (d @ [marker n]) = Inr (d @ [marker n])"
proof -
  have wf: "wf_tree (a_tree a)" using assms by (simp add: send_place_def data_place_def)
  show p: "list_all plain (d @ [marker n])" using assms by (simp add: send_place_def data_place_def)
  have "node_at (a_tree a) (d @ [marker n]) = None \<or>
      (\<exists>m c x. node_at (a_tree a) (d @ [marker n]) = Some (File m c x))"
    using assms by (simp add: send_place_def)
  then have nl: "\<not> link_at (a_tree a) (d @ [marker n])" by (auto simp: link_at_def)
  have "dir_at (a_tree a) r" if "strict_prefix r (d @ [marker n])" for r
  proof -
    obtain m where m: "node_at (a_tree a) d = Some (Dir m)"
      using assms by (auto simp: send_place_def dir_at_def)
    have "r = d \<or> strict_prefix r d" using that by (auto simp: strict_prefix_def)
    with wf_tree_prefix [OF wf m] m show ?thesis by (auto simp: dir_at_def)
  qed
  then show "walk_to fl (a_tree a) (d @ [marker n]) = Inr (d @ [marker n])"
    using nl by (intro walk_to_clear [OF p]) auto
qed

lemma is_sent_quiet:
  assumes "send_place lm d a"
  shows "is_sent lm n a = (Inr (sent_at d (a_tree a) n), a)"
proof -
  have q: "a_script a = []" using assms by (simp add: send_place_def data_place_def)
  show ?thesis
    by (simp add: is_sent_def andthen_def attempt_def os_stat_def reading_quiet [OF q] located_def
        sent_marker_render [OF assms] locate_render [OF marker_walk(1) [OF assms]] stat_node_def
        marker_walk(2) [OF assms] sent_at_def split: option.split)
qed

definition with_marker :: "path \<Rightarrow> int \<Rightarrow> agent \<Rightarrow> agent" where
  "with_marker d n a =
     a\<lparr>a_tree := fmupd (d @ [marker n]) (File (created (a_umask a) 420) [] (a_clock a)) (a_tree a)\<rparr>"

lemma mark_sent_quiet:
  assumes "send_place lm d a" and "\<not> sent_at d (a_tree a) n"
  shows "mark_sent lm n a = (Inr (), with_marker d n a)"
proof -
  have q: "a_script a = []" using assms(1) by (simp add: send_place_def data_place_def)
  have none: "node_at (a_tree a) (d @ [marker n]) = None" using assms(2) by (simp add: sent_at_def)
  show ?thesis
    by (simp add: mark_sent_def wrapping_def os_write_file_def changing_quiet [OF q] located_def
        sent_marker_render [OF assms(1)] locate_render [OF marker_walk(1) [OF assms(1)]]
        write_file_def marker_walk(2) [OF assms(1)] none with_marker_def)
qed

text \<open>Sending one layer.\<close>

lemma send_layer_quiet:
  assumes place: "send_place lm d a" and n: "0 < n" "in_i64 n" and fresh: "\<not> sent_at d (a_tree a) n"
    and tar: "layer_archive d (a_tree a) n = Inr es"
  shows "send_layer lm what dest n a =
    (Inr (), with_marker d n (a\<lparr>a_log := a_log a @ [(SendFrame dest (layer_header n) es, True)]\<rparr>))"
proof -
  let ?b = "a\<lparr>a_log := a_log a @ [(SendFrame dest (layer_header n) es, True)]\<rparr>"
  have q: "a_script a = []" and dp: "data_place lm d a" using place by (simp_all add: send_place_def data_place_def)
  have hdr: "write_frame_header (layer_header n) = Inr (header_bytes (layer_header n))"
    using length_itoa [OF n] by (simp add: write_frame_header_def layer_header_def frame_name_size_def)
  have dir: "lm_dir lm ''u'' n = render True (d @ [''u'' @ itoa n])" "plain (''u'' @ itoa n)"
    using lm_dir_render [OF dp, of "''u''" n] by auto
  have "locate cwd (lm_dir lm ''u'' n) = d @ [''u'' @ itoa n]" for cwd
    using locate_render [of "d @ [''u'' @ itoa n]" cwd] dp dir by (simp add: data_place_def)
  note loc = this [of "a_cwd a"]
  have "send_dir dest n (''u'' @ itoa n) (lm_dir lm ''u'' n) a = (Inr (), ?b)"
    using hdr tar loc
    by (simp add: send_dir_def layer_header_def dial_def andthen_def wrapping_def
        reading_quiet [OF q] send_frame_def located_def layer_archive_def perform_def q)
  moreover have "mark_sent lm n ?b = (Inr (), with_marker d n ?b)"
    by (rule mark_sent_quiet) (use place fresh in \<open>simp_all add: send_place_def data_place_def\<close>)
  ultimately show ?thesis by (simp add: send_layer_def andthen_def wrapping_def)
qed

definition unsent :: "path \<Rightarrow> agent \<Rightarrow> int \<Rightarrow> bool" where
  "unsent d a n \<longleftrightarrow> n < a_level a \<and> \<not> sent_at d (a_tree a) n"

lemma copy_layer_idle:
  "send_place lm d a \<Longrightarrow> \<not> unsent d a n \<Longrightarrow> copy_layer lm dest n a = (Inr (), a)"
  using is_sent_quiet [of lm d a n] by (auto simp: unsent_def copy_layer_def andthen_def get_level_def)

definition with_layer :: "path \<Rightarrow> string \<Rightarrow> int \<Rightarrow> tar_entry list \<Rightarrow> agent \<Rightarrow> agent" where
  "with_layer d dest n es a =
     with_marker d n (a\<lparr>a_log := a_log a @ [(SendFrame dest (layer_header n) es, True)]\<rparr>)"

lemma copy_layer_sends:
  assumes "send_place lm d a" and "0 < n" and "in_i64 n" and "unsent d a n"
    and "layer_archive d (a_tree a) n = Inr es"
  shows "copy_layer lm dest n a = (Inr (), with_layer d dest n es a)"
  using assms send_layer_quiet [OF assms(1-3) _ assms(5)] is_sent_quiet [OF assms(1), of n]
  by (simp add: unsent_def copy_layer_def andthen_def get_level_def with_layer_def)

text \<open>A marker changes nothing for the layers.\<close>

lemma tar_walk_cong:
  "(\<And>p. p \<in> set ps \<Longrightarrow> node_at t' p = node_at t p) \<Longrightarrow> tar_walk t' s ps = tar_walk t s ps"
  by (induction ps) (auto split: option.split sum.split)

lemma with_marker_place:
  assumes "send_place lm d a"
  shows "send_place lm d (with_marker d n a)"
    and "node_at (a_tree (with_marker d n a)) q =
      (if q = d @ [marker n] then Some (File (created (a_umask a) 420) [] (a_clock a)) else node_at (a_tree a) q)"
proof -
  let ?t = "a_tree (with_marker d n a)"
  show at: "node_at ?t q = (if q = d @ [marker n] then Some (File (created (a_umask a) 420) [] (a_clock a))
      else node_at (a_tree a) q)" for q
    by (simp add: with_marker_def node_at_upd)
  have nd: "\<not> dir_at (a_tree a) (d @ [marker n])"
  proof -
    have "node_at (a_tree a) (d @ [marker n]) = None \<or>
      (\<exists>m c x. node_at (a_tree a) (d @ [marker n]) = Some (File m c x))"
      using assms by (simp add: send_place_def)
    then show ?thesis by (auto simp: dir_at_def)
  qed
  have "wf_tree ?t"
    unfolding with_marker_def
    by (simp, rule wf_tree_upd) (use assms nd in \<open>auto simp: send_place_def data_place_def\<close>)
  moreover have "dir_at ?t q" if "dir_at (a_tree a) q" for q
    using that nd by (auto simp: dir_at_def at)
  moreover have "q \<noteq> d @ [marker n]" if "prefix q d" for q
    using prefix_length_le [OF that] by auto
  ultimately show "send_place lm d (with_marker d n a)"
    using assms by (auto simp: send_place_def data_place_def at) (auto simp: with_marker_def)
qed

lemma layer_archive_marker:
  assumes "send_place lm d a" and "dir_at (a_tree a) (d @ [''u'' @ itoa k])"
  shows "layer_archive d (a_tree (with_marker d n a)) k = layer_archive d (a_tree a) k"
proof -
  let ?s = "d @ [''u'' @ itoa k]" and ?t = "a_tree a" and ?t' = "a_tree (with_marker d n a)"
  note at = with_marker_place(2) [OF assms(1), of n]
  have other: "p \<noteq> d @ [marker n]" if "prefix ?s p" for p using that by (auto simp: prefix_def)
  have wf: "wf_tree ?t" "wf_tree ?t'"
    using assms(1) with_marker_place(1) [OF assms(1), of n] by (simp_all add: send_place_def data_place_def)
  have dir: "dir_at ?t' ?s" using assms(2) by (simp add: dir_at_def at)
  have "walk_below ?t' ?s = walk_below ?t ?s"
  proof -
    have "ffilter (strict_prefix ?s) (fmdom ?t') = ffilter (strict_prefix ?s) (fmdom ?t)"
      using other by (auto simp: with_marker_def strict_prefix_def)
    then show ?thesis by (simp only: walk_below_def)
  qed
  moreover have "tar_walk ?t' ?s (walk_below ?t ?s) = tar_walk ?t ?s (walk_below ?t ?s)"
    using other by (intro tar_walk_cong) (auto simp: set_walk_below strict_prefix_def at)
  ultimately show ?thesis
    by (simp only: layer_archive_def tar_dir_walk [OF wf(1) assms(2)] tar_dir_walk [OF wf(2) dir])
qed

lemma with_layer_fields:
  assumes "send_place lm d a"
  shows "send_place lm d (with_layer d dest n es a)"
    and "a_log (with_layer d dest n es a) = a_log a @ [(SendFrame dest (layer_header n) es, True)]"
    and "a_level (with_layer d dest n es a) = a_level a"
    and "(\<And>k. q \<noteq> d @ [marker k]) \<Longrightarrow>
         node_at (a_tree (with_layer d dest n es a)) q = node_at (a_tree a) q"
    and "sent_at d (a_tree (with_layer d dest n es a)) k \<longleftrightarrow> sent_at d (a_tree a) k \<or> k = n"
    and "dir_at (a_tree a) (d @ [''u'' @ itoa k]) \<Longrightarrow>
         layer_archive d (a_tree (with_layer d dest n es a)) k = layer_archive d (a_tree a) k"
proof -
  let ?c = "a\<lparr>a_log := a_log a @ [(SendFrame dest (layer_header n) es, True)]\<rparr>"
  have c: "send_place lm d ?c" using assms by (simp add: send_place_def data_place_def)
  show "send_place lm d (with_layer d dest n es a)"
    and "a_log (with_layer d dest n es a) = a_log a @ [(SendFrame dest (layer_header n) es, True)]"
    and "a_level (with_layer d dest n es a) = a_level a"
    using with_marker_place(1) [OF c, of n] by (simp_all add: with_layer_def with_marker_def)
  show "(\<And>k. q \<noteq> d @ [marker k]) \<Longrightarrow> node_at (a_tree (with_layer d dest n es a)) q = node_at (a_tree a) q"
    and "sent_at d (a_tree (with_layer d dest n es a)) k \<longleftrightarrow> sent_at d (a_tree a) k \<or> k = n"
    by (simp_all add: with_layer_def sent_at_def with_marker_place(2) [OF c])
  show "dir_at (a_tree a) (d @ [''u'' @ itoa k]) \<Longrightarrow>
      layer_archive d (a_tree (with_layer d dest n es a)) k = layer_archive d (a_tree a) k"
    using layer_archive_marker [OF c, of k n] by (simp add: with_layer_def)
qed

text \<open>The loop of \<open>CopyCheckpoint\<close>.\<close>

lemma copy_loop_idle:
  assumes "send_place lm d a" and "\<And>n. n \<in> set ns \<Longrightarrow> \<not> unsent d a n"
  shows "for_each (copy_layer lm dest) ns a = (Inr (), a)"
  using assms(2) by (induction ns) (simp_all add: andthen_def copy_layer_idle [OF assms(1)])

lemma copy_loop:
  assumes "send_place lm d a" and "distinct ns" and "set ns \<subseteq> ordinals ''u'' d (a_tree a)"
    and "\<And>n. n \<in> set ns \<Longrightarrow> unsent d a n \<Longrightarrow> layer_archive d (a_tree a) n = Inr (es n)"
  shows "\<exists>b. for_each (copy_layer lm dest) ns a = (Inr (), b) \<and> send_place lm d b \<and>
      a_log b = a_log a @ map (\<lambda>n. (SendFrame dest (layer_header n) (es n), True)) (filter (unsent d a) ns) \<and>
      a_level b = a_level a \<and>
      (\<forall>q. (\<forall>n. q \<noteq> d @ [marker n]) \<longrightarrow> node_at (a_tree b) q = node_at (a_tree a) q) \<and>
      (\<forall>n. sent_at d (a_tree b) n \<longleftrightarrow> sent_at d (a_tree a) n \<or> n \<in> set ns \<and> n < a_level a)"
  using assms
proof (induction ns arbitrary: a)
  case Nil
  then show ?case by simp
next
  case (Cons n ns)
  have n: "0 < n" "in_i64 n" using Cons.prems(3) by (auto simp: ordinals_def)
  show ?case
  proof (cases "unsent d a n")
    case False
    then have "sent_at d (a_tree a) n" if "n < a_level a" using that by (simp add: unsent_def)
    then show ?thesis
      using Cons.IH [OF Cons.prems(1)] Cons.prems(2-4) copy_layer_idle [OF Cons.prems(1) False] False
      by (auto simp: andthen_def)
  next
    case True
    let ?b = "with_layer d dest n (es n) a"
    note f = with_layer_fields [OF Cons.prems(1), where dest = dest and n = n and es = "es n"]
    have one: "copy_layer lm dest n a = (Inr (), ?b)"
      by (rule copy_layer_sends [OF Cons.prems(1) n True]) (use True Cons.prems(4) in auto)
    have layers: "node_at (a_tree ?b) (d @ [''u'' @ s]) = node_at (a_tree a) (d @ [''u'' @ s])" for s
      by (rule f(4)) simp
    have todo: "unsent d ?b k \<longleftrightarrow> unsent d a k" if "k \<in> set ns" for k
      using that Cons.prems(2) f(3,5) by (auto simp: unsent_def)
    then have same: "filter (unsent d ?b) ns = filter (unsent d a) ns" by (simp cong: filter_cong)
    have "\<exists>b. for_each (copy_layer lm dest) ns ?b = (Inr (), b) \<and> send_place lm d b \<and>
      a_log b = a_log ?b @ map (\<lambda>n. (SendFrame dest (layer_header n) (es n), True)) (filter (unsent d ?b) ns) \<and>
      a_level b = a_level ?b \<and>
      (\<forall>q. (\<forall>n. q \<noteq> d @ [marker n]) \<longrightarrow> node_at (a_tree b) q = node_at (a_tree ?b) q) \<and>
      (\<forall>k. sent_at d (a_tree b) k \<longleftrightarrow> sent_at d (a_tree ?b) k \<or> k \<in> set ns \<and> k < a_level ?b)"
    proof (rule Cons.IH [OF f(1)])
      show "distinct ns" using Cons.prems(2) by simp
      show "set ns \<subseteq> ordinals ''u'' d (a_tree ?b)"
        using Cons.prems(3) layers by (auto simp: ordinals_def dir_at_def)
      show "layer_archive d (a_tree ?b) k = Inr (es k)" if "k \<in> set ns" "unsent d ?b k" for k
        using that todo Cons.prems(3,4) f(6) [of k] by (auto simp: ordinals_def)
    qed
    then obtain b where b: "for_each (copy_layer lm dest) ns ?b = (Inr (), b)" "send_place lm d b"
      "a_log b = a_log ?b @ map (\<lambda>n. (SendFrame dest (layer_header n) (es n), True)) (filter (unsent d a) ns)"
      "a_level b = a_level a"
      "\<And>q. (\<And>n. q \<noteq> d @ [marker n]) \<Longrightarrow> node_at (a_tree b) q = node_at (a_tree ?b) q"
      "\<And>k. sent_at d (a_tree b) k \<longleftrightarrow> sent_at d (a_tree ?b) k \<or> k \<in> set ns \<and> k < a_level a"
      unfolding same f(3) by blast
    have "n < a_level a" using True by (simp add: unsent_def)
    with b one True f(2,4,5) show ?thesis
      by (intro exI [of _ b]) (simp add: andthen_def, blast)
  qed
qed

text \<open>
  C15: copying the checkpoint sends exactly the frozen layers that were not sent before, each once,
  in the order of their ordinals, with the contents they have, and never the writable layer;
  copying again sends nothing and changes nothing.
\<close>

theorem copy_sends_each_layer_once:
  assumes "send_place lm d a" and "canonical ''u'' d (a_tree a)" and "dest \<noteq> []"
    and "\<And>n. n \<in> ordinals ''u'' d (a_tree a) \<Longrightarrow> unsent d a n \<Longrightarrow>
           layer_archive d (a_tree a) n = Inr (es n)"
  shows "\<exists>b. copy_checkpoint lm dest a = (Inr (), b) \<and>
     a_log b = a_log a @ map (\<lambda>n. (SendFrame dest (layer_header n) (es n), True))
       (filter (unsent d a) (sorted_list_of_set (ordinals ''u'' d (a_tree a)))) \<and>
     copy_checkpoint lm dest b = (Inr (), b)"
proof -
  let ?ns = "sorted_list_of_set (ordinals ''u'' d (a_tree a))"
  have num: "numbered_dirs lm ''u'' c = (Inr (sorted_list_of_set (ordinals ''u'' d (a_tree c))), c)"
    if "send_place lm d c" "canonical ''u'' d (a_tree c)" for c
    using that by (intro numbered_quiet) (simp_all add: send_place_def)
  obtain b where b: "for_each (copy_layer lm dest) ?ns a = (Inr (), b)" "send_place lm d b"
      "a_log b = a_log a @ map (\<lambda>n. (SendFrame dest (layer_header n) (es n), True)) (filter (unsent d a) ?ns)"
      "a_level b = a_level a"
      and same: "\<And>q. (\<And>n. q \<noteq> d @ [marker n]) \<Longrightarrow> node_at (a_tree b) q = node_at (a_tree a) q"
      and sent: "\<And>n. sent_at d (a_tree b) n \<longleftrightarrow> sent_at d (a_tree a) n \<or> n \<in> set ?ns \<and> n < a_level a"
    using copy_loop [of lm d a ?ns es dest] assms by auto
  have layers: "dir_at (a_tree b) (d @ [name]) \<longleftrightarrow> dir_at (a_tree a) (d @ [name])"
    if "has_prefix name ''u''" for name
  proof -
    have "node_at (a_tree b) (d @ [name]) = node_at (a_tree a) (d @ [name])"
      using that by (intro same) (auto simp: has_prefix_iff)
    then show ?thesis by (simp add: dir_at_def)
  qed
  have "ordinals ''u'' d (a_tree b) = ordinals ''u'' d (a_tree a)"
    using layers by (auto simp: ordinals_def has_prefix_iff)
  moreover have "canonical ''u'' d (a_tree b)"
    using assms(2) layers by (auto simp: canonical_def ordinal_of_iff)
  ultimately have "numbered_dirs lm ''u'' b = (Inr ?ns, b)" using num [OF b(2)] by simp
  moreover have "for_each (copy_layer lm dest) ?ns b = (Inr (), b)"
    by (rule copy_loop_idle [OF b(2)]) (use sent b(4) in \<open>auto simp: unsent_def\<close>)
  moreover have "numbered_dirs lm ''u'' a = (Inr ?ns, a)" using num [OF assms(1,2)] .
  ultimately show ?thesis
    using b assms(3) by (intro exI [of _ b]) (simp add: copy_checkpoint_def andthen_def wrapping_def)
qed

end
