(* ===== verification/OverlayLevels.thy ===== *)
theory OverlayLevels
  imports OverlaySpec
begin

text \<open>
  The current level of the layer manager as another process finds it: the preStop hook is not the
  process that mounted the volume, and derives the level from the directories it left.
\<close>

section \<open>Making the directories of a level\<close>

definition level_free :: "path \<Rightarrow> agent \<Rightarrow> int \<Rightarrow> bool" where
  "level_free d a k \<longleftrightarrow>
     (\<forall>p \<in> {''u'', ''w'', ''o''}. node_at (a_tree a) (d @ [p @ itoa k]) = None \<or> dir_at (a_tree a) (d @ [p @ itoa k]))"

text \<open>What making one of the directories does.\<close>

definition made :: "path \<Rightarrow> string \<Rightarrow> tree \<Rightarrow> tree \<Rightarrow> bool" where
  "made d name t t' \<longleftrightarrow> wf_tree t' \<and> (\<forall>q. prefix q (d @ [name]) \<longrightarrow> dir_at t' q) \<and>
     (\<forall>q. \<not> prefix q (d @ [name]) \<longrightarrow> node_at t' q = node_at t q)"

lemma made_other:
  "made d name t t' \<Longrightarrow> name' \<noteq> name \<Longrightarrow> node_at t' (d @ [name']) = node_at t (d @ [name'])"
proof -
  assume m: "made d name t t'" and "name' \<noteq> name"
  then have "\<not> prefix (d @ [name']) (d @ [name])" by (simp add: prefix_append)
  with m show ?thesis by (simp add: made_def)
qed

lemma made_place:
  assumes "data_place lm d a" and "made d name (a_tree a) t'"
  shows "data_place lm d (a\<lparr>a_tree := t'\<rparr>)"
  using assms by (auto simp: data_place_def made_def)

lemma mkdir_level_quiet:
  assumes "data_place lm d a" and "p \<in> {''u'', ''w'', ''o''}"
    and "node_at (a_tree a) (d @ [p @ itoa k]) = None \<or> dir_at (a_tree a) (d @ [p @ itoa k])"
  shows "\<exists>t'. os_mkdir_all (lm_dir lm p k) 493 a = (Inr (), a\<lparr>a_tree := t'\<rparr>) \<and>
           made d (p @ itoa k) (a_tree a) t'"
proof -
  have dir: "lm_dir lm p k = render True (d @ [p @ itoa k])" "plain (p @ itoa k)"
    using lm_dir_render [OF assms(1), of p k] assms(2) by auto
  have pl: "list_all plain (d @ [p @ itoa k])" using assms(1) dir(2) by (simp add: data_place_def)
  have way: "node_at (a_tree a) q = None \<or> dir_at (a_tree a) q" if "prefix q (d @ [p @ itoa k])" for q
    using that assms(1,3) by (auto simp: data_place_def)
  have wf: "wf_tree (a_tree a)" and q: "a_script a = []" using assms(1) by (simp_all add: data_place_def)
  from mkdir_all_clear [OF wf pl way, of "a_umask a" 493] obtain t' where
    "mkdir_all (a_umask a) 493 (d @ [p @ itoa k]) (a_tree a) = (Inr (), t')"
    and "made d (p @ itoa k) (a_tree a) t'"
    unfolding made_def by blast
  then show ?thesis
    by (intro exI [of _ t']) (simp add: os_mkdir_all_def changing_quiet [OF q] located_def dir locate_render [OF pl])
qed

lemma mk_level_dirs_quiet:
  assumes "data_place lm d a" and "level_free d a k"
  shows "\<exists>t'. mk_level_dirs lm k a = (Inr (), a\<lparr>a_tree := t'\<rparr>) \<and> data_place lm d (a\<lparr>a_tree := t'\<rparr>) \<and>
    dir_at t' (d @ [''u'' @ itoa k]) \<and>
    (\<forall>q. (\<forall>p \<in> {''u'', ''w'', ''o''}. \<not> prefix q (d @ [p @ itoa k])) \<longrightarrow> node_at t' q = node_at (a_tree a) q) \<and>
    (\<forall>p \<in> {''u'', ''w'', ''o''}. \<forall>q. prefix q (d @ [p @ itoa k]) \<longrightarrow> dir_at t' q)"
proof -
  obtain t1 where t1: "os_mkdir_all (lm_dir lm ''u'' k) 493 a = (Inr (), a\<lparr>a_tree := t1\<rparr>)"
      "made d (''u'' @ itoa k) (a_tree a) t1"
    using mkdir_level_quiet [OF assms(1), of "''u''" k] assms(2) by (auto simp: level_free_def)
  note p1 = made_place [OF assms(1) t1(2)]
  obtain t2 where t2: "os_mkdir_all (lm_dir lm ''w'' k) 493 (a\<lparr>a_tree := t1\<rparr>) = (Inr (), a\<lparr>a_tree := t2\<rparr>)"
      "made d (''w'' @ itoa k) t1 t2"
    using mkdir_level_quiet [OF p1, of "''w''" k] assms(2) made_other [OF t1(2), of "''w'' @ itoa k"]
    by (auto simp: level_free_def dir_at_def)
  note p2 = made_place [OF p1, of "''w'' @ itoa k" t2]
  obtain t3 where t3: "os_mkdir_all (lm_dir lm ''o'' k) 493 (a\<lparr>a_tree := t2\<rparr>) = (Inr (), a\<lparr>a_tree := t3\<rparr>)"
      "made d (''o'' @ itoa k) t2 t3"
    using mkdir_level_quiet [OF p2, of "''o''" k] t2(2) assms(2) made_other [OF t1(2), of "''o'' @ itoa k"]
      made_other [OF t2(2), of "''o'' @ itoa k"]
    by (auto simp: level_free_def dir_at_def)
  have "mk_level_dirs lm k a = (Inr (), a\<lparr>a_tree := t3\<rparr>)"
    using t1(1) t2(1) t3(1) by (simp add: mk_level_dirs_def andthen_def wrapping_def)
  moreover have "data_place lm d (a\<lparr>a_tree := t3\<rparr>)"
    using made_place [OF p2, of "''o'' @ itoa k" t3] t2(2) t3(2) by simp
  moreover have "dir_at t3 (d @ [''u'' @ itoa k])"
    using t1(2) made_other [OF t2(2), of "''u'' @ itoa k"] made_other [OF t3(2), of "''u'' @ itoa k"]
    by (auto simp: made_def dir_at_def)
  moreover have "node_at t3 q = node_at (a_tree a) q"
    if "\<forall>p \<in> {''u'', ''w'', ''o''}. \<not> prefix q (d @ [p @ itoa k])" for q
    using that t1(2) t2(2) t3(2) by (simp add: made_def)
  moreover have "dir_at t3 q" if p: "p \<in> {''u'', ''w'', ''o''}" "prefix q (d @ [p @ itoa k])" for p q
  proof -
    have "dir_at t3 (d @ [p @ itoa k])"
      using p(1) t1(2) t2(2) t3(2) made_other [OF t2(2), of "''u'' @ itoa k"]
        made_other [OF t3(2), of "''u'' @ itoa k"] made_other [OF t3(2), of "''w'' @ itoa k"]
      by (auto simp: made_def dir_at_def)
    moreover have "wf_tree t3" using t3(2) by (simp add: made_def)
    ultimately show ?thesis
      using p(2) wf_tree_prefix [of t3 "d @ [p @ itoa k]" _ q]
      by (cases "q = d @ [p @ itoa k]") (auto simp: dir_at_def strict_prefix_def)
  qed
  ultimately show ?thesis by blast
qed

section \<open>Finding the level\<close>

lemma last_sorted: "sorted xs \<Longrightarrow> k \<in> set xs \<Longrightarrow> (\<And>x. x \<in> set xs \<Longrightarrow> x \<le> k) \<Longrightarrow> last xs = (k :: int)"
proof -
  assume "sorted xs" and k: "k \<in> set xs" and max: "\<And>x. x \<in> set xs \<Longrightarrow> x \<le> k"
  then obtain ys y where xs: "xs = ys @ [y]" by (cases xs rule: rev_cases) auto
  with \<open>sorted xs\<close> k have "k \<le> y" by (auto simp: sorted_append)
  moreover have "y \<le> k" using max xs by simp
  ultimately show ?thesis using xs by simp
qed

lemma discover_quiet:
  assumes "data_place lm d a" and "canonical ''u'' d (a_tree a)"
    and "k \<in> ordinals ''u'' d (a_tree a)" and "\<And>n. n \<in> ordinals ''u'' d (a_tree a) \<Longrightarrow> n \<le> k"
  shows "discover lm a = (Inr (), a\<lparr>a_level := k\<rparr>)"
proof -
  let ?ns = "sorted_list_of_set (ordinals ''u'' d (a_tree a))"
  have "last ?ns = k" by (rule last_sorted) (use assms(3,4) in auto)
  moreover have "?ns \<noteq> []" using assms(3) finite_ordinals by (metis empty_iff set_empty set_sorted_list_of_set)
  ultimately show ?thesis
    using numbered_quiet [OF assms(1,2)] by (simp add: discover_def andthen_def set_level_def)
qed

lemma quiet_command:
  "a_script a = [] \<Longrightarrow> exec_runner name args a = (Inr (), a\<lparr>a_log := a_log a @ [(argv name args, True)]\<rparr>)"
  by (simp add: exec_runner_def run_command_def wrapping_def perform_def argv_def)

text \<open>The highest level once the directories of level \<open>k\<close> were made.\<close>

lemma discover_made:
  assumes place: "data_place lm d a" and can: "canonical ''u'' d (a_tree a)" and free: "level_free d a k"
    and k: "0 < k" "in_i64 k" and mk: "mk_level_dirs lm k a = (Inr (), c)" and b: "a_tree b = a_tree c" "a_script b = []"
  shows "discover lm b = (Inr (), b\<lparr>a_level := Max (insert k (ordinals ''u'' d (a_tree a)))\<rparr>)"
proof -
  let ?top = "Max (insert k (ordinals ''u'' d (a_tree a)))"
  have fin: "finite (insert k (ordinals ''u'' d (a_tree a)))" using finite_ordinals by simp
  obtain t' where t': "mk_level_dirs lm k a = (Inr (), a\<lparr>a_tree := t'\<rparr>)" "data_place lm d (a\<lparr>a_tree := t'\<rparr>)"
      "dir_at t' (d @ [''u'' @ itoa k])"
      "\<And>q. (\<forall>p \<in> {''u'', ''w'', ''o''}. \<not> prefix q (d @ [p @ itoa k])) \<Longrightarrow> node_at t' q = node_at (a_tree a) q"
    using mk_level_dirs_quiet [OF place free] by blast
  have tree: "a_tree b = t'" using mk t'(1) b(1) by auto
  have same: "dir_at t' (d @ [''u'' @ s]) = dir_at (a_tree a) (d @ [''u'' @ s])" if "s \<noteq> itoa k" for s
    using that t'(4) [of "d @ [''u'' @ s]"] by (simp add: dir_at_def prefix_append)
  note old = same [THEN iffD1, rotated]
  have ords: "ordinals ''u'' d (a_tree b) = insert k (ordinals ''u'' d (a_tree a))"
  proof (rule set_eqI)
    fix n
    show "n \<in> ordinals ''u'' d (a_tree b) \<longleftrightarrow> n \<in> insert k (ordinals ''u'' d (a_tree a))"
      using k t'(3) tree same [of "itoa n"] by (cases "n = k") (auto simp: ordinals_def itoa_inject)
  qed
  show ?thesis
  proof (rule discover_quiet)
    show "data_place lm d b" using t'(2) b(2) tree by (simp add: data_place_def)
    show "canonical ''u'' d (a_tree b)"
      unfolding canonical_def
    proof (intro allI impI)
      fix name n
      assume dir: "dir_at (a_tree b) (d @ [name])" and o: "ordinal_of ''u'' (name, True) = Some n"
      then obtain s where s: "name = ''u'' @ s" by (auto simp: ordinal_of_iff has_prefix_iff)
      show "name = ''u'' @ itoa n"
      proof (cases "s = itoa k")
        case True
        with o s k show ?thesis by (simp add: ordinal_of_iff atoi_itoa)
      next
        case False
        with old [of s] dir s tree have "dir_at (a_tree a) (d @ [name])" by simp
        with can o show ?thesis by (simp add: canonical_def)
      qed
    qed
    show "?top \<in> ordinals ''u'' d (a_tree b)" unfolding ords using fin by (rule Max_in) simp
    show "n \<le> ?top" if "n \<in> ordinals ''u'' d (a_tree b)" for n
      using that fin unfolding ords by (rule Max_ge [rotated])
  qed
qed

text \<open>
  C25: after a volume was mounted or a layer frozen, a process that starts later and looks at the
  directories finds the highest level that has a writable layer, whatever level it started with. This
  is the level of the process that did it exactly when there was no higher one before: a container
  that starts again begins at level 1, and the hook then finds an older, higher level.
\<close>

theorem level_is_discovered:
  assumes "data_place lm d a" and "canonical ''u'' d (a_tree a)" and "level_free d a (a_level a + 1)"
    and "0 \<le> a_level a" and "in_i64 (a_level a + 1)"
    and "init_volume lm a = (Inr (), b) \<or> create_checkpoint lm a = (Inr n, b)"
  shows "a_level b = a_level a + 1 \<and>
    discover lm (b\<lparr>a_level := any\<rparr>) =
      (Inr (), b\<lparr>a_level := Max (insert (a_level b) (ordinals ''u'' d (a_tree a)))\<rparr>) \<and>
    (discover lm (b\<lparr>a_level := any\<rparr>) = (Inr (), b) \<longleftrightarrow> (\<forall>n \<in> ordinals ''u'' d (a_tree a). n \<le> a_level b))"
proof -
  let ?k = "a_level a + 1"
  have q: "a_script a = []" using assms(1) by (simp add: data_place_def)
  obtain t' where mk: "mk_level_dirs lm ?k a = (Inr (), a\<lparr>a_tree := t'\<rparr>)"
    using mk_level_dirs_quiet [OF assms(1,3)] by blast
  have "a_tree b = t' \<and> a_script b = [] \<and> a_level b = ?k"
    using assms(6)
  proof
    assume "create_checkpoint lm a = (Inr n, b)"
    then show ?thesis
      using mk q
      by (auto simp: create_checkpoint_def andthen_def get_level_def set_level_def mount_level_def
          unbind_root_def bind_level_def wrapping_def quiet_command Let_def split: if_splits)
  next
    assume run: "init_volume lm a = (Inr (), b)"
    have "snd (numbered_dirs lm ''l'' a) = a"
      by (simp add: numbered_dirs_def andthen_def attempt_def os_read_dir_def reading_quiet [OF q]
          split: sum.split)
    then obtain r where "numbered_dirs lm ''l'' a = (r, a)" by (metis prod.collapse)
    with run mk q show ?thesis
      by (cases r) (auto simp: init_volume_def andthen_def get_level_def set_level_def mount_level_def
          bind_level_def wrapping_def quiet_command Let_def)
  qed
  then have b: "a_tree b = t'" "a_script b = []" "a_level b = ?k" by auto
  let ?top = "Max (insert ?k (ordinals ''u'' d (a_tree a)))"
  have "discover lm (b\<lparr>a_level := any\<rparr>) = (Inr (), b\<lparr>a_level := any, a_level := ?top\<rparr>)"
    by (rule discover_made [OF assms(1-3) _ assms(5) mk]) (use assms(4) b in auto)
  then have "discover lm (b\<lparr>a_level := any\<rparr>) = (Inr (), b\<lparr>a_level := ?top\<rparr>)" by simp
  moreover have "b\<lparr>a_level := ?top\<rparr> = b \<longleftrightarrow> ?top = ?k"
    using b(3) by (metis agent.select_convs(8) agent.surjective agent.update_convs(8))
  moreover have "?top = ?k \<longleftrightarrow> (\<forall>n \<in> ordinals ''u'' d (a_tree a). n \<le> ?k)"
    using finite_ordinals by (subst Max_eq_iff) auto
  ultimately show ?thesis using b(3) by simp
qed

end
