(* ===== verification/TargetSpec.thy ===== *)
theory TargetSpec
  imports AgentMain OverlayLevels
begin

text \<open>
  The migration target: what the layers a source sends become on its disk, and which volume it
  mounts from them.
\<close>

section \<open>Receiving one layer\<close>

lemma arrival_wf:
  assumes source: "wf_tree t" and target: "wf_tree t0" and plain: "list_all plain d"
    and dirs: "\<And>q. prefix q d \<Longrightarrow> dir_at u q"
    and below: "\<And>rel. rel \<noteq> [] \<Longrightarrow> node_at u (d @ rel) = map_option (arrived umask now) (node_at t (s @ rel))"
    and other: "\<And>q. \<not> prefix d q \<Longrightarrow> \<not> prefix q d \<Longrightarrow> node_at u q = node_at t0 q"
  shows "wf_tree u"
proof -
  have "plain (last p) \<and> dir_at u (butlast p)" if p: "p \<noteq> []" "node_at u p \<noteq> None" for p
  proof -
    consider "prefix p d" | rel where "rel \<noteq> []" "p = d @ rel" | "\<not> prefix d p" "\<not> prefix p d"
      by (metis append_Nil2 prefixE prefix_order.order_refl)
    then show ?thesis
    proof cases
      case 1
      then have "last p \<in> set d" using p(1) set_mono_prefix last_in_set by blast
      moreover have "prefix (butlast p) d" using 1 prefixeq_butlast prefix_order.order_trans by blast
      ultimately show ?thesis using plain dirs by (auto simp: list_all_iff)
    next
      case 2
      then obtain nd where nd: "node_at t (s @ rel) = Some nd" using p(2) below by auto
      from wf_treeD [OF source nd] 2 have "plain (last rel)" and d: "dir_at t (s @ butlast rel)"
        by (simp_all add: butlast_append)
      moreover have "dir_at u (d @ butlast rel)"
      proof (cases "butlast rel = []")
        case True
        then show ?thesis using dirs by simp
      next
        case False
        with below [OF this] d show ?thesis by (auto simp: dir_at_def)
      qed
      ultimately show ?thesis using 2 by (simp add: butlast_append)
    next
      case 3
      then obtain nd where "node_at t0 p = Some nd" using p(2) other by auto
      from wf_treeD [OF target this p(1)] have l: "plain (last p)" "dir_at t0 (butlast p)" by auto
      have "dir_at u (butlast p)"
      proof (cases "prefix (butlast p) d")
        case False
        moreover have "\<not> prefix d (butlast p)" using 3(1) prefixeq_butlast prefix_order.order_trans by blast
        ultimately show ?thesis using l(2) other by (simp add: dir_at_def)
      qed (rule dirs)
      with l show ?thesis by simp
    qed
  qed
  then show ?thesis unfolding wf_tree_def node_at_def by auto
qed

definition layer_home :: "path \<Rightarrow> int \<Rightarrow> path" where
  "layer_home d n = d @ [''l'' @ itoa n]"

lemma layer_home_prefix [simp]:
  "prefix (layer_home d m) (layer_home d n @ rel) \<longleftrightarrow> m = n"
  by (auto simp: layer_home_def itoa_inject)

text \<open>A layer as it is kept on another machine.\<close>

definition copy_of :: "agent \<Rightarrow> tree \<Rightarrow> path \<Rightarrow> tree \<Rightarrow> path \<Rightarrow> bool" where
  "copy_of a t s u h \<longleftrightarrow> dir_at u h \<and>
     (\<forall>rel. rel \<noteq> [] \<longrightarrow> node_at u (h @ rel) = map_option (arrived (a_umask a) (a_clock a)) (node_at t (s @ rel)))"

lemma receive_layer_quiet:
  assumes place: "data_place lm d a" and level: "a_level a = 0"
    and free: "\<And>q. prefix (layer_home d n) q \<Longrightarrow> node_at (a_tree a) q = None"
    and source: "archivable t s" "dir_at t s" "tar_dir s t = Inr es"
  shows "\<exists>u. receive_checkpoint lm n (Archive es None) a = (Inr (), a\<lparr>a_tree := u\<rparr>) \<and>
    data_place lm d (a\<lparr>a_tree := u\<rparr>) \<and> copy_of a t s u (layer_home d n) \<and>
    (\<forall>q. \<not> prefix (layer_home d n) q \<and> \<not> prefix q d \<longrightarrow> node_at u q = node_at (a_tree a) q)"
proof -
  let ?h = "layer_home d n"
  have dir: "lm_dir lm ''l'' n = render True ?h" "plain (''l'' @ itoa n)"
    using lm_dir_render [OF place, of "''l''" n] by (auto simp: layer_home_def)
  have pl: "list_all plain ?h" using place dir(2) by (simp add: data_place_def layer_home_def)
  have way: "node_at (a_tree a) q = None \<or> dir_at (a_tree a) q" if "prefix q ?h" for q
    using that place free [of ?h] by (auto simp: data_place_def layer_home_def)
  have room: "room_for ?h (a_tree a)"
    using place pl way free by (auto simp: room_for_def data_place_def strict_prefix_def)
  have q: "a_script a = []" using place by (simp add: data_place_def)
  from extract_tar_dir [OF source q room] obtain u where
    u: "extract_tar_gz (Archive es None) (render True ?h) a = (Inr (), a\<lparr>a_tree := u\<rparr>)"
    and dirs: "\<And>q. prefix q ?h \<Longrightarrow> dir_at u q"
    and below: "\<And>rel. rel \<noteq> [] \<Longrightarrow>
        node_at u (?h @ rel) = map_option (arrived (a_umask a) (a_clock a)) (node_at t (s @ rel))"
    and other: "\<And>q. \<not> prefix ?h q \<Longrightarrow> \<not> prefix q ?h \<Longrightarrow> node_at u q = node_at (a_tree a) q"
    by blast
  have "wf_tree u"
    by (rule arrival_wf [OF _ _ pl dirs below other])
       (use source(1) place in \<open>simp_all add: archivable_def data_place_def\<close>)
  moreover have "dir_at u q" if "prefix q d" for q using that dirs by (simp add: layer_home_def)
  ultimately have "data_place lm d (a\<lparr>a_tree := u\<rparr>)" using place by (auto simp: data_place_def)
  moreover have "receive_checkpoint lm n (Archive es None) a = (Inr (), a\<lparr>a_tree := u\<rparr>)"
    using u level by (simp add: receive_checkpoint_def dir andthen_def wrapping_def get_level_def)
  moreover have "node_at u q = node_at (a_tree a) q" if "\<not> prefix ?h q" "\<not> prefix q d" for q
    using that other [of q] by (auto simp: layer_home_def)
  moreover have "copy_of a t s u ?h" using dirs below by (simp add: copy_of_def)
  ultimately show ?thesis by blast
qed

section \<open>Receiving a stream of layers\<close>

text \<open>Frames of layers, each with its archive as a payload that is used up.\<close>

definition layer_frame :: "(int \<Rightarrow> byte list) \<Rightarrow> int \<Rightarrow> frame_header \<times> byte list" where
  "layer_frame payload_of n = (layer_header n, payload_of n)"

lemma layer_header_ok:
  assumes "0 < n" and "n < 2 ^ 32"
  shows "header_ok (layer_header n)"
proof -
  have n: "in_i64 n" using assms by (simp add: in_i64_def)
  have "last (''u'' @ itoa n) \<in> set (itoa n)"
    using itoa_inject [of n] atoi_itoa [OF n] by (cases "itoa n = []") (auto simp: atoi_def)
  moreover have "\<not> is_digit (CHR 0x00)" by (simp add: is_digit_def)
  ultimately have "last (''u'' @ itoa n) \<noteq> CHR 0x00" using set_itoa by fastforce
  then show ?thesis
    using assms length_itoa [OF assms(1) n]
    by (simp add: header_ok_def layer_header_def frame_name_size_def)
qed

lemma layer_frame_handled:
  assumes "0 < n" and "n < 2 ^ 32" and "unpack bs = (pl, [])" and "receive_checkpoint lm n pl a = (Inr (), b)"
  shows "header_ok (layer_header n) \<and> fh_kind (layer_header n) \<noteq> kind_done \<and>
         transfer_handler unpack lm dir (layer_header n) bs a = ((None, []), b)"
  using layer_header_ok [OF assms(1,2)] assms(3,4) by (simp add: transfer_handler_def layer_header_def)

text \<open>What a list of layers from source machines becomes.\<close>

lemma layers_received:
  assumes "data_place lm d a" and "a_level a = 0" and "distinct ns"
    and "\<And>n. n \<in> set ns \<Longrightarrow> 0 < n \<and> n < 2 ^ 32"
    and "\<And>n q. n \<in> set ns \<Longrightarrow> prefix (layer_home d n) q \<Longrightarrow> node_at (a_tree a) q = None"
    and "\<And>n. n \<in> set ns \<Longrightarrow> archivable (src n) (home n) \<and> dir_at (src n) (home n) \<and>
           tar_dir (home n) (src n) = Inr (es n) \<and> unpack (payload_of n) = (Archive (es n) None, [])"
  shows "\<exists>u. accepts (transfer_handler unpack lm dir) (map (layer_frame payload_of) ns) a (a\<lparr>a_tree := u\<rparr>) \<and>
    data_place lm d (a\<lparr>a_tree := u\<rparr>) \<and>
    (\<forall>n \<in> set ns. copy_of a (src n) (home n) u (layer_home d n)) \<and>
    (\<forall>q. (\<forall>n \<in> set ns. \<not> prefix (layer_home d n) q) \<and> \<not> prefix q d \<longrightarrow> node_at u q = node_at (a_tree a) q)"
  using assms
proof (induction ns arbitrary: a)
  case Nil
  then show ?case by (intro exI [of _ "a_tree a"]) simp
next
  case (Cons n ns)
  let ?h = "layer_home d n"
  have n: "0 < n" "n < 2 ^ 32" "archivable (src n) (home n)" "dir_at (src n) (home n)"
      "tar_dir (home n) (src n) = Inr (es n)" "unpack (payload_of n) = (Archive (es n) None, [])"
    using Cons.prems(4) [of n] Cons.prems(6) [of n] by auto
  have "\<And>q. prefix ?h q \<Longrightarrow> node_at (a_tree a) q = None" using Cons.prems(5) [of n] by simp
  from receive_layer_quiet [OF Cons.prems(1,2) this n(3-5)] obtain t1 where
    t1: "receive_checkpoint lm n (Archive (es n) None) a = (Inr (), a\<lparr>a_tree := t1\<rparr>)"
      "data_place lm d (a\<lparr>a_tree := t1\<rparr>)" "copy_of a (src n) (home n) t1 ?h"
    and other1: "\<And>q. \<not> prefix ?h q \<Longrightarrow> \<not> prefix q d \<Longrightarrow> node_at t1 q = node_at (a_tree a) q"
    by blast
  let ?b = "a\<lparr>a_tree := t1\<rparr>"
  have apart: "\<not> prefix ?h q" if "k \<in> set ns" "prefix (layer_home d k) q" for k q
  proof
    assume "prefix ?h q"
    with that(2) obtain rel where "q = layer_home d k @ rel" by (auto elim: prefixE)
    with \<open>prefix ?h q\<close> have "n = k" by simp
    with that(1) Cons.prems(3) show False by simp
  qed
  have deep: "\<not> prefix q d" if "prefix (layer_home d k) q" for k q
    using that by (auto simp: layer_home_def dest!: prefix_length_le)
  have "\<exists>u. accepts (transfer_handler unpack lm dir) (map (layer_frame payload_of) ns) ?b (?b\<lparr>a_tree := u\<rparr>) \<and>
    data_place lm d (?b\<lparr>a_tree := u\<rparr>) \<and>
    (\<forall>n \<in> set ns. copy_of ?b (src n) (home n) u (layer_home d n)) \<and>
    (\<forall>q. (\<forall>n \<in> set ns. \<not> prefix (layer_home d n) q) \<and> \<not> prefix q d \<longrightarrow> node_at u q = node_at (a_tree ?b) q)"
  proof (rule Cons.IH [OF t1(2)])
    show "node_at (a_tree ?b) q = None" if "k \<in> set ns" "prefix (layer_home d k) q" for k q
      using other1 [of q] apart [OF that] deep [OF that(2)] Cons.prems(5) [of k q] that by simp
  qed (use Cons.prems in auto)
  then obtain u where u: "accepts (transfer_handler unpack lm dir) (map (layer_frame payload_of) ns) ?b (a\<lparr>a_tree := u\<rparr>)"
      "data_place lm d (a\<lparr>a_tree := u\<rparr>)" "\<And>k. k \<in> set ns \<Longrightarrow> copy_of ?b (src k) (home k) u (layer_home d k)"
    and other: "\<And>q. (\<And>k. k \<in> set ns \<Longrightarrow> \<not> prefix (layer_home d k) q) \<Longrightarrow> \<not> prefix q d \<Longrightarrow> node_at u q = node_at t1 q"
    by auto
  have kept: "node_at u q = node_at t1 q" if "prefix ?h q" for q
    using that apart deep by (intro other) blast+
  have "copy_of a (src n) (home n) u ?h" using t1(3) kept by (simp add: copy_of_def dir_at_def)
  moreover have "copy_of a (src k) (home k) u (layer_home d k)" if "k \<in> set ns" for k
    using u(3) [OF that] by (simp add: copy_of_def)
  moreover have "node_at u q = node_at (a_tree a) q"
    if "\<forall>k \<in> set (n # ns). \<not> prefix (layer_home d k) q" "\<not> prefix q d" for q
    using that other [of q] other1 [of q] by auto
  moreover have "accepts (transfer_handler unpack lm dir) (map (layer_frame payload_of) (n # ns)) a (a\<lparr>a_tree := u\<rparr>)"
    using layer_frame_handled [where unpack = unpack and dir = dir, OF n(1,2,6) t1(1)] u(1) by (simp add: layer_frame_def)
  ultimately show ?case using u(2) by (intro exI [of _ u]) simp
qed

section \<open>The target as a whole\<close>

text \<open>Mounting a volume from the layers that were received, without interference.\<close>

lemma init_volume_quiet:
  assumes "data_place lm d a" and "canonical ''l'' d (a_tree a)" and "level_free d a (a_level a + 1)"
  shows "\<exists>t'. init_volume lm a = (Inr (), a\<lparr>a_tree := t', a_level := a_level a + 1, a_log := a_log a @
      [(mount_action lm (a_level a + 1) (lower_option lm (sorted_list_of_set (ordinals ''l'' d (a_tree a)))), True),
       (bind_action lm (a_level a + 1), True)]\<rparr>) \<and>
    (\<forall>q. (\<forall>p \<in> {''u'', ''w'', ''o''}. \<not> prefix q (d @ [p @ itoa (a_level a + 1)])) \<longrightarrow>
       node_at t' q = node_at (a_tree a) q)"
proof -
  let ?k = "a_level a + 1"
  obtain t' where mk: "mk_level_dirs lm ?k a = (Inr (), a\<lparr>a_tree := t'\<rparr>)"
    and same: "\<And>q. (\<forall>p \<in> {''u'', ''w'', ''o''}. \<not> prefix q (d @ [p @ itoa ?k])) \<Longrightarrow> node_at t' q = node_at (a_tree a) q"
    using mk_level_dirs_quiet [OF assms(1,3)] by blast
  have q: "a_script a = []" using assms(1) by (simp add: data_place_def)
  show ?thesis
    using mk same q numbered_quiet [OF assms(1,2)]
    by (intro exI [of _ t'])
       (simp add: init_volume_def andthen_def wrapping_def get_level_def set_level_def mount_level_def
         bind_level_def quiet_command Let_def mount_action_def bind_action_def)
qed

lemma copy_of_cong:
  "(\<And>q. prefix h q \<Longrightarrow> node_at v q = node_at u q) \<Longrightarrow> copy_of a t s u h \<Longrightarrow> copy_of a t s v h"
  by (simp add: copy_of_def dir_at_def)

text \<open>The directories of the received layers are what the manager finds afterwards.\<close>

lemma received_layers_found:
  assumes "distinct ns" and range: "\<And>n. n \<in> set ns \<Longrightarrow> 0 < n \<and> n < 2 ^ 32"
    and none: "\<And>s. (\<And>n. n \<in> set ns \<Longrightarrow> s \<noteq> itoa n) \<Longrightarrow> node_at u (d @ [''l'' @ s]) = None"
    and there: "\<And>n. n \<in> set ns \<Longrightarrow> dir_at u (layer_home d n)"
  shows "canonical ''l'' d u" and "sorted_list_of_set (ordinals ''l'' d u) = sort ns"
proof -
  have mine: "\<exists>n \<in> set ns. s = itoa n" if "dir_at u (d @ [''l'' @ s])" for s
  proof (rule ccontr)
    assume "\<not> ?thesis"
    then have "node_at u (d @ [''l'' @ s]) = None" by (intro none) blast
    with that show False by (simp add: dir_at_def)
  qed
  have i64: "in_i64 n" if "n \<in> set ns" for n using range [OF that] by (simp add: in_i64_def)
  have "n \<in> set ns" if "dir_at u (d @ [''l'' @ itoa n])" for n
    using mine [OF that] by (auto simp: itoa_inject)
  then have "ordinals ''l'' d u = set ns"
    using there range i64 by (auto simp: ordinals_def layer_home_def)
  then show "sorted_list_of_set (ordinals ''l'' d u) = sort ns"
    using sorted_list_of_set_sort_remdups [of ns] assms(1) by (simp add: distinct_remdups_id)
  show "canonical ''l'' d u"
    unfolding canonical_def
  proof (intro allI impI)
    fix name m
    assume "dir_at u (d @ [name])" and o: "ordinal_of ''l'' (name, True) = Some m"
    moreover obtain s where "name = ''l'' @ s" using o by (auto simp: ordinal_of_iff has_prefix_iff)
    ultimately show "name = ''l'' @ itoa m"
      using mine [of s] i64 o by (auto simp: ordinal_of_iff atoi_itoa)
  qed
qed

text \<open>The reception as a whole, and what it leaves on the disk.\<close>

lemma layers_transferred:
  assumes place: "data_place lm d a" and level: "a_level a = 0"
    and clear: "\<And>s. node_at (a_tree a) (d @ [''l'' @ s]) = None"
    and ns: "distinct ns" "\<And>n. n \<in> set ns \<Longrightarrow> 0 < n \<and> n < 2 ^ 32"
    and source: "\<And>n. n \<in> set ns \<Longrightarrow> archivable (src n) (home n) \<and> dir_at (src n) (home n) \<and>
           tar_dir (home n) (src n) = Inr (es n) \<and> unpack (payload_of n) = (Archive (es n) None, [])"
    and network: "network (env_int (a_env a) ''RECEIVE_TIMEOUT_SECONDS'' 600 * second) =
           map frame_conn (map (layer_frame payload_of) ns) @ frame_conn (done_header, []) # rest"
  shows "\<exists>u. receive_transfer unpack late network lm dir a = (Inr (map layer_header ns), a\<lparr>a_tree := u\<rparr>) \<and>
    data_place lm d (a\<lparr>a_tree := u\<rparr>) \<and> (\<forall>n \<in> set ns. copy_of a (src n) (home n) u (layer_home d n)) \<and>
    (\<forall>name. (\<forall>n \<in> set ns. name \<noteq> ''l'' @ itoa n) \<longrightarrow> node_at u (d @ [name]) = node_at (a_tree a) (d @ [name]))"
proof -
  have wf: "wf_tree (a_tree a)" using place by (simp add: data_place_def)
  have room: "node_at (a_tree a) q = None" if "prefix (layer_home d n) q" for n q
  proof (cases "node_at (a_tree a) q")
    case (Some nd)
    have none: "node_at (a_tree a) (layer_home d n) = None" using clear by (simp add: layer_home_def)
    with Some have "strict_prefix (layer_home d n) q" using that by (auto simp: strict_prefix_def)
    from wf_tree_prefix [OF wf Some this] none show ?thesis by (simp add: dir_at_def)
  qed
  have "\<exists>u. accepts (transfer_handler unpack lm dir) (map (layer_frame payload_of) ns) a (a\<lparr>a_tree := u\<rparr>) \<and>
    data_place lm d (a\<lparr>a_tree := u\<rparr>) \<and>
    (\<forall>n \<in> set ns. copy_of a (src n) (home n) u (layer_home d n)) \<and>
    (\<forall>q. (\<forall>n \<in> set ns. \<not> prefix (layer_home d n) q) \<and> \<not> prefix q d \<longrightarrow> node_at u q = node_at (a_tree a) q)"
    by (rule layers_received [OF place level ns(1)]) (use ns(2) room source in blast)+
  then obtain u where acc: "accepts (transfer_handler unpack lm dir) (map (layer_frame payload_of) ns) a (a\<lparr>a_tree := u\<rparr>)"
    and up: "data_place lm d (a\<lparr>a_tree := u\<rparr>)"
    and copies: "\<forall>n \<in> set ns. copy_of a (src n) (home n) u (layer_home d n)"
    and other: "\<And>q. (\<And>n. n \<in> set ns \<Longrightarrow> \<not> prefix (layer_home d n) q) \<Longrightarrow> \<not> prefix q d \<Longrightarrow>
        node_at u q = node_at (a_tree a) q"
    by blast
  have heads: "map fst (map (layer_frame payload_of) ns) = map layer_header ns" by (simp add: layer_frame_def)
  have "receive_transfer unpack late network lm dir a = (Inr (map layer_header ns), a\<lparr>a_tree := u\<rparr>)"
    using receive_all_frames [OF acc, of late "frame_conn (done_header, []) # rest"]
    unfolding heads by (simp add: receive_transfer_def network Let_def receive_all_stops)
  moreover have "node_at u (d @ [name]) = node_at (a_tree a) (d @ [name])"
    if "\<forall>n \<in> set ns. name \<noteq> ''l'' @ itoa n" for name
    using that by (intro other) (auto simp: layer_home_def dest: prefix_length_le)
  ultimately show ?thesis using up copies by blast
qed

text \<open>What the target ends with.\<close>

lemma volume_restored:
  assumes place: "data_place lm d a" and level: "a_level a = 0"
    and clear: "\<And>s. node_at (a_tree a) (d @ [''l'' @ s]) = None" and free: "level_free d a 1"
    and ns: "distinct ns" "ns \<noteq> []" "\<And>n. n \<in> set ns \<Longrightarrow> 0 < n \<and> n < 2 ^ 32"
    and source: "\<And>n. n \<in> set ns \<Longrightarrow> archivable (src n) (home n) \<and> dir_at (src n) (home n) \<and>
           tar_dir (home n) (src n) = Inr (es n) \<and> unpack (payload_of n) = (Archive (es n) None, [])"
    and network: "network (env_int (a_env a) ''RECEIVE_TIMEOUT_SECONDS'' 600 * second) =
           map frame_conn (map (layer_frame payload_of) ns) @ frame_conn (done_header, []) # rest"
  shows "\<exists>b. run_migration_target unpack late network lm dir False True a = (Inr (), b) \<and> a_level b = 1 \<and>
     a_log b = a_log a @
       [(mount_action lm 1 (join_with '':'' (map (lm_dir lm ''l'') (rev (sort ns)))), True),
        (bind_action lm 1, True)] \<and>
     (\<forall>n \<in> set ns. copy_of a (src n) (home n) (a_tree b) (layer_home d n))"
proof -
  from layers_transferred [where unpack = unpack and payload_of = payload_of and src = src and home = home and es = es
      and network = network and late = late and dir = dir, OF place level clear ns(1,3) source network]
  obtain u where recv: "receive_transfer unpack late network lm dir a = (Inr (map layer_header ns), a\<lparr>a_tree := u\<rparr>)"
    and up: "data_place lm d (a\<lparr>a_tree := u\<rparr>)"
    and copies: "\<forall>n \<in> set ns. copy_of a (src n) (home n) u (layer_home d n)"
    and here: "\<And>name. (\<And>n. n \<in> set ns \<Longrightarrow> name \<noteq> ''l'' @ itoa n) \<Longrightarrow>
        node_at u (d @ [name]) = node_at (a_tree a) (d @ [name])" by blast
  let ?u = "a\<lparr>a_tree := u\<rparr>"
  have none: "node_at u (d @ [''l'' @ s]) = None" if "\<And>n. n \<in> set ns \<Longrightarrow> s \<noteq> itoa n" for s
    using here [of "''l'' @ s"] clear [of s] that by auto
  have there: "dir_at u (layer_home d n)" if "n \<in> set ns" for n
    using copies that by (simp add: copy_of_def)
  note found = received_layers_found [OF ns(1) ns(3) none there]
  have fr: "level_free d ?u (a_level ?u + 1)"
    using free here by (auto simp: level_free_def level dir_at_def)
  from init_volume_quiet [OF up _ fr] found obtain t' where
    init: "init_volume lm ?u = (Inr (), a\<lparr>a_tree := t', a_level := 1, a_log := a_log a @
      [(mount_action lm 1 (lower_option lm (sort ns)), True), (bind_action lm 1, True)]\<rparr>)"
    and same: "\<And>q. (\<forall>p \<in> {''u'', ''w'', ''o''}. \<not> prefix q (d @ [p @ itoa 1])) \<Longrightarrow> node_at t' q = node_at u q"
    by (auto simp: level)
  have "node_at t' q = node_at u q" if q: "prefix (layer_home d n) q" for n q
  proof (rule same, intro ballI notI)
    fix p
    assume p: "p \<in> {''u'', ''w'', ''o''}" and "prefix q (d @ [p @ itoa 1])"
    with q have "prefix (layer_home d n) (d @ [p @ itoa 1])" using prefix_order.order_trans by blast
    with p show False by (auto simp: layer_home_def)
  qed
  then have "\<forall>n \<in> set ns. copy_of a (src n) (home n) t' (layer_home d n)"
    using copies copy_of_cong by blast
  moreover have "sort ns \<noteq> []" using ns(2) by (metis length_0_conv length_sort)
  ultimately show ?thesis
    using recv init
    by (simp add: run_migration_target_def when_on_def andthen_def wrapping_def lower_option_def rev_map)
qed

text \<open>
  C9: the volume of a source is restored on the target: given the frames of its layers and DONE,
  in any order of the layers, the target ends with every layer in the directory of its ordinal, as
  it was on the source, and mounts all of them below a fresh writable layer, the highest ordinal
  on top.
\<close>

theorem target_restores_volume:
  assumes place: "data_place lm d a" and level: "a_level a = 0"
    and clear: "\<And>s. node_at (a_tree a) (d @ [''l'' @ s]) = None" and free: "level_free d a 1"
    and ns: "distinct ns" "ns \<noteq> []" "\<And>n. n \<in> set ns \<Longrightarrow> 0 < n \<and> n < 2 ^ 32"
    and source: "\<And>n. n \<in> set ns \<Longrightarrow> archivable (src n) (home n) \<and> dir_at (src n) (home n) \<and>
           tar_dir (home n) (src n) = Inr (es n) \<and> unpack (payload_of n) = (Archive (es n) None, [])"
    and network: "network (env_int (a_env a) ''RECEIVE_TIMEOUT_SECONDS'' 600 * second) =
           map frame_conn (map (layer_frame payload_of) ns) @ frame_conn (done_header, []) # rest"
  shows "\<exists>b. run_migration_target unpack late network lm dir False True a = (Inr (), b) \<and> a_level b = 1 \<and>
     a_log b = a_log a @
       [(mount_action lm 1 (join_with '':'' (map (lm_dir lm ''l'') (rev (sort ns)))), True),
        (bind_action lm 1, True)] \<and>
     (\<forall>n \<in> set ns. copy_of a (src n) (home n) (a_tree b) (layer_home d n))"
  by (rule volume_restored [where unpack = unpack and payload_of = payload_of and src = src and home = home and es = es
      and network = network and late = late and dir = dir, OF place level clear free ns source network])

end
