(* ===== verification/EndContainerSpec.thy ===== *)
theory EndContainerSpec
  imports AgentTrace
begin

text \<open>
  What the preStop hook as a whole lets out, in which order, and what the coordinator is told.
\<close>

section \<open>Requests\<close>

text \<open>The registry at the moment the first call of an operation is served.\<close>

definition registry_then :: "agent \<Rightarrow> registry" where
  "registry_then a = a_registry (snd (next_outcome a))"

lemma post_run:
  assumes "post url act handler a = (r, b)"
  shows "a_log b = a_log a @ [(act, \<not> isl r)] \<and>
         (\<forall>answer. r = Inr answer \<longrightarrow>
            (\<exists>code. 200 \<le> code \<and> code < 300 \<and>
              handler (snd (next_outcome a)) (registry_then a) = (Response code answer, a_registry b)))"
proof -
  obtain q c where c: "next_outcome a = (q, c)" by (cases "next_outcome a")
  show ?thesis
  proof (cases q)
    case None
    obtain code answer m where h: "handler c (a_registry c) = (Response code answer, m)"
      by (metis response.exhaust surj_pair)
    then show ?thesis
      using assms c None next_outcome_fields(1) [OF c]
      by (auto simp: post_def registry_then_def Let_def split: if_splits)
  next
    case (Some e)
    with assms c next_outcome_fields(1) [OF c] show ?thesis by (auto simp: post_def)
  qed
qed

text \<open>What \<open>/remove\<close> answers for a registered pod.\<close>

definition remove_answer :: "pod_record \<Rightarrow> remove_response" where
  "remove_answer rec =
     \<lparr>rr_needs_checkpoint = pr_migrating rec, rr_process_migration = pr_process_migration rec,
      rr_volume_migration = pr_volume_migration rec,
      rr_dest_address = (if pr_migrating rec then pr_dest_address rec else [])\<rparr>"

lemma handle_remove_ok:
  "handle_remove (Some pod) m = Response code answer \<Longrightarrow> 200 \<le> code \<Longrightarrow> code < 300 \<Longrightarrow>
   \<exists>rec. get_record pod m = Some rec \<and> answer = BRemove (remove_answer rec)"
  by (auto simp: handle_remove_def not_registered_def remove_answer_def split: option.splits)

lemma post_remove_run:
  assumes "post_remove coord pod a = (r, b)"
  shows "a_log b = a_log a @ [(PostRemove pod, \<not> isl r)] \<and>
         (\<forall>resp. r = Inr resp \<longrightarrow>
            (\<exists>rec. get_record pod (registry_then a) = Some rec \<and> resp = remove_answer rec))"
proof -
  let ?p = "post (''http://'' @ coord @ ''/remove'') (PostRemove pod) (\<lambda>b m. (handle_remove (Some pod) m, m))"
  obtain q c where c: "?p a = (q, c)" by (cases "?p a")
  note run = post_run [OF c]
  show ?thesis
  proof (cases q)
    case (Inl e)
    with assms c run show ?thesis by (auto simp: post_remove_def andthen_def wrapping_def)
  next
    case (Inr answer)
    with run obtain rec where h: "get_record pod (registry_then a) = Some rec"
        "answer = BRemove (remove_answer rec)"
      by (auto dest: handle_remove_ok)
    with assms c Inr have "r = Inr (remove_answer rec)" and "b = c"
      by (auto simp: post_remove_def andthen_def wrapping_def)
    with run h Inr show ?thesis by simp
  qed
qed

lemma post_copy_run:
  assumes "post_copy coord pod dir n a = (r, b)"
  shows "a_log b = a_log a @ [(PostCopy pod dir n, \<not> isl r)] \<and>
         (r = Inr () \<longrightarrow> mark_checkpoint_ready pod dir (registry_then a) = (True, a_registry b))"
proof -
  let ?p = "post (''http://'' @ coord @ ''/copy'') (PostCopy pod dir n)
      (\<lambda>b m. handle_copy (Some (pod, dir)) m)"
  obtain q c where c: "?p a = (q, c)" by (cases "?p a")
  note run = post_run [OF c]
  show ?thesis
  proof (cases q)
    case (Inl e)
    with assms c run show ?thesis by (auto simp: post_copy_def andthen_def wrapping_def)
  next
    case (Inr answer)
    with run assms c show ?thesis
      by (auto simp: post_copy_def andthen_def wrapping_def handle_copy_def not_registered_def
          split: prod.splits bool.splits)
  qed
qed

lemma send_done_run:
  assumes "send_done dest a = (r, b)"
  shows "(a_log b = a_log a \<and> isl r) \<or> a_log b = a_log a @ [(SendFrame dest done_header [], \<not> isl r)]"
proof -
  have hdr: "write_frame_header done_header = Inr (header_bytes done_header)"
    by (simp add: write_frame_header_def done_header_def)
  obtain q c where c: "dial dest a = (q, c)" by (cases "dial dest a")
  from emits_dial c have log: "a_log c = a_log a" by (rule emits_nothing)
  show ?thesis
  proof (cases q)
    case (Inl e)
    with assms c log show ?thesis by (auto simp: send_done_def andthen_def)
  next
    case (Inr u)
    have "send_done dest a = send_frame dest done_header (ret []) c"
      unfolding send_done_def done_header_def [symmetric] using c Inr by (simp add: andthen_def)
    then have "perform (SendFrame dest done_header []) c = (r, b)"
      using assms by (simp add: send_frame_def hdr del: ret_run)
    from perform_run [OF this] obtain ok
      where "a_log b = a_log c @ [(SendFrame dest done_header [], ok)]" and "ok \<longleftrightarrow> r = Inr ()" by auto
    then show ?thesis using log by (cases r) auto
  qed
qed

section \<open>The sequence\<close>

text \<open>DONE, if there is a destination.\<close>

definition done_frame :: "string \<Rightarrow> (action \<times> bool) list" where
  "done_frame dest = (if dest = [] then [] else [(SendFrame dest done_header [], True)])"

text \<open>
  A run after the answer to \<open>/remove\<close>: complete, with the checkpoints, DONE and the report in this
  order, or broken off at the first failure, without a successful report.
\<close>

definition complete_run :: "remove_response \<Rightarrow> string \<Rightarrow> string \<Rightarrow> (action \<times> bool) list \<Rightarrow> bool" where
  "complete_run resp pod dir l \<longleftrightarrow>
     (\<exists>mid n. l = mid @ done_frame (rr_dest_address resp) @ [(PostCopy pod dir n, True)] \<and>
        (\<forall>(act, ok) \<in> set mid. ok \<and> source_action resp act))"

definition broken_run :: "remove_response \<Rightarrow> string \<Rightarrow> string \<Rightarrow> (action \<times> bool) list \<Rightarrow> bool" where
  "broken_run resp pod dir l \<longleftrightarrow>
     list_all snd (butlast l) \<and>
     (\<forall>(act, ok) \<in> set l. source_action resp act \<or>
        (rr_dest_address resp \<noteq> [] \<and> act = SendFrame (rr_dest_address resp) done_header []) \<or>
        (\<exists>n. act = PostCopy pod dir n \<and> \<not> ok))"

lemma well_ended_False: "well_ended P False l \<longleftrightarrow> (\<forall>(act, ok) \<in> set l. ok \<and> P act)"
  by (auto simp: well_ended_def list_all_iff)

lemma list_all_butlast: "list_all P xs \<Longrightarrow> list_all P (butlast xs)"
  by (auto simp: list_all_iff dest: in_set_butlastD)

lemma broken_run_end:
  assumes l: "well_ended (source_action resp) False l"
    and ds: "ds = [] \<or> rr_dest_address resp \<noteq> [] \<and> ds = [(SendFrame (rr_dest_address resp) done_header [], True)]"
    and k: "k = [] \<or> rr_dest_address resp \<noteq> [] \<and> k = [(SendFrame (rr_dest_address resp) done_header [], False)] \<or>
            k = [(PostCopy pod dir n, False)]"
  shows "broken_run resp pod dir (l @ ds @ k)"
proof -
  have "list_all snd (l @ ds)" using l ds by (auto simp: well_ended_def)
  then have "list_all snd (butlast ((l @ ds) @ k))"
    using k by (elim disjE) (simp_all add: list_all_butlast butlast_append)
  moreover have "\<forall>(act, ok) \<in> set (l @ ds @ k). source_action resp act \<or>
        (rr_dest_address resp \<noteq> [] \<and> act = SendFrame (rr_dest_address resp) done_header []) \<or>
        (\<exists>n. act = PostCopy pod dir n \<and> \<not> ok)"
    using l ds k unfolding well_ended_False set_append ball_Un by (elim disjE) (simp_all, blast+)
  ultimately show ?thesis by (simp add: broken_run_def)
qed

lemma migrate_out_run:
  assumes "migrate_out coord pod dir resp a = (r, b)"
  shows "\<exists>l. a_log b = a_log a @ l \<and>
           (if isl r then broken_run resp pod dir l else complete_run resp pod dir l)"
proof -
  let ?dest = "rr_dest_address resp"
  let ?root = "env_or (a_env a) ''VOLUME_ROOT_DIR'' []"
  let ?vol = "rr_volume_migration resp \<and> ?root \<noteq> []"
  let ?lm = "new_layer_manager (env_or (a_env a) ''DATA_DIR'' ''/data'') ?root"
  let ?t = "transfer_out ?lm (rr_process_migration resp) ?vol dir ?dest"
  let ?d = "when_on (?dest \<noteq> []) () (wrapping ''send done frame'' (send_done ?dest))"
  have run: "andthen ?t (\<lambda>n. andthen ?d (\<lambda>_. post_copy coord pod dir n)) a = (r, b)"
    using assms by (simp add: migrate_out_def Let_def)
  obtain q c where c: "?t a = (q, c)" by (cases "?t a")
  have "emits (source_action resp) ?t" by (rule emits_transfer_out) simp
  from this c obtain l where l: "a_log c = a_log a @ l" "well_ended (source_action resp) (isl q) l"
    by (rule emitsD)
  show ?thesis
  proof (cases q)
    case (Inl e)
    with run c have "b = c" and "isl r" by (auto simp: andthen_def)
    with l Inl show ?thesis
      by (auto simp: broken_run_def well_ended_def list_all_iff intro!: exI [of _ l])
  next
    case (Inr n)
    obtain q' d where d: "?d c = (q', d)" by (cases "?d c")
    have sent: "\<exists>k. a_log d = a_log c @ k \<and>
        (if isl q' then k = [] \<or> ?dest \<noteq> [] \<and> k = [(SendFrame ?dest done_header [], False)] else k = done_frame ?dest)"
    proof (cases "?dest = []")
      case True
      with d show ?thesis by (auto simp: when_on_def done_frame_def)
    next
      case False
      obtain q0 where "send_done ?dest c = (q0, d)" and "isl q0 = isl q'"
        using d False isl_wrapping [of "''send done frame''" "send_done ?dest" c]
          snd_wrapping [of "''send done frame''" "send_done ?dest" c]
        by (cases "send_done ?dest c") (simp add: when_on_def)
      with send_done_run [of ?dest c q0 d] False show ?thesis by (auto simp: done_frame_def)
    qed
    from sent obtain k where k: "a_log d = a_log c @ k"
        "if isl q' then k = [] \<or> ?dest \<noteq> [] \<and> k = [(SendFrame ?dest done_header [], False)] else k = done_frame ?dest"
      by blast
    have le: "well_ended (source_action resp) False l" using l(2) Inr by simp
    show ?thesis
    proof (cases q')
      case (Inl e)
      with run c d \<open>q = Inr n\<close> have "b = d" and "isl r" by (auto simp: andthen_def)
      with broken_run_end [OF le, of "[]" k] k l(1) Inl show ?thesis by auto
    next
      case (Inr u)
      with run c d \<open>q = Inr n\<close> have "post_copy coord pod dir n d = (r, b)" by (simp add: andthen_def)
      from post_copy_run [OF this] have p: "a_log b = a_log d @ [(PostCopy pod dir n, \<not> isl r)]" by simp
      have kd: "k = done_frame ?dest" using k(2) Inr by simp
      show ?thesis
      proof (cases "isl r")
        case True
        have "broken_run resp pod dir (l @ k @ [(PostCopy pod dir n, False)])"
          by (rule broken_run_end [OF le]) (auto simp: kd done_frame_def)
        with True p k(1) l(1) show ?thesis by auto
      next
        case False
        have "complete_run resp pod dir (l @ k @ [(PostCopy pod dir n, True)])"
          using le unfolding complete_run_def well_ended_False kd by blast
        with False p k(1) l(1) show ?thesis by auto
      qed
    qed
  qed
qed

lemma end_container_run:
  assumes "end_container coord pod dir a = (r, b)"
    and "get_record pod (registry_then a) = Some rec"
  shows "\<exists>l. a_log b = a_log a @ l \<and>
     (l = [(PostRemove pod, \<not> isl r)] \<and> (isl r \<or> \<not> pr_migrating rec) \<or>
      (\<exists>k. l = (PostRemove pod, True) # k \<and> pr_migrating rec \<and>
        (if isl r then broken_run (remove_answer rec) pod dir k
         else complete_run (remove_answer rec) pod dir k)))"
proof -
  obtain q c where c: "post_remove coord pod a = (q, c)" by (cases "post_remove coord pod a")
  note rem = post_remove_run [OF c]
  show ?thesis
  proof (cases q)
    case (Inl e)
    with assms(1) c rem show ?thesis by (auto simp: end_container_def andthen_def)
  next
    case (Inr resp)
    with rem assms(2) have resp: "resp = remove_answer rec" by auto
    have need: "rr_needs_checkpoint resp = pr_migrating rec" by (simp add: resp remove_answer_def)
    show ?thesis
    proof (cases "pr_migrating rec")
      case False
      with assms(1) c Inr need have "r = Inr ()" and "b = c" by (auto simp: end_container_def andthen_def)
      with rem Inr False show ?thesis by simp
    next
      case True
      with assms(1) c Inr need have "migrate_out coord pod dir resp c = (r, b)"
        by (simp add: end_container_def andthen_def)
      from migrate_out_run [OF this] obtain l where l: "a_log b = a_log c @ l"
          "if isl r then broken_run resp pod dir l else complete_run resp pod dir l"
        by auto
      have "a_log b = a_log a @ (PostRemove pod, True) # l" using rem l(1) Inr by simp
      with l(2) True show ?thesis unfolding resp by blast
    qed
  qed
qed

lemma no_report_in_broken_run: "broken_run resp pod dir l \<Longrightarrow> (PostCopy p d n, True) \<notin> set l"
  by (auto simp: broken_run_def source_action_def)

text \<open>
  C3: the preStop hook tells the coordinator last. When it succeeds, \<open>/remove\<close> was followed by
  nothing if no migration is armed, and otherwise by the checkpoints, DONE if there is a destination,
  and the report, all of them successful. When it fails, nothing followed the failure and the
  coordinator took no report.
\<close>

theorem source_reports_last:
  assumes "end_container coord pod dir a = (r, b)"
    and "get_record pod (registry_then a) = Some rec"
  shows "\<exists>l. a_log b = a_log a @ l \<and>
     (if isl r
      then list_all snd (butlast l) \<and> (\<forall>p d n. (PostCopy p d n, True) \<notin> set l)
      else \<exists>k. l = (PostRemove pod, True) # k \<and>
        (if pr_migrating rec then complete_run (remove_answer rec) pod dir k else k = []))"
proof -
  from end_container_run [OF assms] obtain l where log: "a_log b = a_log a @ l"
    and l: "l = [(PostRemove pod, \<not> isl r)] \<and> (isl r \<or> \<not> pr_migrating rec) \<or>
      (\<exists>k. l = (PostRemove pod, True) # k \<and> pr_migrating rec \<and>
        (if isl r then broken_run (remove_answer rec) pod dir k
         else complete_run (remove_answer rec) pod dir k))"
    by blast
  show ?thesis
  proof (rule exI [of _ l], rule conjI [OF log])
    show "if isl r
      then list_all snd (butlast l) \<and> (\<forall>p d n. (PostCopy p d n, True) \<notin> set l)
      else \<exists>k. l = (PostRemove pod, True) # k \<and>
        (if pr_migrating rec then complete_run (remove_answer rec) pod dir k else k = [])"
      using l no_report_in_broken_run by (auto simp: broken_run_def)
  qed
qed

text \<open>What the hook of a pod may do, given the pod's record when \<open>/remove\<close> was answered.\<close>

fun asked_for :: "pod_record \<Rightarrow> string \<Rightarrow> string \<Rightarrow> action \<Rightarrow> bool" where
  "asked_for rec pod dir (RunProgram argv) =
     (pr_migrating rec \<and> argv \<noteq> [] \<and>
      (hd argv \<in> {''mount'', ''umount''} \<and> pr_volume_migration rec \<or>
       hd argv = ''dmtcp_command'' \<and> pr_process_migration rec))"
| "asked_for rec pod dir (SendFrame d h es) =
     (pr_migrating rec \<and> d = pr_dest_address rec \<and> d \<noteq> [] \<and>
      (fh_kind h = kind_layer \<and> pr_volume_migration rec \<or>
       fh_kind h = kind_checkpoint_file \<and> pr_process_migration rec \<or> h = done_header))"
| "asked_for rec pod dir (PostRemove p) = (p = pod)"
| "asked_for rec pod dir (PostCopy p d n) = (pr_migrating rec \<and> p = pod \<and> d = dir)"
| "asked_for rec pod dir _ = False"

lemma asked_source:
  "pr_migrating rec \<Longrightarrow> source_action (remove_answer rec) act \<Longrightarrow> asked_for rec pod dir act"
  by (cases act) (auto simp: source_action_def remove_answer_def)

lemma asked_runs:
  assumes "pr_migrating rec"
    and "broken_run (remove_answer rec) pod dir k \<or> complete_run (remove_answer rec) pod dir k"
  shows "\<forall>(act, ok) \<in> set k. asked_for rec pod dir act"
proof -
  have dest: "rr_dest_address (remove_answer rec) = pr_dest_address rec"
    using assms(1) by (simp add: remove_answer_def)
  from assms(2) have "\<forall>(act, ok) \<in> set k. source_action (remove_answer rec) act \<or>
      (pr_dest_address rec \<noteq> [] \<and> act = SendFrame (pr_dest_address rec) done_header []) \<or>
      (\<exists>n. act = PostCopy pod dir n)"
    by (auto simp: broken_run_def complete_run_def done_frame_def dest split: if_splits)
  with asked_source [OF assms(1)] assms(1) show ?thesis by fastforce
qed

text \<open>
  C10: whatever becomes of it, the preStop hook does only what the coordinator's answer asked for:
  programs run and frames leave only when a migration is armed, those of a mechanism only when the
  migration has that mechanism, and frames go to the destination that was answered, so none leaves
  when there is none.
\<close>

theorem only_what_was_asked:
  assumes "end_container coord pod dir a = (r, b)"
    and "get_record pod (registry_then a) = Some rec"
  shows "\<exists>l. a_log b = a_log a @ l \<and> (\<forall>(act, ok) \<in> set l. asked_for rec pod dir act)"
proof -
  from end_container_run [OF assms] obtain l where log: "a_log b = a_log a @ l"
    and "l = [(PostRemove pod, \<not> isl r)] \<or>
      (\<exists>k. l = (PostRemove pod, True) # k \<and> pr_migrating rec \<and>
        (broken_run (remove_answer rec) pod dir k \<or> complete_run (remove_answer rec) pod dir k))"
    by (metis (full_types))
  then have "\<forall>(act, ok) \<in> set l. asked_for rec pod dir act" using asked_runs by fastforce
  with log show ?thesis by blast
qed

end
