(* ===== verification/AgentMainSpec.thy ===== *)
theory AgentMainSpec
  imports AgentMain EndContainerSpec
begin

text \<open>
  The start of an agent: the endpoint that a migration target announces, and what it runs before
  the restored application takes over.
\<close>

section \<open>Registering\<close>

lemma listen_run:
  assumes "listen_transfer port a = (r, b)"
  shows "a_log b = a_log a @ [(Listen port, \<not> isl r)]"
proof -
  obtain q c where c: "perform (Listen port) a = (q, c)" by (cases "perform (Listen port) a")
  with assms have "b = c" and "isl r = isl q"
    by (cases q; auto simp: listen_transfer_def wrapping_def)+
  with perform_run [OF c] show ?thesis by (cases q) auto
qed

lemma handle_register_ok:
  "handle_register now mid (Some msg) m = (Response code answer, m') \<Longrightarrow> 200 \<le> code \<Longrightarrow> code < 300 \<Longrightarrow>
   me_pod_name msg \<noteq> [] \<and> (\<exists>resp. answer = BMessage resp)"
  by (auto simp: handle_register_def Let_def split: if_splits prod.splits)

lemma post_register_run:
  assumes "post_register mid coord msg a = (r, b)"
  shows "a_log b = a_log a @ [(PostRegister msg, \<not> isl r)] \<and>
    (\<forall>resp. r = Inr resp \<longrightarrow> me_pod_name msg \<noteq> [] \<and>
       (\<exists>code. handle_register (a_clock (snd (next_outcome a))) mid (Some msg) (registry_then a) =
          (Response code (BMessage resp) :: nat response, a_registry b)))"
proof -
  let ?p = "post (coord @ ''/register'') (PostRegister msg)
      (\<lambda>b m. handle_register (a_clock b) mid (Some msg) m)"
  obtain q c where c: "?p a = (q, c)" by (cases "?p a")
  note run = post_run [OF c]
  show ?thesis
  proof (cases q)
    case (Inl e)
    with assms c run show ?thesis by (auto simp: post_register_def andthen_def wrapping_def)
  next
    case (Inr answer)
    with run obtain code where h: "200 \<le> code" "code < 300"
        "handle_register (a_clock (snd (next_outcome a))) mid (Some msg) (registry_then a) =
          (Response code answer, a_registry c)"
      by auto
    from handle_register_ok [OF h(3,1,2)] obtain resp where resp: "me_pod_name msg \<noteq> []" "answer = BMessage resp"
      by auto
    with assms c Inr have "r = Inr resp" and "b = c"
      by (auto simp: post_register_def andthen_def wrapping_def)
    with run h(3) resp Inr show ?thesis by auto
  qed
qed

text \<open>
  C14: an agent that registers for a pod whose migration is armed is told to receive it, and on the
  registry right after that the coordinator answers the source an address that splits into the
  agent's own host and the very port that it listens on.
\<close>

theorem target_endpoint_is_answered:
  assumes "listen_transfer (transfer_port env) a = (Inr (), c)"
    and "post_register id coord (register_message env proc vol) c = (Inr resp, b)"
    and "get_record (env ''POD_NAME'') (registry_then c) = Some rec" and "pr_migrating rec"
    and "no_bracket (env ''POD_IP'')" and "env ''POD_IP'' \<noteq> []"
  shows "me_is_mig resp \<and> a_log b = a_log a @ [(Listen (transfer_port env), True),
       (PostRegister (register_message env proc vol), True)] \<and>
     (\<exists>answer. handle_remove (Some (env ''POD_NAME'')) (a_registry b) = (Response 200 (BRemove answer) :: nat response) \<and>
        rr_needs_checkpoint answer \<and>
        split_host_port (rr_dest_address answer) = Some (env ''POD_IP'', itoa (transfer_port env)))"
proof -
  let ?msg = "register_message env proc vol" and ?pod = "env ''POD_NAME''"
  let ?addr = "net_join_host_port (env ''POD_IP'') (itoa (transfer_port env))"
  have msg: "me_pod_name ?msg = ?pod" "me_pod_address ?msg = ?addr"
    by (simp_all add: register_message_def)
  from post_register_run [OF assms(2)] obtain code where
    log: "a_log b = a_log c @ [(PostRegister ?msg, True)]" and pod: "?pod \<noteq> []"
    and h: "handle_register (a_clock (snd (next_outcome c))) id (Some ?msg) (registry_then c) =
        (Response code (BMessage resp) :: nat response, a_registry b)"
    by (auto simp: msg)
  have known: "fmlookup (registry_then c) ?pod = Some rec" using assms(3) by (simp add: get_record_def)
  have p: "no_bracket (itoa (transfer_port env))" "CHR '':'' \<notin> set (itoa (transfer_port env))"
    by (simp_all add: no_bracket_def)
  have split: "split_host_port ?addr = Some (env ''POD_IP'', itoa (transfer_port env))"
    using split_host_port_plain [OF assms(5) _ p] split_host_port_bracketed [OF assms(5) p]
    by (simp add: net_join_host_port_def)
  let ?rec = "register_update (a_clock (snd (next_outcome c))) ?addr (me_container_port ?msg) rec"
  have reg: "a_registry b = fmupd ?pod ?rec (registry_then c)" and mig: "me_is_mig resp = pr_migrating ?rec"
    using h known pod by (auto simp: handle_register_def msg register_def get_or_zero_def get_record_def Let_def)
  then have after: "fmlookup (a_registry b) ?pod = Some ?rec" by simp
  have "pr_migrating ?rec" and "pr_dest_address ?rec = ?addr"
    using assms(4) join_host_port_keeps [OF split] by (auto simp: register_update_def Let_def)
  then show ?thesis
    using log listen_run [OF assms(1)] mig after split by (simp add: handle_remove_def get_record_def)
qed

section \<open>Receiving and restoring\<close>

text \<open>An archive lets nothing out, a received layer at most mounts.\<close>

lemma emits_extract_entry: "emits P (extract_entry dest e)"
  unfolding extract_entry_def make_parent_def
  by (auto split: sum.split typeflag.split option.split
      intro!: emits_andthen emits_wrapping emits_os emits_throw emits_ret emits_attempt_nothing)

lemma emits_extract [emitting]: "emits P (extract_tar_gz pl dest)"
  unfolding extract_tar_gz_def
  by (auto split: payload.split option.split intro!: emits_andthen emits_wrapping emits_os emits_throw
      emits_ret emits_for_each emits_extract_entry)

lemma emits_receive_checkpoint [emitting]: "emits (volume_action dest) (receive_checkpoint lm n pl)"
  unfolding receive_checkpoint_def by (auto intro!: emitting)

lemma well_ended_failed: "well_ended P False l \<Longrightarrow> well_ended P failed l"
  by (auto simp: well_ended_def list_all_iff dest: in_set_butlastD)

lemma handler_log:
  assumes "transfer_handler unpack lm dir h bs a = ((err, rest), b)"
  shows "\<exists>l. a_log b = a_log a @ l \<and> well_ended (volume_action []) (err \<noteq> None) l"
proof (cases "fh_kind h = kind_layer \<or> fh_kind h = kind_checkpoint_file")
  case False
  with assms show ?thesis by (auto simp: transfer_handler_def intro: exI [of _ "[]"])
next
  case True
  obtain pl left where u: "unpack bs = (pl, left)" by (cases "unpack bs")
  define m where "m = (if fh_kind h = kind_layer then receive_checkpoint lm (fh_ordinal h) pl
      else extract_tar_gz pl dir)"
  have m: "emits (volume_action []) m"
    unfolding m_def by (rule emits_if) (rule emits_receive_checkpoint, rule emits_extract)
  obtain q c where c: "m a = (q, c)" by (cases "m a")
  from m c obtain l where l: "a_log c = a_log a @ l" "well_ended (volume_action []) (isl q) l"
    by (rule emitsD)
  have "transfer_handler unpack lm dir h bs a =
      (case m a of (Inl e, b) \<Rightarrow> ((Some e, left), b) | (Inr _, b) \<Rightarrow> ((None, left), b))"
    using True by (simp only: transfer_handler_def u m_def if_True prod.case)
  then have "((err, rest), b) =
      (case q of Inl e \<Rightarrow> ((Some e, left), c) | Inr _ \<Rightarrow> ((None, left), c))"
    by (simp only: assms c prod.case)
  then have "b = c" and "isl q = (err \<noteq> None)" by (cases q, simp_all)+
  with l show ?thesis by (intro exI [of _ l] conjI) simp_all
qed

lemma receive_frame_log:
  assumes "receive_frame (transfer_handler unpack lm dir) c a = ((h, err), c', b)"
  shows "\<exists>l. a_log b = a_log a @ l \<and> well_ended (volume_action []) (err \<noteq> None) l"
proof (cases "read_frame_header (cn_in c)")
  case (Pair r rest)
  show ?thesis
  proof (cases r)
    case (Inl e)
    with assms Pair show ?thesis by (auto simp: receive_frame_def intro: exI [of _ "[]"])
  next
    case (Inr h')
    let ?res = "if fh_kind h' \<noteq> kind_done then transfer_handler unpack lm dir h' rest a else ((None, rest), a)"
    obtain er rest' w where res: "?res = ((er, rest'), w)" by (metis prod.exhaust_sel)
    have "receive_frame (transfer_handler unpack lm dir) c a =
      (case er of
         Some e \<Rightarrow> ((h', Some (wrap_err (''handle frame '' @ quote (fh_name h')) e)), c\<lparr>cn_in := rest'\<rparr>, w)
       | None \<Rightarrow> (case conn_write [ack_byte] (c\<lparr>cn_in := rest'\<rparr>) of
            (Some e, c2) \<Rightarrow> ((h', Some (wrap_err ''write ack'' e)), c2, w)
          | (None, c2) \<Rightarrow> ((h', None), c2, w)))"
      by (simp add: receive_frame_def Pair Inr res Let_def)
    with assms have b: "b = w \<and> (er \<noteq> None \<longrightarrow> err \<noteq> None)"
      by (cases er; cases "conn_write [ack_byte] (c\<lparr>cn_in := rest'\<rparr>)") (auto split: option.splits)
    have "\<exists>l. a_log w = a_log a @ l \<and> well_ended (volume_action []) (er \<noteq> None) l"
    proof (cases "fh_kind h' = kind_done")
      case True
      with res show ?thesis by (auto intro: exI [of _ "[]"])
    next
      case False
      with res handler_log show ?thesis by auto
    qed
    with b well_ended_failed show ?thesis by (cases "er = None") auto
  qed
qed

lemma receive_all_log:
  "receive_all (transfer_handler unpack lm dir) late as a = ((fs, err), cs, b) \<Longrightarrow>
   \<exists>l. a_log b = a_log a @ l \<and> well_ended (volume_action []) (err \<noteq> None) l"
proof (induction as arbitrary: a fs err cs b)
  case Nil
  then show ?case by (auto intro: exI [of _ "[]"])
next
  case (Cons x as)
  show ?case
  proof (cases x)
    case (Inl e)
    with Cons.prems show ?thesis by (auto intro: exI [of _ "[]"])
  next
    case (Inr c)
    obtain h er c' w where f: "receive_frame (transfer_handler unpack lm dir) c a = ((h, er), c', w)"
      by (metis prod.exhaust_sel)
    from receive_frame_log [OF this] obtain l
      where l: "a_log w = a_log a @ l" "well_ended (volume_action []) (er \<noteq> None) l" by blast
    show ?thesis
    proof (cases "er = None \<and> fh_kind h \<noteq> kind_done")
      case False
      with Cons.prems Inr f have "b = w" and "err = er" by (auto split: option.splits)
      with l show ?thesis by auto
    next
      case True
      obtain fs' er' cs' w' where rest: "receive_all (transfer_handler unpack lm dir) late as w = ((fs', er'), cs', w')"
        by (metis prod.exhaust_sel)
      from Cons.IH [OF this] obtain k
        where k: "a_log w' = a_log w @ k" "well_ended (volume_action []) (er' \<noteq> None) k" by blast
      from Cons.prems Inr f True rest have "b = w'" and "err = er'" by auto
      with l k True well_ended_append [of "volume_action []" l _ k] show ?thesis
        by (intro exI [of _ "l @ k"]) simp
    qed
  qed
qed

lemma emits_receive_transfer [emitting]:
  "emits (volume_action []) (receive_transfer unpack late network lm dir)"
  unfolding emits_def emits_from_def
proof
  fix a :: agent
  let ?t = "env_int (a_env a) ''RECEIVE_TIMEOUT_SECONDS'' 600 * second"
  obtain fs err cs b where r: "receive_all (transfer_handler unpack lm dir) late (network ?t) a = ((fs, err), cs, b)"
    by (metis prod.exhaust_sel)
  from receive_all_log [OF this] r show "\<exists>l. a_log (snd (receive_transfer unpack late network lm dir a)) = a_log a @ l \<and>
      well_ended (volume_action []) (isl (fst (receive_transfer unpack late network lm dir a))) l"
    by (cases err) (auto simp: receive_transfer_def Let_def)
qed

text \<open>The replacement of the process is the only thing \<open>ExecRestart\<close> lets out.\<close>

lemma exec_restart_run:
  assumes "exec_restart h a = (r, b)"
  shows "\<exists>l. a_log b = a_log a @ l \<and>
     (l = [] \<and> isl r \<or> (\<exists>argv. l = [(ExecProgram argv, \<not> isl r)] \<and> argv \<noteq> [] \<and> hd argv = ''dmtcp_restart''))"
proof -
  have none: "emits (\<lambda>_. False) (or_error_state (restart_command h))"
    unfolding restart_command_def by (auto intro!: emits_or_error emits_andthen emits_list emits_throw emits_ret)
  obtain q c where c: "or_error_state (restart_command h) a = (q, c)"
    by (cases "or_error_state (restart_command h) a")
  have log1: "a_log c = a_log a" by (rule emits_nothing [OF none c])
  show ?thesis
  proof (cases q)
    case (Inl e)
    with assms c log1 show ?thesis by (auto simp: exec_restart_def andthen_def)
  next
    case (Inr argv)
    from c Inr have argv: "argv \<noteq> []" "hd argv = ''dmtcp_restart''"
      by (auto simp: or_error_state_run restart_command_def andthen_eq_Inr split: if_splits)
    let ?look = "or_error_state (wrapping ''dmtcp_restart not found'' (reading (\<lambda>_. Inr ())))"
    obtain q' d where d: "?look c = (q', d)" by (cases "?look c")
    have "emits (\<lambda>_. False) ?look" by (intro emits_or_error emits_wrapping emits_reading)
    from emits_nothing [OF this d] log1 have log2: "a_log d = a_log a" by simp
    show ?thesis
    proof (cases q')
      case (Inl e)
      with assms c \<open>q = Inr argv\<close> d log2 show ?thesis by (auto simp: exec_restart_def andthen_def)
    next
      case (Inr u)
      let ?p = "perform (ExecProgram argv)"
      obtain s f where f: "?p (d\<lparr>a_state := StateRestoring\<rparr>) = (s, f)"
        by (cases "?p (d\<lparr>a_state := StateRestoring\<rparr>)")
      have "exec_restart h a = or_error_state (wrapping ''exec dmtcp_restart'' ?p) (d\<lparr>a_state := StateRestoring\<rparr>)"
        using c \<open>q = Inr argv\<close> d Inr by (simp add: exec_restart_def andthen_def)
      then have "or_error_state (wrapping ''exec dmtcp_restart'' ?p) (d\<lparr>a_state := StateRestoring\<rparr>) = (r, b)"
        using assms by simp
      then have "isl r = isl s" and "a_log b = a_log f"
        using f by (cases s, auto simp: wrapping_def or_error_state_def)+
      with perform_run [OF f] log2 argv show ?thesis by (cases s) auto
    qed
  qed
qed

text \<open>The process that \<open>restore_process\<close> leaves: the agent, or the restored application.\<close>

lemma restore_process_run:
  assumes "restore_process dir a = (r, b)"
  shows "\<exists>l. a_log b = a_log a @ l \<and>
     (l = [] \<or> (\<exists>argv. l = [(ExecProgram argv, \<not> isl r)] \<and> hd argv = ''dmtcp_restart''))"
proof -
  let ?h = "new_handler_from_env (a_env a) dir" and ?marker = "restored_marker dir"
  let ?c = "a\<lparr>a_state := StateIdle\<rparr>"
  obtain q c where c: "list_checkpoints ?h ?c = (q, c)" by (cases "list_checkpoints ?h ?c")
  have log1: "a_log c = a_log a" using emits_nothing [OF emits_list c] by simp
  let ?mark = "wrapping ''write restore marker''
      (\<lambda>b. os_write_file ?marker 420 (rfc3339 (a_clock b) @ [CHR 0x0A]) b)"
  obtain w d where d: "?mark c = (w, d)" by (cases "?mark c")
  have "emits (\<lambda>_. False) ?mark"
    by (intro emits_wrapping, rule emits_dep [where m = "\<lambda>b. os_write_file ?marker 420 (rfc3339 (a_clock b) @ [CHR 0x0A])"])
       (rule refl, rule emits_os)
  from emits_nothing [OF this d] log1 have log2: "a_log d = a_log a" by simp
  obtain x e where e: "exec_restart ?h d = (x, e)" by (cases "exec_restart ?h d")
  obtain y f where f: "attempt (os_remove ?marker) e = (y, f)" by (cases "attempt (os_remove ?marker) e")
  have "emits (\<lambda>_. False) (attempt (os_remove ?marker))"
    by (rule emits_attempt_nothing) (rule emits_os)
  from emits_nothing [OF this f] have log3: "a_log f = a_log e" .
  have run: "restore_process dir a =
     (case q of Inl er \<Rightarrow> (Inl er, c) | Inr ckpts \<Rightarrow>
        if ckpts = [] then (Inr (), c)
        else (case w of Inl er \<Rightarrow> (Inl er, d) | Inr _ \<Rightarrow>
          (case x of Inr _ \<Rightarrow> (Inr (), e)
           | Inl er \<Rightarrow> (case y of Inl er' \<Rightarrow> (Inl er', f) | Inr _ \<Rightarrow> (Inl (wrap_err ''dmtcp restore failed'' er), f)))))"
    using c d e f by (simp add: restore_process_def andthen_def attempt_def split: sum.split)
  show ?thesis
  proof (cases "(\<exists>ckpts. q = Inr ckpts \<and> ckpts \<noteq> []) \<and> \<not> isl w")
    case False
    with assms run log1 log2 have "a_log b = a_log a"
      by (cases q; cases w) (auto split: if_splits)
    then show ?thesis by (intro exI [of _ "[]"] conjI disjI1) simp_all
  next
    case True
    then obtain ckpts u where q: "q = Inr ckpts" "ckpts \<noteq> []" and w: "w = Inr u" by (cases w) auto
    have same: "isl r = isl x" "a_log b = a_log e"
      using assms run q w log3 by (cases x; cases y; auto)+
    from exec_restart_run [OF e] log2 same show ?thesis by auto
  qed
qed

text \<open>
  C17: a migration target lets the restored application take over only at the very end: when it
  replaces itself by \<open>dmtcp_restart\<close>, every frame up to DONE has been received, the mounts that
  were needed have all worked, and the agent does nothing more. Before that it only mounts.
\<close>

theorem target_restores_last:
  assumes "run_migration_target unpack late network lm dir proc vol a = (r, b)"
  shows "\<exists>k e. a_log b = a_log a @ k @ e \<and> (\<forall>(act, ok) \<in> set k. volume_action [] act) \<and>
     (e = [] \<or> (\<exists>argv. e = [(ExecProgram argv, \<not> isl r)] \<and> hd argv = ''dmtcp_restart'' \<and> proc \<and>
        list_all snd k \<and> \<not> isl (fst (receive_transfer unpack late network lm dir a))))"
proof -
  let ?rec = "receive_transfer unpack late network lm dir"
  let ?init = "when_on vol () (wrapping ''overlay init with received layers failed'' (init_volume lm))"
  let ?m = "andthen ?rec (\<lambda>_. ?init)"
  obtain q c where c: "?m a = (q, c)" by (cases "?m a")
  have "emits (volume_action []) ?m" by (intro emitting)
  from this c obtain k where k: "a_log c = a_log a @ k" "well_ended (volume_action []) (isl q) k"
    by (rule emitsD)
  from k(2) have mounts: "\<forall>(act, ok) \<in> set k. volume_action [] act"
    by (auto simp: well_ended_def list_all_iff)
  have run: "run_migration_target unpack late network lm dir proc vol a =
      (case q of Inl er \<Rightarrow> (Inl er, c) | Inr _ \<Rightarrow> when_on proc () (restore_process dir) c)"
    using c by (auto simp: run_migration_target_def andthen_def split: prod.splits sum.splits)
  show ?thesis
  proof (cases "proc \<and> \<not> isl q")
    case False
    with assms run have "b = c" by (cases q) (auto simp: when_on_def)
    with k mounts show ?thesis by (intro exI [of _ k] exI [of _ "[]"]) simp
  next
    case True
    with assms run have "restore_process dir c = (r, b)" by (cases q) (auto simp: when_on_def)
    from restore_process_run [OF this] obtain e where e: "a_log b = a_log c @ e"
      "e = [] \<or> (\<exists>argv. e = [(ExecProgram argv, \<not> isl r)] \<and> hd argv = ''dmtcp_restart'')" by blast
    have "list_all snd k" using k(2) True by (simp add: well_ended_def)
    moreover have "\<not> isl (fst (?rec a))"
      using c True by (cases "?rec a"; cases "fst (?rec a)") (auto simp: andthen_def)
    ultimately show ?thesis using k(1) e mounts True by (intro exI [of _ k] exI [of _ e]) auto
  qed
qed

end
