(* ===== verification/AgentExamples.thy ===== *)
theory AgentExamples
  imports Examples TargetSpec AgentMainSpec
begin

text \<open>
  Concrete instances of the properties of the agent: small machines on which the hypotheses hold.
\<close>

section \<open>Machines\<close>

definition demo_agent :: "tree \<Rightarrow> int \<Rightarrow> agent" where
  "demo_agent t level =
     \<lparr>a_tree = t, a_cwd = [], a_umask = 18, a_env = (\<lambda>_. []), a_clock = 100, a_registry = demo_registry,
      a_log = [], a_level = level, a_state = StateIdle, a_script = []\<rparr>"

lemma demo_agent_simps [simp]:
  "a_tree (demo_agent t n) = t" "a_cwd (demo_agent t n) = []" "a_umask (demo_agent t n) = 18"
  "a_env (demo_agent t n) = (\<lambda>_. [])" "a_clock (demo_agent t n) = 100"
  "a_registry (demo_agent t n) = demo_registry" "a_log (demo_agent t n) = []"
  "a_level (demo_agent t n) = n" "a_state (demo_agent t n) = StateIdle" "a_script (demo_agent t n) = []"
  by (simp_all add: demo_agent_def)

text \<open>A data directory with three writable layers, of which the first has been sent.\<close>

definition data_tree :: tree where
  "data_tree = fmap_of_list
     [([''data''], Dir 493), ([''data'', ''u1''], Dir 493), ([''data'', ''u1'', ''f''], File 420 ''one'' 5),
      ([''data'', ''u2''], Dir 493), ([''data'', ''u2'', ''g''], File 420 ''two'' 6),
      ([''data'', ''u3''], Dir 493), ([''data'', ''.sent_1''], File 420 [] 7)]"

lemma data_tree_at: "node_at data_tree p = (if p = [] then Some (Dir 493) else map_of
     [([''data''], Dir 493), ([''data'', ''u1''], Dir 493), ([''data'', ''u1'', ''f''], File 420 ''one'' 5),
      ([''data'', ''u2''], Dir 493), ([''data'', ''u2'', ''g''], File 420 ''two'' 6),
      ([''data'', ''u3''], Dir 493), ([''data'', ''.sent_1''], File 420 [] 7)] p)"
  by (simp only: node_at_def data_tree_def fmlookup_of_list)

lemma wf_tree_list: "list_all (\<lambda>(p, nd). if p = [] then is_dir nd else plain (last p) \<and>
     (case node_at (fmap_of_list xs) (butlast p) of Some d \<Rightarrow> is_dir d | None \<Rightarrow> False)) xs \<Longrightarrow>
   wf_tree (fmap_of_list xs)"
proof -
  assume xs: "list_all (\<lambda>(p, nd). if p = [] then is_dir nd else plain (last p) \<and>
     (case node_at (fmap_of_list xs) (butlast p) of Some d \<Rightarrow> is_dir d | None \<Rightarrow> False)) xs"
  have "plain (last p) \<and> dir_at (fmap_of_list xs) (butlast p)"
    if p: "p \<noteq> []" "fmlookup (fmap_of_list xs) p = Some nd" for p nd
  proof -
    from p have "(p, nd) \<in> set xs" by (simp add: fmlookup_of_list map_of_SomeD)
    with xs p(1) have "plain (last p) \<and>
        (case node_at (fmap_of_list xs) (butlast p) of Some d \<Rightarrow> is_dir d | None \<Rightarrow> False)"
      by (auto simp: list_all_iff)
    then show ?thesis by (auto simp: dir_at_def split: option.splits elim: is_dir.elims)
  qed
  then show ?thesis by (auto simp: wf_tree_def)
qed

lemma data_tree_wf: "wf_tree data_tree"
  unfolding data_tree_def by (rule wf_tree_list) code_simp

section \<open>Archives\<close>

theorem directory_arrives_witness:
  "\<exists>u. extract_tar_gz (Archive [\<lparr>te_name = ''f'', te_type = TypeReg, te_mode = 420, te_link = [],
            te_body = ''one'', te_error = None\<rparr>] None) (render True [''data'', ''l1'']) (demo_agent fmempty 0) =
       (Inr (), (demo_agent fmempty 0)\<lparr>a_tree := u\<rparr>) \<and>
     node_at u [''data'', ''l1'', ''f''] = Some (File 420 ''one'' 100)"
proof -
  let ?es = "[\<lparr>te_name = ''f'', te_type = TypeReg, te_mode = 420, te_link = [], te_body = ''one'', te_error = None\<rparr>]"
  have t: "tar_dir [''data'', ''u1''] data_tree = Inr ?es" by code_simp
  have s: "archivable data_tree [''data'', ''u1'']" "dir_at data_tree [''data'', ''u1'']"
    using data_tree_wf by (auto simp: archivable_def dir_at_def data_tree_at)
  have room: "room_for [''data'', ''l1''] (a_tree (demo_agent fmempty 0))"
    by (auto simp: room_for_def wf_tree_def node_at_def dir_at_def plain_def)
  have mode: "created 18 (perm_bits 420) = 420" by (simp add: created_def perm_bits_def)
  from directory_arrives [OF s t _ room] obtain u where
    "extract_tar_gz (Archive ?es None) (render True [''data'', ''l1'']) (demo_agent fmempty 0) =
       (Inr (), (demo_agent fmempty 0)\<lparr>a_tree := u\<rparr>)" and
    "\<forall>rel. rel \<noteq> [] \<longrightarrow> node_at u ([''data'', ''l1''] @ rel) =
       map_option (arrived 18 100) (node_at data_tree ([''data'', ''u1''] @ rel))" by auto
  moreover from this(2) have "node_at u ([''data'', ''l1''] @ [''f'']) = Some (File 420 ''one'' 100)"
    by (simp add: data_tree_at mode)
  ultimately show ?thesis by auto
qed

text \<open>A machine with a directory besides the data.\<close>

definition etc_tree :: tree where
  "etc_tree = fmap_of_list [([''data''], Dir 493), ([''etc''], Dir 493), ([''etc'', ''passwd''], File 420 ''root'' 5)]"

lemma etc_tree_at: "node_at etc_tree p = (if p = [] then Some (Dir 493) else map_of
     [([''data''], Dir 493), ([''etc''], Dir 493), ([''etc'', ''passwd''], File 420 ''root'' 5)] p)"
  by (simp only: node_at_def etc_tree_def fmlookup_of_list)

lemma etc_tree_wf: "wf_tree etc_tree"
  unfolding etc_tree_def by (rule wf_tree_list) code_simp

theorem extraction_confined_witness:
  "node_at (a_tree (snd (extract_tar_gz (Archive
       [\<lparr>te_name = ''/etc/passwd'', te_type = TypeReg, te_mode = 420, te_link = [], te_body = ''evil'', te_error = None\<rparr>,
        \<lparr>te_name = ''../etc/passwd'', te_type = TypeReg, te_mode = 420, te_link = [], te_body = ''evil'', te_error = None\<rparr>]
       None) (render True [''data'']) (demo_agent etc_tree 0)))) [''etc'', ''passwd''] =
   Some (File 420 ''root'' 5)"
proof -
  have "list_all plain [''data'']" by (simp add: plain_def)
  moreover have "dir_at (a_tree (demo_agent etc_tree 0)) q" if "prefix q [''data'']" for q
    using that by (auto simp: prefix_Cons dir_at_def etc_tree_at)
  moreover have "\<not> link_at (a_tree (demo_agent etc_tree 0)) q" for q
    by (auto simp: link_at_def etc_tree_at split: if_splits)
  moreover have "still (demo_agent etc_tree 0)" by (simp add: still_def)
  ultimately show ?thesis
    by (subst extraction_confined [OF _ _ _ _ _ _ prod.collapse [symmetric]]) (simp_all add: etc_tree_at)
qed

theorem symlink_entry_escapes_witness:
  "\<exists>b m. extract_tar_gz
      (Archive [\<lparr>te_name = ''x'', te_type = TypeSymlink, te_mode = 511, te_link = ''/etc'', te_body = [], te_error = None\<rparr>,
                \<lparr>te_name = ''x/cron'', te_type = TypeReg, te_mode = 384, te_link = [], te_body = ''evil'', te_error = None\<rparr>]
        None) ''/data'' (demo_agent etc_tree 0) = (Inr (), b) \<and>
     node_at (a_tree b) [''etc'', ''cron''] = Some (File m ''evil'' 100)"
proof -
  let ?a = "demo_agent etc_tree 0"
  have s: "render True [''etc''] = ''/etc''" "render True [''data''] = ''/data''" "join_slash [''x'', ''cron''] = ''x/cron''"
    by code_simp+
  have "list_all plain [''data'']" "list_all plain [''x'', ''cron'']" "list_all plain [''etc'']"
    by (simp_all add: plain_def)
  moreover have "dir_at (a_tree ?a) q" if "prefix q [''data''] \<or> prefix q [''etc'']" for q
    using that by (auto simp: prefix_Cons dir_at_def etc_tree_at)
  moreover have "wf_tree (a_tree ?a)" by (simp add: etc_tree_wf)
  ultimately show ?thesis
    using symlink_entry_escapes [of "[''data'']" "''x''" "''cron''" "[''etc'']" ?a "''evil''"]
    by (simp add: s etc_tree_at)
qed

section \<open>The handler of DMTCP\<close>

lemma space_heads: "hd ` set spaces =
    {CHR 0x09, CHR 0x0A, CHR 0x0B, CHR 0x0C, CHR 0x0D, CHR '' '', CHR 0xC2, CHR 0xE1, CHR 0xE2, CHR 0xE3}"
proof -
  have "map (\<lambda>n :: nat. [char_of n :: char]) [9, 10, 11, 12, 13, 32] =
      [[CHR 0x09], [CHR 0x0A], [CHR 0x0B], [CHR 0x0C], [CHR 0x0D], '' '']"
    by code_simp
  then show ?thesis by (auto simp: spaces_def simp del: list.map)
qed

definition demo_dmtcp :: dmtcp where
  "demo_dmtcp = new_handler ''/ckpt''"

text \<open>
  A checkpoint before anything runs is refused, a second launch too; the restart finds no checkpoint
  file and ends in the error state, from which attaching leads back to a checkpoint.
\<close>

definition demo_life :: "handler_op list" where
  "demo_life = [Checkpoint, Launch ''app'', Launch ''app'', Checkpoint, Restart, Checkpoint, AttachRunning, Checkpoint]"

theorem handler_follows_lifecycle_witness:
  "\<exists>es. map logged_as (a_log (run_ops demo_dmtcp demo_life (demo_agent fmempty 0))) = filter in_log es \<and>
      lifecycle StateIdle es StateCheckpointed \<and> length (filter is_launch es) \<le> 1 \<and>
      length (filter in_log es) = 3"
proof -
  let ?b = "run_ops demo_dmtcp demo_life (demo_agent fmempty 0)"
  have app: "string_fields ''app'' = [''app'']"
    by (rule string_fields_word) (simp add: word_def word_char_def space_heads)
  have no_file: "matches_in ''/ckpt'' [''ckpt''] fmempty = []" "locate [] ''/ckpt'' = [''ckpt'']"
    "dh_dir demo_dmtcp = ''/ckpt''" by code_simp+
  note ops = demo_life_def app no_file located_def checkpoint_def launch_def restart_def latest_checkpoint_file_def
    list_checkpoints_def attach_running_def andthen_def get_state_def
    set_state_def or_error_state_def wrapping_def perform_def throw_def
  have "a_state ?b = StateCheckpointed" and "length (a_log ?b) = 3"
    by (simp_all add: ops)
  moreover from handler_follows_lifecycle [OF refl, of demo_dmtcp demo_life "demo_agent fmempty 0"] obtain l es
    where "a_log ?b = l" "map logged_as l = filter in_log es" "lifecycle StateIdle es (a_state ?b)"
      "length (filter is_launch es) \<le> 1" by auto
  moreover from this have "length (filter in_log es) = length (a_log ?b)" by (metis length_map)
  ultimately show ?thesis by auto
qed

definition ckpt_tree :: tree where
  "ckpt_tree = fmap_of_list [([''ckpt''], Dir 493), ([''ckpt'', ''a.dmtcp''], File 384 ''image'' 7)]"

lemma ckpt_files:
  "matches_in ''/ckpt'' [''ckpt''] ckpt_tree = [''/ckpt/a.dmtcp'']"
  "matches_in ''/ckpt'' [''ckpt''] fmempty = []" "locate [] ''/ckpt'' = [''ckpt'']"
  "stat_node True (locate [] ''/ckpt/a.dmtcp'') ckpt_tree = Inr (File 384 ''image'' 7)"
  "path_base ''/ckpt/a.dmtcp'' = ''a.dmtcp''"
  by code_simp+

lemmas run_dmtcp =
  ckpt_files checkpoint_def wait_for_checkpoint_file_def wait_loop.simps latest_checkpoint_file_def
  list_checkpoints_def next_outcome_def elapse_def andthen_def throw_def sleep_half_def half_second_def
  located_def attempt_def os_stat_def reading_def get_state_def set_state_def or_error_state_def
  wrapping_def perform_def

text \<open>A second passes at each poll, and the file appears with the third call.\<close>

definition checkpoint_appears :: "outcome list" where
  "checkpoint_appears =
     [\<lparr>oc_elapsed = 1000000000, oc_meanwhile = id, oc_error = None\<rparr>,
      \<lparr>oc_elapsed = 1000000000, oc_meanwhile = id, oc_error = None\<rparr>,
      \<lparr>oc_elapsed = 0, oc_meanwhile = map_prod (\<lambda>_. ckpt_tree) id, oc_error = None\<rparr>]"

theorem wait_ends_witness:
  "(\<exists>f b n. wait_for_checkpoint_file demo_dmtcp 60000000000 ((demo_agent fmempty 0)\<lparr>a_script := checkpoint_appears\<rparr>) =
       (Inr f, b) \<and> f = path_join ''/ckpt'' n \<and> has_suffix n ''.dmtcp'') \<and>
   (\<exists>e b. wait_for_checkpoint_file demo_dmtcp 1000000000 ((demo_agent fmempty 0)\<lparr>a_script := checkpoint_appears\<rparr>) =
       (Inl e, b) \<and> 1000000100 \<le> a_clock b)"
proof -
  let ?a = "(demo_agent fmempty 0)\<lparr>a_script := checkpoint_appears\<rparr>"
  let ?long = "wait_for_checkpoint_file demo_dmtcp 60000000000 ?a"
  let ?short = "wait_for_checkpoint_file demo_dmtcp 1000000000 ?a"
  have dir: "dh_dir demo_dmtcp = ''/ckpt''" by code_simp
  note loop = run_dmtcp dir checkpoint_appears_def
  have "\<not> isl (fst ?long)" by (simp add: loop)
  moreover have "isl (fst ?short)" by (simp add: loop)
  moreover note dir
  moreover note wait_ends [of demo_dmtcp 60000000000 ?a "fst ?long" "snd ?long"]
    wait_ends [of demo_dmtcp 1000000000 ?a "fst ?short" "snd ?short"]
  ultimately show ?thesis
    by (cases ?long; cases ?short; cases "fst ?long"; cases "fst ?short") auto
qed

section \<open>The preStop hook\<close>

text \<open>The source of an armed migration whose destination has registered.\<close>

definition source_record :: pod_record where
  "source_record = zero_pod_record\<lparr>pr_name := ''p'', pr_migrating := True, pr_process_migration := True,
     pr_dest_registered := True, pr_dest_address := ''10.0.0.2:2486''\<rparr>"

definition source_registry :: registry where
  "source_registry = fmap_of_list [(''p'', source_record)]"

definition source_agent :: agent where
  "source_agent = (demo_agent ckpt_tree 0)\<lparr>a_registry := source_registry\<rparr>"

lemma source_record: "get_record ''p'' (registry_then source_agent) = Some source_record"
  by (simp add: registry_then_def source_agent_def source_registry_def get_record_def)

lemma source_record_armed: "pr_migrating source_record"
  by (simp add: source_record_def)

lemma source_answers:
  "handle_remove (Some ''p'') source_registry = (Response 200 (BRemove (remove_answer source_record)) :: nat response)"
  "\<exists>m. handle_copy (Some (''p'', ''/ckpt'')) source_registry = (Response 200 (BCopyInitiated ''p'') :: nat response, m)"
  by (simp_all add: handle_remove_def handle_copy_def mark_checkpoint_ready_def source_registry_def get_record_def
      remove_answer_def)

lemma source_run: "fst (end_container ''coord'' ''p'' ''/ckpt'' source_agent) = Inr ()"
proof -
  obtain m where m: "handle_copy (Some (''p'', ''/ckpt'')) source_registry = (Response 200 (BCopyInitiated ''p'') :: nat response, m)"
    using source_answers(2) by blast
  show ?thesis
    by (simp add: run_dmtcp m source_answers(1) end_container_def post_remove_def post_def source_agent_def
        migrate_out_def remove_answer_def source_record_def transfer_out_def process_checkpoint_def checkpoint_with_def Let_def
        new_handler_from_env_def new_handler_def when_on_def attach_running_def checkpoint_wait_def second_def
        send_checkpoint_files_def send_checkpoint_file_def dial_def send_frame_def file_archive_def
        entry_of_def write_frame_header_def frame_name_size_def send_done_def post_copy_def)
qed

theorem source_reports_last_witness:
  "\<exists>k. a_log (snd (end_container ''coord'' ''p'' ''/ckpt'' source_agent)) = (PostRemove ''p'', True) # k \<and>
     complete_run (remove_answer source_record) ''p'' ''/ckpt'' k"
proof -
  have "a_log source_agent = []" by (simp add: source_agent_def)
  with source_reports_last [OF prod.collapse [symmetric] source_record, of "''coord''" "''/ckpt''"]
  show ?thesis by (auto simp: source_run source_record_armed)
qed

theorem only_what_was_asked_witness:
  "list_all (\<lambda>(act, ok). asked_for source_record ''p'' ''/ckpt'' act)
     (a_log (snd (end_container ''coord'' ''p'' ''/ckpt'' source_agent)))"
proof -
  have "a_log source_agent = []" by (simp add: source_agent_def)
  with only_what_was_asked [OF prod.collapse [symmetric] source_record, of "''coord''" "''/ckpt''"]
  show ?thesis by (auto simp: list_all_iff)
qed

section \<open>The layer manager\<close>

definition demo_lm :: layer_manager where
  "demo_lm = new_layer_manager ''/data'' ''/vol''"

lemma demo_lm_simps [simp]: "lm_data_dir demo_lm = ''/data''" "lm_root_dir demo_lm = ''/vol''"
  by (simp_all add: demo_lm_def new_layer_manager_def)

lemma data_path: "render True [''data''] = ''/data''" "list_all plain [''data'']"
  by code_simp+

text \<open>The sixth call, the bind of the new level, fails.\<close>

definition bind_fails :: "outcome list" where
  "bind_fails = replicate 5 \<lparr>oc_elapsed = 0, oc_meanwhile = id, oc_error = None\<rparr> @
     [\<lparr>oc_elapsed = 0, oc_meanwhile = id, oc_error = Some (errorf ''busy'')\<rparr>]"

text \<open>A volume whose directories are all there, with one received layer.\<close>

definition volume_tree :: tree where
  "volume_tree = fmap_of_list (map (\<lambda>n. (n, Dir 493))
     [[''data''], [''data'', ''l1''], [''data'', ''u1''], [''data'', ''w1''], [''data'', ''o1''],
      [''data'', ''u2''], [''data'', ''w2''], [''data'', ''o2'']])"

lemma volume_dirs:
  "mkdir_all 18 493 [''data'', ''u1''] volume_tree = (Inr (), volume_tree)"
  "mkdir_all 18 493 [''data'', ''w1''] volume_tree = (Inr (), volume_tree)"
  "mkdir_all 18 493 [''data'', ''o1''] volume_tree = (Inr (), volume_tree)"
  "mkdir_all 18 493 [''data'', ''u2''] volume_tree = (Inr (), volume_tree)"
  "mkdir_all 18 493 [''data'', ''w2''] volume_tree = (Inr (), volume_tree)"
  "mkdir_all 18 493 [''data'', ''o2''] volume_tree = (Inr (), volume_tree)"
  by (subst mkdir_all.simps, simp add: stat_node_def walk_to_def resolve.simps max_links_def volume_tree_def node_at_def)+

lemma volume_paths:
  "lm_dir demo_lm ''u'' 1 = ''/data/u1''" "lm_dir demo_lm ''w'' 1 = ''/data/w1''"
  "lm_dir demo_lm ''o'' 1 = ''/data/o1''" "lm_dir demo_lm ''u'' 2 = ''/data/u2''"
  "lm_dir demo_lm ''w'' 2 = ''/data/w2''" "lm_dir demo_lm ''o'' 2 = ''/data/o2''"
  by code_simp+

lemma volume_places:
  "locate [] ''/data/u1'' = [''data'', ''u1'']" "locate [] ''/data/w1'' = [''data'', ''w1'']"
  "locate [] ''/data/o1'' = [''data'', ''o1'']" "locate [] ''/data/u2'' = [''data'', ''u2'']"
  "locate [] ''/data/w2'' = [''data'', ''w2'']" "locate [] ''/data/o2'' = [''data'', ''o2'']"
  "locate [] ''/data'' = [''data'']"
  by code_simp+

lemmas run_volume =
  andthen_def wrapping_def changing_def next_outcome_def elapse_def perform_def get_level_def set_level_def
  mk_level_dirs_def os_mkdir_all_def located_def volume_dirs volume_paths volume_places mount_level_def
  bind_level_def unbind_root_def exec_runner_def run_command_def

theorem create_checkpoint_steps_witness:
  "\<exists>e b. create_checkpoint demo_lm ((demo_agent volume_tree 1)\<lparr>a_script := bind_fails\<rparr>) = (Inl e, b) \<and>
     a_level b = 1 \<and> prefix (map fst (a_log b))
       [mount_action demo_lm 2 ''/data/o1'', unbind_action demo_lm, bind_action demo_lm 2] \<and> length (a_log b) = 3"
proof -
  let ?run = "create_checkpoint demo_lm ((demo_agent volume_tree 1)\<lparr>a_script := bind_fails\<rparr>)"
  have "isl (fst ?run) \<and> length (a_log (snd ?run)) = 3"
    by (simp add: create_checkpoint_def bind_fails_def numeral_eq_Suc run_volume Let_def)
  with create_checkpoint_steps [of demo_lm _ "fst ?run" "snd ?run", OF prod.collapse [symmetric]]
  show ?thesis by (cases ?run; cases "fst ?run") (auto simp: volume_paths Let_def)
qed

text \<open>Which of the three layers goes out.\<close>

lemma data_ordinal: "dir_at data_tree ([''data''] @ [''u'' @ itoa n]) \<longleftrightarrow> n \<in> {1, 2, 3}"
proof -
  have "itoa 1 = ''1''" "itoa 2 = ''2''" "itoa 3 = ''3''" by code_simp+
  then have "itoa n = ''1'' \<longleftrightarrow> n = 1" "itoa n = ''2'' \<longleftrightarrow> n = 2" "itoa n = ''3'' \<longleftrightarrow> n = 3"
    by (metis itoa_inject)+
  then show ?thesis by (auto simp: dir_at_def data_tree_at)
qed

lemma data_ordinals: "ordinals ''u'' [''data''] data_tree = {1, 2, 3}"
  using data_ordinal by (auto simp: ordinals_def in_i64_def)

lemma data_canonical: "canonical ''u'' [''data''] data_tree"
proof -
  have "ordinal_of ''u'' (''u1'', True) = Some 1" "ordinal_of ''u'' (''u2'', True) = Some 2"
    "ordinal_of ''u'' (''u3'', True) = Some 3" "''u'' @ itoa 1 = ''u1''" "''u'' @ itoa 2 = ''u2''" "''u'' @ itoa 3 = ''u3''"
    by code_simp+
  then show ?thesis by (auto simp: canonical_def dir_at_def data_tree_at split: if_splits)
qed

lemma data_place: "data_place demo_lm [''data''] (demo_agent data_tree n)"
  by (auto simp: data_place_def data_tree_wf data_path(1) data_path(2) [simplified] prefix_Cons dir_at_def data_tree_at)

lemma data_sent: "node_at data_tree [''data'', marker n] = (if n = 1 then Some (File 420 [] 7) else None)"
proof -
  have "itoa 1 = ''1''" by code_simp
  then have "itoa n = ''1'' \<longleftrightarrow> n = 1" by (metis itoa_inject)
  then show ?thesis by (simp add: data_tree_at marker_def)
qed

theorem copy_sends_each_layer_once_witness:
  "\<exists>b es. copy_checkpoint demo_lm ''10.0.0.2:2486'' (demo_agent data_tree 3) = (Inr (), b) \<and>
     a_log b = [(SendFrame ''10.0.0.2:2486'' (layer_header 2) es, True)] \<and> length es = 1 \<and>
     copy_checkpoint demo_lm ''10.0.0.2:2486'' b = (Inr (), b)"
proof -
  let ?a = "demo_agent data_tree 3"
  let ?es = "case layer_archive [''data''] data_tree 2 of Inr es \<Rightarrow> es"
  have place: "send_place demo_lm [''data''] ?a"
    using data_place by (simp add: send_place_def data_sent) (simp add: dir_at_def data_tree_at)
  have canon: "canonical ''u'' [''data''] (a_tree ?a)" by (simp add: data_canonical)
  have dest: "''10.0.0.2:2486'' \<noteq> []" by simp
  have which: "unsent [''data''] ?a n \<longleftrightarrow> n < 3 \<and> n \<noteq> 1" for n
    by (simp add: unsent_def sent_at_def data_sent)
  have arch: "layer_archive [''data''] (a_tree ?a) 2 = Inr ?es" and one: "length ?es = 1" by code_simp+
  have sent: "filter (unsent [''data''] ?a) (sorted_list_of_set (ordinals ''u'' [''data''] (a_tree ?a))) = [2]"
    by (simp add: data_ordinals which)
  have "layer_archive [''data''] (a_tree ?a) n = Inr ?es"
    if "n \<in> ordinals ''u'' [''data''] (a_tree ?a)" "unsent [''data''] ?a n" for n
    using that arch by (auto simp: data_ordinals which)
  from copy_sends_each_layer_once [OF place canon dest, where es = "\<lambda>_. ?es", OF this] one
  show ?thesis unfolding sent by auto
qed

text \<open>Freezing layer 3, and the hook finding level 4.\<close>

theorem level_is_discovered_witness:
  "\<exists>b. create_checkpoint demo_lm (demo_agent data_tree 3) = (Inr 3, b) \<and> a_level b = 4 \<and>
     discover demo_lm (b\<lparr>a_level := 0\<rparr>) = (Inr (), b)"
proof -
  let ?a = "demo_agent data_tree 3"
  have four: "itoa 4 = ''4''" by code_simp
  have free: "level_free [''data''] ?a (a_level ?a + 1)"
    using four by (simp add: level_free_def) (simp add: data_tree_at)
  have "level_free [''data''] ?a 4" using free by simp
  from mk_level_dirs_quiet [OF data_place this] obtain t' where
    "mk_level_dirs demo_lm 4 ?a = (Inr (), ?a\<lparr>a_tree := t'\<rparr>)" by blast
  then have run: "create_checkpoint demo_lm ?a =
      (Inr 3, snd (create_checkpoint demo_lm ?a))"
    by (simp add: create_checkpoint_def andthen_def wrapping_def get_level_def set_level_def mount_level_def
        bind_level_def unbind_root_def exec_runner_def run_command_def perform_def Let_def)
  have canon: "canonical ''u'' [''data''] (a_tree ?a)" by (simp add: data_canonical)
  have nums: "0 \<le> a_level ?a" "in_i64 (a_level ?a + 1)" by (simp_all add: in_i64_def)
  from level_is_discovered [OF data_place canon free nums disjI2 [OF run], of 0] run
  show ?thesis by (intro exI [of _ "snd (create_checkpoint demo_lm ?a)"]) (auto simp: data_ordinals)
qed

section \<open>The migration target\<close>

definition upper_home :: "int \<Rightarrow> path" where
  "upper_home n = [''data'', ''u'' @ itoa n]"

definition demo_entries :: "int \<Rightarrow> tar_entry list" where
  "demo_entries n = (case tar_dir (upper_home n) data_tree of Inr es \<Rightarrow> es)"

text \<open>Layer 2 arrives before layer 1; the archives are numbered on the wire.\<close>

theorem target_restores_volume_witness:
  "\<exists>b. run_migration_target (\<lambda>bs. (Archive (demo_entries (uint (hd bs))) None, tl bs)) (errorf ''timeout'')
        (\<lambda>_. map frame_conn (map (layer_frame (\<lambda>n. [word_of_int n :: byte])) [2, 1]) @ frame_conn (done_header, []) # [])
        demo_lm ''/ckpt'' False True (demo_agent etc_tree 0) = (Inr (), b) \<and>
     a_log b = [(mount_action demo_lm 1 ''/data/l2:/data/l1'', True), (bind_action demo_lm 1, True)] \<and>
     copy_of (demo_agent etc_tree 0) data_tree (upper_home 2) (a_tree b) (layer_home [''data''] 2)"
proof -
  let ?a = "demo_agent etc_tree 0"
  have place: "data_place demo_lm [''data''] ?a"
    by (auto simp: data_place_def etc_tree_wf data_path(1) data_path(2) [simplified] prefix_Cons dir_at_def etc_tree_at)
  have level: "a_level ?a = 0" by simp
  have clear: "node_at (a_tree ?a) ([''data''] @ [''l'' @ s]) = None" for s by (simp add: etc_tree_at)
  have free: "level_free [''data''] ?a 1" by (simp add: level_free_def) (simp add: etc_tree_at)
  have ns: "distinct [2, 1 :: int]" "[2, 1 :: int] \<noteq> []" "\<And>n. n \<in> set [2, 1 :: int] \<Longrightarrow> 0 < n \<and> n < 2 ^ 32"
    by auto
  have home: "upper_home 1 = [''data'', ''u1'']" "upper_home 2 = [''data'', ''u2'']" by code_simp+
  have tar: "\<not> isl (tar_dir (upper_home 1) data_tree)" "\<not> isl (tar_dir (upper_home 2) data_tree)" by code_simp+
  have "archivable data_tree (upper_home n) \<and> dir_at data_tree (upper_home n) \<and>
      tar_dir (upper_home n) data_tree = Inr (demo_entries n) \<and>
      (\<lambda>bs. (Archive (demo_entries (uint (hd bs))) None, tl bs)) ((\<lambda>n. [word_of_int n :: byte]) n) = (Archive (demo_entries n) None, [])"
    if n: "n \<in> set [2, 1]" for n
  proof -
    have "archivable data_tree (upper_home n)" "dir_at data_tree (upper_home n)"
      using n data_tree_wf by (auto simp: home archivable_def dir_at_def data_tree_at)
    moreover have "tar_dir (upper_home n) data_tree = Inr (demo_entries n)"
      using n tar by (auto simp: demo_entries_def split: sum.split)
    ultimately show ?thesis using n by auto
  qed
  note run = target_restores_volume [where src = "\<lambda>_. data_tree" and home = upper_home and es = demo_entries
      and unpack = "\<lambda>bs. (Archive (demo_entries (uint (hd bs))) None, tl bs)"
      and payload_of = "\<lambda>n. [word_of_int n]" and rest = "[]" and late = "errorf ''timeout''" and dir = "''/ckpt''"
      and network = "\<lambda>_. map frame_conn (map (layer_frame (\<lambda>n. [word_of_int n])) [2, 1]) @ frame_conn (done_header, []) # []",
      OF place level clear free ns this refl]
  have dirs: "join_with '':'' (map (lm_dir demo_lm ''l'') (rev (sort [2, 1]))) = ''/data/l2:/data/l1''" by code_simp
  from run show ?thesis
    unfolding dirs by auto
qed

text \<open>A pod that comes up while its migration is armed.\<close>

definition target_env :: "string \<Rightarrow> string" where
  "target_env name = (if name = ''POD_NAME'' then ''web-0'' else if name = ''POD_IP'' then ''10.0.0.9'' else [])"

theorem target_endpoint_is_answered_witness:
  "\<exists>c resp b answer. listen_transfer 2486 (demo_agent fmempty 0) = (Inr (), c) \<and>
     post_register id ''http://coord'' (register_message target_env True False) c = (Inr resp, b) \<and> me_is_mig resp \<and>
     handle_remove (Some ''web-0'') (a_registry b) = (Response 200 (BRemove answer) :: nat response) \<and>
     split_host_port (rr_dest_address answer) = Some (''10.0.0.9'', ''2486'')"
proof -
  let ?c = "(demo_agent fmempty 0)\<lparr>a_log := [(Listen 2486, True)]\<rparr>"
  let ?msg = "register_message target_env True False"
  have port: "transfer_port target_env = 2486"
    by (simp add: transfer_port_def env_int_def target_env_def agent_transfer_port_def)
  have listen: "listen_transfer (transfer_port target_env) (demo_agent fmempty 0) = (Inr (), ?c)"
    by (simp add: port listen_transfer_def wrapping_def perform_def)
  have known: "get_record (target_env ''POD_NAME'') (registry_then ?c) = Some (the (get_record ''web-0'' demo_registry))"
    using demo_lookup(1) by (simp add: target_env_def registry_then_def get_record_def)
  have "\<not> isl (fst (post_register id ''http://coord'' ?msg ?c))"
    using known
    by (simp add: post_register_def andthen_def wrapping_def post_def handle_register_def register_message_def
        target_env_def registry_then_def Let_def split: prod.split)
  then obtain resp where reg: "post_register id ''http://coord'' ?msg ?c =
      (Inr resp, snd (post_register id ''http://coord'' ?msg ?c))"
    by (cases "post_register id ''http://coord'' ?msg ?c"; cases "fst (post_register id ''http://coord'' ?msg ?c)") auto
  have "pr_migrating (the (get_record ''web-0'' demo_registry))"
    using demo_lookup(2) by (simp add: get_record_def)
  moreover have "no_bracket (target_env ''POD_IP'')" "target_env ''POD_IP'' \<noteq> []"
    by (simp_all add: no_bracket_def target_env_def)
  moreover have "itoa 2486 = ''2486''" by code_simp
  moreover have "target_env ''POD_NAME'' = ''web-0''" "target_env ''POD_IP'' = ''10.0.0.9''"
    by (simp_all add: target_env_def)
  moreover obtain b where b: "snd (post_register id ''http://coord'' ?msg ?c) = b" by simp
  ultimately show ?thesis using target_endpoint_is_answered [OF listen reg known] listen reg unfolding port b
    by (intro exI [of _ ?c] exI [of _ resp] exI [of _ b]) auto
qed

text \<open>DONE at once, for a process whose checkpoint is there already.\<close>

definition done_network :: "duration \<Rightarrow> (go_err + conn) list" where
  "done_network timeout = [frame_conn (done_header, [])]"

definition marked_tree :: tree where
  "marked_tree = snd (write_file 100 18 420 ''0001-01-01T00:00:00Z\<newline>'' [''ckpt'', ''.restored''] ckpt_tree)"

theorem target_restores_last_witness:
  "\<exists>argv. a_log (snd (run_migration_target (\<lambda>bs. (BadGzip (errorf ''EOF''), bs)) (errorf ''timeout'') done_network
       demo_lm ''/ckpt'' True False (demo_agent ckpt_tree 0))) =
     [(ExecProgram argv, True)] \<and> hd argv = ''dmtcp_restart''"
proof -
  let ?unpack = "\<lambda>bs. (BadGzip (errorf ''EOF''), bs)"
  let ?run = "run_migration_target ?unpack (errorf ''timeout'') done_network demo_lm ''/ckpt'' True False
      (demo_agent ckpt_tree 0)"
  have stamp: "rfc3339 100 @ [CHR 0x0A] = ''0001-01-01T00:00:00Z\<newline>''" by code_simp
  have mark: "write_file 100 18 420 ''0001-01-01T00:00:00Z\<newline>'' [''ckpt'', ''.restored''] ckpt_tree =
      (Inr (), marked_tree)"
    unfolding marked_tree_def by (simp add: prod_eq_iff) code_simp
  have more_files: "matches_in ''/ckpt'' [''ckpt''] marked_tree = [''/ckpt/a.dmtcp'']"
    and place: "restored_marker ''/ckpt'' = ''/ckpt/.restored''" "locate [] ''/ckpt/.restored'' = [''ckpt'', ''.restored'']"
    by code_simp+
  have run: "\<not> isl (fst ?run) \<and> length (a_log (snd ?run)) = 1 \<and>
      list_all (\<lambda>(act, ok). \<not> volume_action [] act) (a_log (snd ?run))"
    by (simp add: run_dmtcp stamp mark more_files place run_migration_target_def receive_transfer_def done_network_def
        receive_all_stops when_on_def restore_process_def new_handler_from_env_def new_handler_def Let_def
        os_write_file_def changing_def exec_restart_def restart_command_def)
  from target_restores_last [OF prod.collapse [symmetric], of ?unpack "errorf ''timeout''" done_network demo_lm
      "''/ckpt''" True False "demo_agent ckpt_tree 0"]
  obtain k e where l: "a_log (snd ?run) = k @ e" "\<forall>(act, ok) \<in> set k. volume_action [] act"
    and e: "e = [] \<or> (\<exists>argv. e = [(ExecProgram argv, \<not> isl (fst ?run))] \<and> hd argv = ''dmtcp_restart'')"
    by auto
  have "k = []" using run l by (cases k) (auto simp: list_all_iff)
  with run l e show ?thesis by auto
qed

end
