(* ===== verification/Json.thy ===== *)
theory Json
  imports Prelude "HOL-Library.Char_ord"
begin

text \<open>
  JSON as \<open>encoding/json\<close> maps it to Go structs: values, the fields of a struct with their tags, and
  the two directions. How the text of a value is written and parsed is left to the library; a
  string that is not UTF-8 is made so when it is written.
\<close>

section \<open>Values\<close>

text \<open>\<open>JInt\<close>: a number without fraction and exponent; any other number is kept as its text.\<close>

datatype json =
    JNull
  | JBool bool
  | JInt int
  | JFloat string
  | JString string
  | JArray "json list"
  | JObject "(string \<times> json) list"

section \<open>UTF-8\<close>

text \<open>The bytes that may follow: each between two bounds.\<close>

fun bytes_within :: "(nat \<times> nat) list \<Rightarrow> string \<Rightarrow> bool" where
  "bytes_within [] s = True"
| "bytes_within (r # rs) [] = False"
| "bytes_within ((lo, hi) # rs) (c # s) = (lo \<le> of_char c \<and> of_char c \<le> hi \<and> bytes_within rs s)"

definition after_first :: "nat \<Rightarrow> (nat \<times> nat) list option" where
  "after_first b =
     (if b < 128 then Some []
      else if 194 \<le> b \<and> b \<le> 223 then Some [(128, 191)]
      else if b = 224 then Some [(160, 191), (128, 191)]
      else if b = 237 then Some [(128, 159), (128, 191)]
      else if 225 \<le> b \<and> b \<le> 239 then Some [(128, 191), (128, 191)]
      else if b = 240 then Some [(144, 191), (128, 191), (128, 191)]
      else if 241 \<le> b \<and> b \<le> 243 then Some [(128, 191), (128, 191), (128, 191)]
      else if b = 244 then Some [(128, 143), (128, 191), (128, 191)]
      else None)"

text \<open>How many bytes the first character has after its first one; \<open>None\<close> if there is no character.\<close>

definition rune_rest :: "char \<Rightarrow> string \<Rightarrow> nat option" where
  "rune_rest c s =
     (case after_first (of_char c) of
        None \<Rightarrow> None
      | Some rs \<Rightarrow> if bytes_within rs s then Some (length rs) else None)"

text \<open>What is written: a byte that belongs to no character becomes U+FFFD.\<close>

function to_utf8 :: "string \<Rightarrow> string" where
  "to_utf8 [] = []"
| "to_utf8 (c # s) =
     (case rune_rest c s of
        None \<Rightarrow> [CHR 0xEF, CHR 0xBF, CHR 0xBD] @ to_utf8 s
      | Some n \<Rightarrow> c # take n s @ to_utf8 (drop n s))"
  by pat_completeness auto
termination
  by (relation "measure length") auto

function valid_utf8 :: "string \<Rightarrow> bool" where
  "valid_utf8 [] = True"
| "valid_utf8 (c # s) = (case rune_rest c s of None \<Rightarrow> False | Some n \<Rightarrow> valid_utf8 (drop n s))"
  by pat_completeness auto
termination
  by (relation "measure length") auto

lemma to_utf8_valid [simp]: "valid_utf8 s \<Longrightarrow> to_utf8 s = s"
  by (induction s rule: valid_utf8.induct) (auto split: option.splits)

lemma valid_utf8_ascii: "list_all (\<lambda>c. of_char c < (128 :: nat)) s \<Longrightarrow> valid_utf8 s"
  by (induction s) (simp_all add: rune_rest_def after_first_def)

lemma bytes_within_append: "bytes_within rs s \<Longrightarrow> bytes_within rs (take (length rs) s @ t)"
  by (induction rs s rule: bytes_within.induct) auto

lemma bytes_within_length: "bytes_within rs s \<Longrightarrow> length rs \<le> length s"
  by (induction rs s rule: bytes_within.induct) auto

lemma rune_rest_append:
  assumes "rune_rest c s = Some n"
  shows "rune_rest c (take n s @ t) = Some n" and "n \<le> length s"
  using assms bytes_within_append bytes_within_length
  by (auto simp: rune_rest_def split: option.splits if_splits)

text \<open>What is written is UTF-8.\<close>

lemma valid_utf8_to_utf8 [simp]: "valid_utf8 (to_utf8 s)"
proof (induction s rule: to_utf8.induct)
  case (2 c s)
  show ?case
  proof (cases "rune_rest c s")
    case None
    have "rune_rest (CHR 0xEF) (CHR 0xBF # CHR 0xBD # t) = Some 2" for t
      by (simp add: rune_rest_def after_first_def)
    with None 2 show ?thesis by simp
  next
    case (Some n)
    with 2 rune_rest_append [OF Some] show ?thesis by simp
  qed
qed simp

declare to_utf8.simps(2) [simp del] valid_utf8.simps(2) [simp del]

section \<open>Writing structs\<close>

text \<open>\<open>FPointer\<close>: a pointer, nil if \<open>None\<close>, or a value that is never empty.\<close>

datatype go_field = FString string | FBool bool | FInt int | FPointer "json option"

fun is_empty_field :: "go_field \<Rightarrow> bool" where
  "is_empty_field (FString s) = (s = [])"
| "is_empty_field (FBool b) = (\<not> b)"
| "is_empty_field (FInt n) = (n = 0)"
| "is_empty_field (FPointer p) = (p = None)"

fun field_json :: "go_field \<Rightarrow> json" where
  "field_json (FString s) = JString (to_utf8 s)"
| "field_json (FBool b) = JBool b"
| "field_json (FInt n) = JInt n"
| "field_json (FPointer p) = (case p of None \<Rightarrow> JNull | Some j \<Rightarrow> j)"

text \<open>The members of an object: name, whether an empty value is left out, value.\<close>

fun members :: "(string \<times> bool \<times> go_field) list \<Rightarrow> (string \<times> json) list" where
  "members [] = []"
| "members ((name, omit, v) # fs) =
     (if omit \<and> is_empty_field v then members fs else (name, field_json v) # members fs)"

definition encode_struct :: "(string \<times> bool \<times> go_field) list \<Rightarrow> json" where
  "encode_struct fs = JObject (members fs)"

section \<open>Reading structs\<close>

text \<open>How a field is set, by its type; \<open>SetOptBool\<close> is a pointer to a \<open>bool\<close>.\<close>

datatype 's setter =
    SetString "string \<Rightarrow> 's \<Rightarrow> 's"
  | SetBool "bool \<Rightarrow> 's \<Rightarrow> 's"
  | SetInt "int \<Rightarrow> 's \<Rightarrow> 's"
  | SetOptBool "bool option \<Rightarrow> 's \<Rightarrow> 's"

text \<open>\<open>None\<close>: the value does not fit the type. \<open>null\<close> sets a pointer only.\<close>

fun assign :: "'s setter \<Rightarrow> json \<Rightarrow> 's \<Rightarrow> 's option" where
  "assign (SetOptBool f) JNull s = Some (f None s)"
| "assign (SetOptBool f) (JBool b) s = Some (f (Some b) s)"
| "assign _ JNull s = Some s"
| "assign (SetString f) (JString v) s = Some (f v s)"
| "assign (SetBool f) (JBool b) s = Some (f b s)"
| "assign (SetInt f) (JInt n) s = (if in_i64 n then Some (f n s) else None)"
| "assign _ _ s = None"

text \<open>
  A member without a field of exactly its name goes to the first field of the same name but for
  the case of letters; the Kelvin sign and the long s count as K and S.
\<close>

function fold_name :: "string \<Rightarrow> string" where
  "fold_name [] = []"
| "fold_name (c # s) =
     (if c = CHR 0xE2 \<and> take 2 s = [CHR 0x84, CHR 0xAA] then CHR ''K'' # fold_name (drop 2 s)
      else if c = CHR 0xC5 \<and> take 1 s = [CHR 0xBF] then CHR ''S'' # fold_name (drop 1 s)
      else (if 97 \<le> (of_char c :: nat) \<and> of_char c \<le> (122 :: nat)
            then char_of (of_char c - 32 :: nat) else c) # fold_name s)"
  by pat_completeness auto
termination
  by (relation "measure length") auto

definition find_field :: "(string \<times> 's setter) list \<Rightarrow> string \<Rightarrow> 's setter option" where
  "find_field fs name =
     (case map_of fs name of
        Some f \<Rightarrow> Some f
      | None \<Rightarrow> map_option snd (find (\<lambda>(n, _). fold_name n = fold_name name) fs))"

text \<open>The members in turn. An unfit one is remembered as an error, the others are still read.\<close>

fun decode_members :: "(string \<times> 's setter) list \<Rightarrow> (string \<times> json) list \<Rightarrow> 's \<Rightarrow> bool \<times> 's" where
  "decode_members fs [] s = (True, s)"
| "decode_members fs ((name, v) # ms) s =
     (case find_field fs name of
        None \<Rightarrow> decode_members fs ms s
      | Some f \<Rightarrow>
          (case assign f v s of
             Some s' \<Rightarrow> decode_members fs ms s'
           | None \<Rightarrow> (False, snd (decode_members fs ms s))))"

text \<open>Into a zero struct: \<open>null\<close> leaves it as it is, another value that is no object does not fit.\<close>

fun decode_struct :: "(string \<times> 's setter) list \<Rightarrow> 's \<Rightarrow> json \<Rightarrow> 's option" where
  "decode_struct fs zero JNull = Some zero"
| "decode_struct fs zero (JObject ms) =
     (case decode_members fs ms zero of (True, s) \<Rightarrow> Some s | (False, _) \<Rightarrow> None)"
| "decode_struct fs zero _ = None"

section \<open>Reading and writing\<close>

text \<open>The parser makes UTF-8 of every string.\<close>

fun valid_json :: "json \<Rightarrow> bool" where
  "valid_json (JString s) = valid_utf8 s"
| "valid_json (JArray js) = list_all valid_json js"
| "valid_json (JObject ms) = list_all (\<lambda>(name, v). valid_utf8 name \<and> valid_json v) ms"
| "valid_json _ = True"

text \<open>A property of structs that no setter breaks holds of whatever is decoded.\<close>

fun setter_keeps :: "('s \<Rightarrow> bool) \<Rightarrow> 's setter \<Rightarrow> bool" where
  "setter_keeps P (SetString f) \<longleftrightarrow> (\<forall>v s. valid_utf8 v \<longrightarrow> P s \<longrightarrow> P (f v s))"
| "setter_keeps P (SetBool f) \<longleftrightarrow> (\<forall>b s. P s \<longrightarrow> P (f b s))"
| "setter_keeps P (SetInt f) \<longleftrightarrow> (\<forall>n s. in_i64 n \<longrightarrow> P s \<longrightarrow> P (f n s))"
| "setter_keeps P (SetOptBool f) \<longleftrightarrow> (\<forall>b s. P s \<longrightarrow> P (f b s))"

lemma assign_keeps: "setter_keeps P f \<Longrightarrow> valid_json v \<Longrightarrow> assign f v s = Some s' \<Longrightarrow> P s \<Longrightarrow> P s'"
  by (induction f v s rule: assign.induct) (auto split: if_splits)

lemma find_field_in: "find_field fs name = Some f \<Longrightarrow> f \<in> snd ` set fs"
proof (cases "map_of fs name")
  case None
  moreover assume "find_field fs name = Some f"
  ultimately obtain m where "find (\<lambda>(n, _). fold_name n = fold_name name) fs = Some (m, f)"
    by (auto simp: find_field_def)
  then have "(m, f) \<in> set fs" by (auto simp: find_Some_iff) (metis nth_mem)
  then show ?thesis by force
next
  case (Some g)
  moreover assume "find_field fs name = Some f"
  ultimately have "(name, f) \<in> set fs" by (simp add: find_field_def map_of_SomeD)
  then show ?thesis by force
qed

lemma decode_members_keeps:
  "(\<And>f. f \<in> snd ` set fs \<Longrightarrow> setter_keeps P f) \<Longrightarrow> list_all (valid_json \<circ> snd) ms \<Longrightarrow> P s \<Longrightarrow>
   P (snd (decode_members fs ms s))"
proof (induction ms arbitrary: s)
  case (Cons m ms)
  obtain name v where m: "m = (name, v)" by (cases m)
  show ?case
  proof (cases "find_field fs name")
    case None
    with Cons m show ?thesis by simp
  next
    case (Some f)
    from find_field_in [OF this] Cons.prems(1) have "setter_keeps P f" by blast
    with Cons m Some show ?thesis by (auto split: option.split dest: assign_keeps)
  qed
qed simp

lemma decode_struct_keeps:
  assumes "decode_struct fs zero j = Some s" and "valid_json j" and "P zero"
    and "list_all (setter_keeps P \<circ> snd) fs"
  shows "P s"
proof (cases j)
  case (JObject ms)
  have ms: "list_all (valid_json \<circ> snd) ms" using assms(2) JObject by (auto simp: list_all_iff)
  have fs: "setter_keeps P f" if "f \<in> snd ` set fs" for f
  proof -
    from that obtain n where "(n, f) \<in> set fs" by force
    with assms(4) show ?thesis by (fastforce simp: list_all_iff)
  qed
  have "P (snd (decode_members fs ms zero))" by (rule decode_members_keeps [OF fs ms assms(3)])
  moreover obtain ok s' where r: "decode_members fs ms zero = (ok, s')" by (cases "decode_members fs ms zero")
  ultimately show ?thesis using assms(1) JObject by (cases ok) simp_all
qed (use assms(1,3) in simp_all)

text \<open>An unknown member changes nothing.\<close>

lemma decode_unknown:
  "find_field fs name = None \<Longrightarrow> decode_members fs (ms @ (name, v) # ms') s = decode_members fs (ms @ ms') s"
  by (induction ms arbitrary: s) (auto split: option.split prod.split)

end
