(* ===== verification/HttpApi.thy ===== *)
theory HttpApi
  imports Json RestApi
begin

text \<open>
  The REST API as HTTP: which handler a method and path reach (\<open>server.go\<close>), how the bodies of the
  requests are read and those of the answers written (the tags of the structs in \<open>handlers.go\<close>,
  \<open>handlers_query.go\<close> and \<open>history.go\<close>). A body is the first JSON value of its first MiB, or \<open>None\<close>
  if it has none. How an instant and a float are written are arguments.
\<close>

section \<open>Reading requests\<close>

definition message_fields :: "(string \<times> message setter) list" where
  "message_fields =
     [(''podName'', SetString (\<lambda>v m. m\<lparr>me_pod_name := v\<rparr>)),
      (''podAddress'', SetString (\<lambda>v m. m\<lparr>me_pod_address := v\<rparr>)),
      (''containerPort'', SetInt (\<lambda>n m. m\<lparr>me_container_port := n\<rparr>)),
      (''isNew'', SetBool (\<lambda>b m. m\<lparr>me_is_new := b\<rparr>)),
      (''isMig'', SetBool (\<lambda>b m. m\<lparr>me_is_mig := b\<rparr>)),
      (''processMigration'', SetBool (\<lambda>b m. m\<lparr>me_process_migration := b\<rparr>)),
      (''volumeMigration'', SetBool (\<lambda>b m. m\<lparr>me_volume_migration := b\<rparr>)),
      (''checkpointDir'', SetString (\<lambda>v m. m\<lparr>me_checkpoint_dir := v\<rparr>)),
      (''syncRounds'', SetInt (\<lambda>n m. m\<lparr>me_sync_rounds := n\<rparr>))]"

definition decode_message :: "json \<Rightarrow> message option" where
  "decode_message = decode_struct message_fields zero_message"

definition decode_pod_name :: "json \<Rightarrow> string option" where
  "decode_pod_name = decode_struct [(''podName'', SetString (\<lambda>v _. v))] []"

definition decode_copy :: "json \<Rightarrow> (string \<times> string) option" where
  "decode_copy = decode_struct
     [(''podName'', SetString (\<lambda>v (_, d). (v, d))), (''checkpointDir'', SetString (\<lambda>v (n, _). (n, v)))] ([], [])"

definition decode_sync :: "json \<Rightarrow> (string \<times> int) option" where
  "decode_sync = decode_struct
     [(''podName'', SetString (\<lambda>v (_, k). (v, k))), (''round'', SetInt (\<lambda>k (n, _). (n, k)))] ([], 0)"

definition zero_migrate_request :: migrate_request where
  "zero_migrate_request =
     \<lparr>mr_deployment = [], mr_origin_node = [], mr_dest_node = [], mr_label = [], mr_workload = [],
      mr_namespace = [], mr_pod_name = [], mr_source_node = [], mr_target_node = []\<rparr>"

definition decode_migrate :: "json \<Rightarrow> migrate_request option" where
  "decode_migrate = decode_struct
     [(''deployment'', SetString (\<lambda>v r. r\<lparr>mr_deployment := v\<rparr>)),
      (''originNode'', SetString (\<lambda>v r. r\<lparr>mr_origin_node := v\<rparr>)),
      (''destNode'', SetString (\<lambda>v r. r\<lparr>mr_dest_node := v\<rparr>)),
      (''label'', SetString (\<lambda>v r. r\<lparr>mr_label := v\<rparr>)),
      (''workload'', SetString (\<lambda>v r. r\<lparr>mr_workload := v\<rparr>)),
      (''namespace'', SetString (\<lambda>v r. r\<lparr>mr_namespace := v\<rparr>)),
      (''podName'', SetString (\<lambda>v r. r\<lparr>mr_pod_name := v\<rparr>)),
      (''sourceNode'', SetString (\<lambda>v r. r\<lparr>mr_source_node := v\<rparr>)),
      (''targetNode'', SetString (\<lambda>v r. r\<lparr>mr_target_node := v\<rparr>))] zero_migrate_request"

definition decode_enabled :: "json \<Rightarrow> bool option option" where
  "decode_enabled = decode_struct [(''enabled'', SetOptBool (\<lambda>b _. b))] None"

section \<open>Writing answers\<close>

definition json_strings :: "(string \<times> string) list \<Rightarrow> json" where
  "json_strings kvs = encode_struct (map (\<lambda>(k, v). (k, False, FString v)) kvs)"

definition encode_message :: "message \<Rightarrow> json" where
  "encode_message m = encode_struct
     [(''podName'', False, FString (me_pod_name m)),
      (''podAddress'', False, FString (me_pod_address m)),
      (''containerPort'', True, FInt (me_container_port m)),
      (''isNew'', False, FBool (me_is_new m)),
      (''isMig'', False, FBool (me_is_mig m)),
      (''processMigration'', False, FBool (me_process_migration m)),
      (''volumeMigration'', False, FBool (me_volume_migration m)),
      (''checkpointDir'', True, FString (me_checkpoint_dir m)),
      (''syncRounds'', True, FInt (me_sync_rounds m))]"

definition encode_remove_response :: "remove_response \<Rightarrow> json" where
  "encode_remove_response r = encode_struct
     [(''needsCheckpoint'', False, FBool (rr_needs_checkpoint r)),
      (''processMigration'', False, FBool (rr_process_migration r)),
      (''volumeMigration'', False, FBool (rr_volume_migration r)),
      (''destAddress'', True, FString (rr_dest_address r))]"

text \<open>The members of a map are written in the order of their names.\<close>

definition encode_poll_response :: "poll_response \<Rightarrow> json" where
  "encode_poll_response r = encode_struct
     [(''checkpointDir'', False, FString (po_checkpoint_dir r)),
      (''migrating'', False, FBool (po_migrating r)),
      (''podName'', False, FString (po_pod_name r)),
      (''processMigration'', False, FBool (po_process_migration r)),
      (''syncRound'', False, FInt (po_sync_round r)),
      (''syncRounds'', False, FInt (po_sync_rounds r)),
      (''volumeMigration'', False, FBool (po_volume_migration r))]"

definition encode_legacy_pod :: "legacy_pod \<Rightarrow> json" where
  "encode_legacy_pod p = encode_struct
     [(''podName'', False, FString (lp_pod_name p)), (''podAddress'', False, FString (lp_pod_address p)),
      (''migrating'', False, FBool (lp_migrating p))]"

text \<open>A pointer to a time.\<close>

definition time_field :: "(instant \<Rightarrow> string) \<Rightarrow> instant option \<Rightarrow> go_field" where
  "time_field stamp t = FPointer (map_option (\<lambda>x. JString (stamp x)) t)"

definition encode_api_pod :: "(instant \<Rightarrow> string) \<Rightarrow> api_pod \<Rightarrow> json" where
  "encode_api_pod stamp p = encode_struct
     [(''name'', False, FString (ap_name p)), (''address'', True, FString (ap_address p)),
      (''containerPort'', True, FInt (ap_container_port p)), (''node'', True, FString (ap_node p)),
      (''workload'', True, FString (ap_workload p)), (''namespace'', True, FString (ap_namespace p)),
      (''migrating'', False, FBool (ap_migrating p)),
      (''checkpointReady'', False, FBool (ap_checkpoint_ready p)),
      (''restored'', False, FBool (ap_restored p)),
      (''processMigration'', False, FBool (ap_process_migration p)),
      (''volumeMigration'', False, FBool (ap_volume_migration p)),
      (''syncRound'', True, FInt (ap_sync_round p)), (''syncRounds'', True, FInt (ap_sync_rounds p)),
      (''registeredAt'', True, time_field stamp (ap_registered_at p)),
      (''lastSeen'', True, time_field stamp (ap_last_seen p))]"

definition encode_api_migration :: "(instant \<Rightarrow> string) \<Rightarrow> api_migration \<Rightarrow> json" where
  "encode_api_migration stamp m = encode_struct
     [(''name'', False, FString (am_name m)), (''namespace'', False, FString (am_namespace m)),
      (''workload'', False, FString (am_workload m)), (''podName'', True, FString (am_pod_name m)),
      (''sourceNode'', False, FString (am_source_node m)),
      (''targetNode'', False, FString (am_target_node m)), (''phase'', False, FString (am_phase m)),
      (''message'', True, FString (am_message m)), (''sourcePod'', True, FString (am_source_pod m)),
      (''destinationPod'', True, FString (am_destination_pod m)),
      (''processMigration'', False, FBool (am_process_migration m)),
      (''volumeMigration'', False, FBool (am_volume_migration m)),
      (''syncRound'', True, FInt (am_sync_round m)), (''syncRounds'', True, FInt (am_sync_rounds m)),
      (''startTime'', True, time_field stamp (am_start_time m)),
      (''completionTime'', True, time_field stamp (am_completion_time m))]"

definition encode_step :: "(instant \<Rightarrow> string) \<Rightarrow> hstep \<Rightarrow> json" where
  "encode_step stamp st = encode_struct
     [(''phase'', False, FString (st_phase st)), (''message'', True, FString (st_message st)),
      (''startedAt'', False, time_field stamp (Some (st_started_at st))),
      (''endedAt'', True, time_field stamp (st_ended_at st)),
      (''durationMs'', False, FInt (st_duration_ms st)), (''accessible'', False, FBool (st_accessible st))]"

definition encode_hrecord :: "(instant \<Rightarrow> string) \<Rightarrow> hrecord \<Rightarrow> json" where
  "encode_hrecord stamp r = encode_struct
     [(''name'', False, FString (hr_name r)), (''namespace'', False, FString (hr_namespace r)),
      (''workload'', True, FString (hr_workload r)), (''sourcePod'', True, FString (hr_source_pod r)),
      (''destinationPod'', True, FString (hr_destination_pod r)),
      (''sourceNode'', True, FString (hr_source_node r)), (''targetNode'', True, FString (hr_target_node r)),
      (''processMigration'', False, FBool (hr_process_migration r)),
      (''volumeMigration'', False, FBool (hr_volume_migration r)),
      (''phase'', False, FString (hr_phase r)), (''message'', True, FString (hr_message r)),
      (''accessible'', False, FBool (hr_accessible r)),
      (''startedAt'', False, time_field stamp (Some (hr_started_at r))),
      (''completedAt'', True, time_field stamp (hr_completed_at r)),
      (''totalMs'', False, FInt (hr_total_ms r)), (''downtimeMs'', False, FInt (hr_downtime_ms r)),
      (''steps'', False, FPointer (Some (JArray (map (encode_step stamp) (hr_steps r))))),
      (''seeded'', True, FBool (hr_seeded r))]"

definition encode_summary :: "('f \<Rightarrow> json) \<Rightarrow> 'f summary \<Rightarrow> json" where
  "encode_summary float_json s = encode_struct
     [(''total'', False, FInt (su_total s)), (''active'', False, FInt (su_active s)),
      (''completed'', False, FInt (su_completed s)), (''failed'', False, FInt (su_failed s)),
      (''successRate'', False, FPointer (Some (float_json (su_success_rate s)))),
      (''avgTotalMs'', False, FInt (su_avg_total_ms s)),
      (''avgDowntimeMs'', False, FInt (su_avg_downtime_ms s)),
      (''phaseAvgMs'', False, FPointer (Some (JObject
         (map (\<lambda>k. (to_utf8 k, JInt (the (fmlookup (su_phase_avg_ms s) k))))
            (sorted_list_of_fset (fmdom (su_phase_avg_ms s)))))))]"

fun encode_body :: "(instant \<Rightarrow> string) \<Rightarrow> ('f \<Rightarrow> json) \<Rightarrow> 'f body \<Rightarrow> json" where
  "encode_body stamp float_json (BError e) = json_strings [(''error'', e)]"
| "encode_body stamp float_json (BStatus s) = json_strings [(''status'', s)]"
| "encode_body stamp float_json (BMessage m) = encode_message m"
| "encode_body stamp float_json (BRemove r) = encode_remove_response r"
| "encode_body stamp float_json (BCopyInitiated n) = json_strings [(''pod'', n), (''status'', ''copy_initiated'')]"
| "encode_body stamp float_json (BSyncRecorded n rnd left) = encode_struct
     [(''pod'', False, FString n), (''remaining'', False, FInt left), (''round'', False, FInt rnd),
      (''status'', False, FString ''sync_recorded'')]"
| "encode_body stamp float_json (BRestored n) = json_strings [(''pod'', n), (''status'', ''restored'')]"
| "encode_body stamp float_json (BPoll r) = encode_poll_response r"
| "encode_body stamp float_json (BMigrationStarted workload mig ns) = json_strings
     [(''deployment'', workload), (''migration'', mig), (''namespace'', ns),
      (''status'', ''migration_started''), (''workload'', workload)]"
| "encode_body stamp float_json (BLegacyPods ps) = JArray (map encode_legacy_pod ps)"
| "encode_body stamp float_json (BPods ps) = JObject [(''pods'', JArray (map (encode_api_pod stamp) ps))]"
| "encode_body stamp float_json (BNodes ns) =
     JObject [(''nodes'', JArray (map (\<lambda>n. json_strings [(''name'', n)]) ns))]"
| "encode_body stamp float_json (BMigrations ms) =
     JObject [(''migrations'', JArray (map (encode_api_migration stamp) ms))]"
| "encode_body stamp float_json BHistoryOff = encode_struct [(''enabled'', False, FBool False)]"
| "encode_body stamp float_json (BHistory s rs) = JObject
     [(''enabled'', JBool True), (''migrations'', JArray (map (encode_hrecord stamp) rs)),
      (''summary'', encode_summary float_json s)]"
| "encode_body stamp float_json (BHistoryConfig b) = encode_struct [(''enabled'', False, FBool b)]"

section \<open>Routing\<close>

text \<open>The method, the cleaned path, the parameters of the query and the body of a request.\<close>

record http_request =
  hq_method :: string
  hq_path :: string
  hq_query :: "string \<Rightarrow> string"
  hq_body :: "json option"

text \<open>A pattern for GET serves HEAD too; a path that ends with a slash stands for what is below it.\<close>

definition method_matches :: "string \<Rightarrow> string \<Rightarrow> bool" where
  "method_matches m meth \<longleftrightarrow> m = meth \<or> m = ''GET'' \<and> meth = ''HEAD''"

definition ends_in_slash :: "string \<Rightarrow> bool" where
  "ends_in_slash p \<longleftrightarrow> p \<noteq> [] \<and> last p = CHR ''/''"

definition path_matches :: "string \<Rightarrow> string \<Rightarrow> bool" where
  "path_matches pat p \<longleftrightarrow> p = pat \<or> ends_in_slash pat \<and> has_prefix p pat"

datatype routed = RouteTo endpoint | RedirectTo string | MethodNotAllowed | RouteNotFound

definition route :: "server \<Rightarrow> string \<Rightarrow> string \<Rightarrow> routed" where
  "route sv meth p =
     (case find (\<lambda>(m, pat, _). method_matches m meth \<and> path_matches pat p) (routes sv) of
        Some (_, _, e) \<Rightarrow> RouteTo e
      | None \<Rightarrow>
          (let below = (\<lambda>pat. \<not> ends_in_slash p \<and> pat = p @ ''/'') in
           if list_ex (\<lambda>(m, pat, _). method_matches m meth \<and> below pat) (routes sv) then RedirectTo (p @ ''/'')
           else if list_ex (\<lambda>(_, pat, _). path_matches pat p \<or> below pat) (routes sv) then MethodNotAllowed
           else RouteNotFound))"

text \<open>What the handler of an endpoint reads of a request; the dashboard's files have no handler here.\<close>

fun request_of :: "endpoint \<Rightarrow> http_request \<Rightarrow> request option" where
  "request_of EHealthz rq = Some Healthz"
| "request_of EReady rq = Some Ready"
| "request_of ERegister rq = Some (Register (Option.bind (hq_body rq) decode_message))"
| "request_of ERemove rq = Some (Remove (Option.bind (hq_body rq) decode_pod_name))"
| "request_of ECopy rq = Some (Copy (Option.bind (hq_body rq) decode_copy))"
| "request_of EMigrate rq = Some (Migrate (Option.bind (hq_body rq) decode_migrate))"
| "request_of ESync rq = Some (Sync (Option.bind (hq_body rq) decode_sync))"
| "request_of ERestored rq = Some (Restored (Option.bind (hq_body rq) decode_pod_name))"
| "request_of EPoll rq = Some (Poll (hq_query rq ''podName''))"
| "request_of ELegacyPods rq = Some LegacyPods"
| "request_of EApiPods rq = Some ApiPods"
| "request_of EApiNodes rq = Some ApiNodes"
| "request_of EApiMigrations rq = Some ApiMigrations"
| "request_of EHistory rq = Some HistoryGet"
| "request_of EHistoryConfigGet rq = Some HistoryConfigGet"
| "request_of EHistoryConfigSet rq = Some (HistoryConfigSet (Option.bind (hq_body rq) decode_enabled))"
| "request_of EDashboard rq = None"

section \<open>The server\<close>

text \<open>The status of an answer and its JSON body, if it is one. \<open>assets\<close>: the dashboard's files.\<close>

definition serve_http ::
    "('c, 'l, 's) kube \<Rightarrow> server \<Rightarrow> (int \<Rightarrow> int \<Rightarrow> 'f::zero) \<Rightarrow> (instant \<Rightarrow> string) \<Rightarrow> ('f \<Rightarrow> json) \<Rightarrow>
     (string \<Rightarrow> nat) \<Rightarrow> rest_clock \<Rightarrow> (registry \<Rightarrow> registry) \<Rightarrow> http_request \<Rightarrow> 'c world \<Rightarrow>
     (nat \<times> json option) \<times> 'c world" where
  "serve_http K sv fdiv stamp float_json assets ck mid rq w =
     (case route sv (hq_method rq) (hq_path rq) of
        RouteNotFound \<Rightarrow> ((404, None), w)
      | MethodNotAllowed \<Rightarrow> ((405, None), w)
      | RedirectTo _ \<Rightarrow> ((301, None), w)
      | RouteTo e \<Rightarrow>
          (case request_of e rq of
             None \<Rightarrow> ((assets (hq_path rq), None), w)
           | Some req \<Rightarrow>
               (case serve K sv fdiv ck mid req w of
                  (Response code b, w') \<Rightarrow> ((code, Some (encode_body stamp float_json b)), w'))))"

end
