(* ===== verification/RegistryTypes.thy ===== *)
theory RegistryTypes
  imports HttpApi RestSpec
begin

text \<open>
  Types of the registry's values: the numbers that the model keeps as integers are 64-bit ones, and
  the strings that come in as JSON are UTF-8, so that they leave as they are. Every operation of the
  registry keeps this for arguments that have it, and every HTTP request has such arguments.
\<close>

section \<open>UTF-8 of composed strings\<close>

lemma bytes_within_more: "bytes_within rs s \<Longrightarrow> bytes_within rs (s @ t)"
  by (induction rs s rule: bytes_within.induct) auto

lemma rune_rest_more: "rune_rest c s = Some n \<Longrightarrow> rune_rest c (s @ t) = Some n \<and> n \<le> length s"
  using bytes_within_more bytes_within_length by (auto simp: rune_rest_def split: option.splits if_splits)

lemma valid_utf8_append [intro]: "valid_utf8 s \<Longrightarrow> valid_utf8 t \<Longrightarrow> valid_utf8 (s @ t)"
proof (induction s rule: valid_utf8.induct)
  case (2 c s)
  then obtain n where n: "rune_rest c s = Some n" by (auto simp: valid_utf8.simps(2) split: option.splits)
  with 2 rune_rest_more [OF n, of t] show ?case by (simp add: valid_utf8.simps(2))
qed simp

lemma nat_digits_ascii: "list_all (\<lambda>c. of_char c < (128 :: nat)) (nat_digits n)"
proof (induction n rule: nat_digits.induct)
  case (1 n)
  have "of_char (digit d) < (128 :: nat)" if "d < 10" for d using that by (simp add: digit_def)
  with 1 show ?case by (subst nat_digits.simps) auto
qed

lemma valid_utf8_itoa [simp]: "valid_utf8 (itoa n)"
proof -
  have "list_all (\<lambda>c. of_char c < (128 :: nat)) (itoa n)"
    using nat_digits_ascii by (simp add: itoa_def)
  then show ?thesis by (rule valid_utf8_ascii)
qed

lemma valid_utf8_ascii_Cons [simp]: "of_char c < (128 :: nat) \<Longrightarrow> valid_utf8 (c # s) = valid_utf8 s"
  by (simp add: valid_utf8.simps(2) rune_rest_def after_first_def)

lemma valid_utf8_endpoint: "valid_utf8 a \<Longrightarrow> valid_utf8 (join_host_port a p)"
  by (auto simp: join_host_port_def net_join_host_port_def Let_def split: option.split intro!: valid_utf8_append)

section \<open>Typed records\<close>

definition typed_record :: "pod_record \<Rightarrow> bool" where
  "typed_record rec \<longleftrightarrow>
     list_all in_i64 [pr_container_port rec, pr_sync_rounds rec, pr_sync_round rec, pr_registrations rec] \<and>
     list_all valid_utf8 [pr_name rec, pr_address rec, pr_last_address rec, pr_node rec,
       pr_workload_namespace rec, pr_workload_name rec, pr_checkpoint_dir rec, pr_dest_address rec]"

definition typed_registry :: "registry \<Rightarrow> bool" where
  "typed_registry m \<longleftrightarrow> (\<forall>n rec. fmlookup m n = Some rec \<longrightarrow> typed_record rec)"

lemma typed_registryD: "typed_registry m \<Longrightarrow> fmlookup m n = Some rec \<Longrightarrow> typed_record rec"
  by (simp add: typed_registry_def)

lemma typed_new [simp]: "typed_registry new_registry"
  by (simp add: typed_registry_def reg_simps)

lemma typed_upd: "typed_registry m \<Longrightarrow> typed_record rec \<Longrightarrow> typed_registry (fmupd n rec m)"
  by (simp add: typed_registry_def)

text \<open>Arguments of the registry's operations.\<close>

fun typed_op :: "reg_op \<Rightarrow> bool" where
  "typed_op (OpRegister now n a p) \<longleftrightarrow> valid_utf8 n \<and> valid_utf8 a \<and> in_i64 p"
| "typed_op (OpArm now n info) \<longleftrightarrow>
     valid_utf8 n \<and> valid_utf8 (ai_checkpoint_dir info) \<and> in_i64 (ai_sync_rounds info)"
| "typed_op (OpSync n k) \<longleftrightarrow> in_i64 k"
| "typed_op (OpCopy n d) \<longleftrightarrow> valid_utf8 d"
| "typed_op (OpSetWorkload n ns wl) \<longleftrightarrow> valid_utf8 ns \<and> valid_utf8 wl"
| "typed_op (OpSetNode n nd) \<longleftrightarrow> valid_utf8 nd"
| "typed_op (OpSeed recs) \<longleftrightarrow> list_all typed_record recs"
| "typed_op _ \<longleftrightarrow> True"

lemma typed_zero: "valid_utf8 n \<Longrightarrow> typed_record (zero_pod_record\<lparr>pr_name := n, pr_registered_at := now\<rparr>)"
  by (simp add: typed_record_def zero_pod_record_def in_i64_def)

lemma typed_register_update:
  "typed_record rec \<Longrightarrow> valid_utf8 a \<Longrightarrow> in_i64 p \<Longrightarrow> typed_record (register_update now a p rec)"
  by (simp add: typed_record_def register_update_def Let_def valid_utf8_endpoint)

lemma typed_seed: "typed_registry m \<Longrightarrow> list_all typed_record recs \<Longrightarrow> typed_registry (seed_records recs m)"
  by (induction recs arbitrary: m) (auto intro!: typed_upd split: option.split)

lemma typed_step:
  assumes m: "typed_registry m" and op: "typed_op op"
  shows "typed_registry (reg_step m op)"
proof (cases op)
  case (OpRegister now n a p)
  have "typed_record (zero_pod_record\<lparr>pr_name := n, pr_address := a, pr_container_port := p,
                pr_registrations := 1, pr_registered_at := now, pr_last_seen := now\<rparr>)"
    using op OpRegister by (simp add: typed_record_def zero_pod_record_def in_i64_def)
  then show ?thesis
    using m op OpRegister typed_registryD [OF m]
    by (auto simp: register_def intro!: typed_upd typed_register_update split: option.split)
next
  case (OpArm now n info)
  have "typed_record (arm_update info rec)" if "typed_record rec" for rec
    using that op OpArm by (simp add: typed_record_def arm_update_def Let_def)
  then show ?thesis
    using m op OpArm typed_registryD [OF m]
    by (auto simp: arm_def Let_def intro!: typed_upd typed_zero split: option.split)
next
  case (OpSeed recs)
  with m op show ?thesis by (simp add: typed_seed)
qed (use m op in \<open>auto simp: typed_registry_def typed_record_def delete_record_def disarm_def disarm_update_def
    update_known_def record_sync_round_def mark_checkpoint_ready_def mark_restored_def set_workload_def
    set_node_def Let_def in_i64_def split: option.splits if_splits\<close>)

interpretation typedm: machine reg_step typed_registry typed_op
  by unfold_locales (rule typed_step)

section \<open>Requests\<close>

text \<open>What is decoded from a valid body.\<close>

lemma decoded_typed:
  "decode_message j = Some msg \<Longrightarrow> valid_json j \<Longrightarrow>
     valid_utf8 (me_pod_name msg) \<and> valid_utf8 (me_pod_address msg) \<and> in_i64 (me_container_port msg)"
  "decode_copy j = Some (n, d) \<Longrightarrow> valid_json j \<Longrightarrow> valid_utf8 n \<and> valid_utf8 d"
  "decode_sync j = Some (n, k) \<Longrightarrow> valid_json j \<Longrightarrow> in_i64 k"
proof -
  show "valid_utf8 (me_pod_name msg) \<and> valid_utf8 (me_pod_address msg) \<and> in_i64 (me_container_port msg)"
    if "decode_message j = Some msg" "valid_json j"
    using decode_struct_keeps [OF that(1) [unfolded decode_message_def] that(2),
        where P = "\<lambda>m. valid_utf8 (me_pod_name m) \<and> valid_utf8 (me_pod_address m) \<and> in_i64 (me_container_port m)"]
    by (simp add: message_fields_def zero_message_def in_i64_def)
  show "valid_utf8 n \<and> valid_utf8 d" if "decode_copy j = Some (n, d)" "valid_json j"
    using decode_struct_keeps [OF that(1) [unfolded decode_copy_def] that(2),
        where P = "\<lambda>(n, d). valid_utf8 n \<and> valid_utf8 d"]
    by simp
  show "in_i64 k" if "decode_sync j = Some (n, k)" "valid_json j"
    using decode_struct_keeps [OF that(1) [unfolded decode_sync_def] that(2), where P = "\<lambda>(n, k). in_i64 k"]
    by (simp add: in_i64_def)
qed

text \<open>The handlers that change the registry do so by one typed operation, besides \<open>mid\<close>.\<close>

lemma typed_register:
  "typed_registry m \<Longrightarrow> valid_utf8 n \<Longrightarrow> valid_utf8 a \<Longrightarrow> in_i64 p \<Longrightarrow> typed_registry (snd (register now n a p m))"
  using typed_step [of m "OpRegister now n a p"] by simp

lemma typed_sync: "typed_registry m \<Longrightarrow> in_i64 k \<Longrightarrow> typed_registry (snd (record_sync_round n k m))"
  using typed_step [of m "OpSync n k"] by simp

lemma typed_copy: "typed_registry m \<Longrightarrow> valid_utf8 d \<Longrightarrow> typed_registry (snd (mark_checkpoint_ready n d m))"
  using typed_step [of m "OpCopy n d"] by simp

lemma typed_restored: "typed_registry m \<Longrightarrow> typed_registry (snd (mark_restored n m))"
  using typed_step [of m "OpRestored n"] by simp

lemma read_body:
  "x = Option.bind body f \<Longrightarrow> x = Some y \<Longrightarrow> pred_option P body \<Longrightarrow> \<exists>j. f j = Some y \<and> P j"
  by (cases body) auto

lemma typed_serve:
  assumes m: "typed_registry (w_registry w)" and mid: "\<And>m. typed_registry m \<Longrightarrow> typed_registry (mid m)"
    and body: "pred_option valid_json (hq_body rq)" and rq: "request_of e rq = Some req"
  shows "typed_registry (w_registry (snd (serve K sv fdiv ck mid req w)))"
proof (cases req)
  case (Register q)
  then have e: "q = Option.bind (hq_body rq) decode_message" using rq by (cases e) auto
  have "typed_registry (snd (handle_register now mid q (w_registry w)))" for now
  proof (cases q)
    case (Some msg)
    have "valid_utf8 (me_pod_name msg) \<and> valid_utf8 (me_pod_address msg) \<and> in_i64 (me_container_port msg)"
      using read_body [OF e Some body] decoded_typed(1) by blast
    with Some m show ?thesis
      using mid typed_register by (auto simp: handle_register_def Let_def case_prod_unfold)
  qed (simp add: handle_register_def m)
  with Register show ?thesis by (simp add: case_prod_unfold)
next
  case (Copy q)
  then have e: "q = Option.bind (hq_body rq) decode_copy" using rq by (cases e) auto
  have "typed_registry (snd (handle_copy q (w_registry w)))"
  proof (cases q)
    case (Some nd)
    obtain n d where nd: "nd = (n, d)" by (cases nd)
    then have "valid_utf8 d" using read_body [OF e Some body] decoded_typed(2) by blast
    from typed_copy [OF m this, of n] Some nd show ?thesis
      by (auto simp: handle_copy_def split: prod.splits bool.splits)
  qed (simp add: handle_copy_def m)
  with Copy show ?thesis by (simp add: case_prod_unfold)
next
  case (Sync q)
  then have e: "q = Option.bind (hq_body rq) decode_sync" using rq by (cases e) auto
  have "typed_registry (snd (handle_sync mid q (w_registry w)))"
  proof (cases q)
    case (Some nk)
    obtain n k where nk: "nk = (n, k)" by (cases nk)
    then have "in_i64 k" using read_body [OF e Some body] decoded_typed(3) by blast
    from typed_sync [OF m this, of n] Some nk mid show ?thesis
      by (auto simp: handle_sync_def Let_def split: prod.splits bool.splits)
  qed (simp add: handle_sync_def m)
  with Sync show ?thesis by (simp add: case_prod_unfold)
next
  case (Restored q)
  have "typed_registry (snd (handle_restored q (w_registry w)))"
    using typed_restored [OF m] m
    by (cases q; cases "mark_restored (the q) (w_registry w)")
      (auto simp: handle_restored_def split: bool.split dest!: spec [of _ "the q"], (metis snd_conv)+)
  with Restored show ?thesis by (simp add: case_prod_unfold)
qed (simp_all add: m on_cluster_def case_prod_unfold)

text \<open>
  Whatever request reaches the API, to whatever path, by whatever method and with whatever
  body, the registry keeps to its types: every number fits 64 bits and every string is UTF-8, so
  that it is answered as it was registered.
\<close>

lemma requests_keep_registry_typed:
  assumes "typed_registry (w_registry w)" and "\<And>m. typed_registry m \<Longrightarrow> typed_registry (mid m)"
    and "pred_option valid_json (hq_body rq)"
  shows "typed_registry (w_registry (snd (serve_http K sv fdiv stamp float_json assets ck mid rq w)))"
proof -
  have "typed_registry (w_registry (snd (serve K sv fdiv ck mid req w)))"
    if "request_of e rq = Some req" for e req
    using typed_serve [OF assms(1,2,3) that] .
  then show ?thesis
    using assms(1) by (auto simp: serve_http_def split: routed.split option.split prod.split response.split)
      (metis snd_conv)
qed

end
