(* ===== verification/AgentWire.thy ===== *)
theory AgentWire
  imports RegistryTypes AgentMainSpec
begin

text \<open>
  The agent's side of the HTTP API: the bodies it sends and how it reads the answers (the tags of the
  structs in \<open>go-agent/main.go\<close> and \<open>utils/system.go\<close>, which are not those of the operator), and
  that over the operator's server its calls are the ones of theories AgentMain and EndContainer,
  where the coordinator's handlers are called directly.
\<close>

section \<open>The agent's structs\<close>

text \<open>
  The agent's \<open>Message\<close> has no checkpoint directory and no sync rounds, and leaves out mechanisms
  that are off.
\<close>

definition encode_agent_message :: "message \<Rightarrow> json" where
  "encode_agent_message m = encode_struct
     [(''podName'', False, FString (me_pod_name m)),
      (''podAddress'', False, FString (me_pod_address m)),
      (''containerPort'', True, FInt (me_container_port m)),
      (''isNew'', False, FBool (me_is_new m)),
      (''isMig'', False, FBool (me_is_mig m)),
      (''processMigration'', True, FBool (me_process_migration m)),
      (''volumeMigration'', True, FBool (me_volume_migration m))]"

definition decode_agent_message :: "json \<Rightarrow> message option" where
  "decode_agent_message = decode_struct
     [(''podName'', SetString (\<lambda>v m. m\<lparr>me_pod_name := v\<rparr>)),
      (''podAddress'', SetString (\<lambda>v m. m\<lparr>me_pod_address := v\<rparr>)),
      (''containerPort'', SetInt (\<lambda>n m. m\<lparr>me_container_port := n\<rparr>)),
      (''isNew'', SetBool (\<lambda>b m. m\<lparr>me_is_new := b\<rparr>)),
      (''isMig'', SetBool (\<lambda>b m. m\<lparr>me_is_mig := b\<rparr>)),
      (''processMigration'', SetBool (\<lambda>b m. m\<lparr>me_process_migration := b\<rparr>)),
      (''volumeMigration'', SetBool (\<lambda>b m. m\<lparr>me_volume_migration := b\<rparr>))] zero_message"

definition encode_remove_request :: "string \<Rightarrow> json" where
  "encode_remove_request pod = encode_struct [(''podName'', False, FString pod)]"

definition zero_remove_response :: remove_response where
  "zero_remove_response =
     \<lparr>rr_needs_checkpoint = False, rr_process_migration = False, rr_volume_migration = False, rr_dest_address = []\<rparr>"

definition decode_remove_response :: "json \<Rightarrow> remove_response option" where
  "decode_remove_response = decode_struct
     [(''needsCheckpoint'', SetBool (\<lambda>b r. r\<lparr>rr_needs_checkpoint := b\<rparr>)),
      (''processMigration'', SetBool (\<lambda>b r. r\<lparr>rr_process_migration := b\<rparr>)),
      (''volumeMigration'', SetBool (\<lambda>b r. r\<lparr>rr_volume_migration := b\<rparr>)),
      (''destAddress'', SetString (\<lambda>v r. r\<lparr>rr_dest_address := v\<rparr>))] zero_remove_response"

text \<open>The number of layers goes out, and the operator's struct has no field for it.\<close>

definition encode_copy_notification :: "string \<Rightarrow> string \<Rightarrow> int \<Rightarrow> json" where
  "encode_copy_notification pod dir layers = encode_struct
     [(''podName'', False, FString pod), (''checkpointDir'', False, FString dir), (''layerCount'', True, FInt layers)]"

section \<open>Calls over HTTP\<close>

definition post_request :: "string \<Rightarrow> json \<Rightarrow> http_request" where
  "post_request p j = \<lparr>hq_method = ''POST'', hq_path = p, hq_query = (\<lambda>_. []), hq_body = Some j\<rparr>"

text \<open>
  A coordinator on the network: a request and the registry before it give the answer and the
  registry after it.
\<close>

type_synonym coordinator = "agent \<Rightarrow> http_request \<Rightarrow> registry \<Rightarrow> (nat \<times> json option) \<times> registry"

definition post_json ::
    "string \<Rightarrow> action \<Rightarrow> (agent \<Rightarrow> registry \<Rightarrow> (nat \<times> json option) \<times> registry) \<Rightarrow> (json option, agent) io" where
  "post_json url act call a =
     (case next_outcome a of
        (Some e, b) \<Rightarrow> (Inl (wrap_err (''http post '' @ url) e), b\<lparr>a_log := a_log b @ [(act, False)]\<rparr>)
      | (None, b) \<Rightarrow>
          (case call b (a_registry b) of
             ((code, answer), m) \<Rightarrow>
               (let ok = (200 \<le> code \<and> code < 300);
                    b' = b\<lparr>a_registry := m, a_log := a_log b @ [(act, ok)]\<rparr>
                in if ok then (Inr answer, b')
                   else (Inl (errorf (url @ '' returned HTTP '' @ itoa (int code))), b'))))"

definition parse_with :: "(json \<Rightarrow> 'a option) \<Rightarrow> string \<Rightarrow> json option \<Rightarrow> ('a, agent) io" where
  "parse_with decode failure answer =
     (case Option.bind answer decode of None \<Rightarrow> throw (errorf failure) | Some x \<Rightarrow> ret x)"

definition register_over_http :: "coordinator \<Rightarrow> string \<Rightarrow> message \<Rightarrow> (message, agent) io" where
  "register_over_http C coord msg =
     andthen (wrapping ''Failed to register with Migration Coordinator''
       (post_json (coord @ ''/register'') (PostRegister msg)
         (\<lambda>b. C b (post_request ''/register'' (encode_agent_message msg)))))
     (parse_with decode_agent_message ''Failed to parse register response'')"

definition remove_over_http :: "coordinator \<Rightarrow> string \<Rightarrow> string \<Rightarrow> (remove_response, agent) io" where
  "remove_over_http C coord pod =
     andthen (wrapping ''POST /remove''
       (post_json (''http://'' @ coord @ ''/remove'') (PostRemove pod)
         (\<lambda>b. C b (post_request ''/remove'' (encode_remove_request pod)))))
     (parse_with decode_remove_response ''parse /remove response'')"

definition copy_over_http :: "coordinator \<Rightarrow> string \<Rightarrow> string \<Rightarrow> string \<Rightarrow> int \<Rightarrow> (unit, agent) io" where
  "copy_over_http C coord pod dir layers =
     andthen (wrapping ''POST /copy''
       (post_json (''http://'' @ coord @ ''/copy'') (PostCopy pod dir layers)
         (\<lambda>b. C b (post_request ''/copy'' (encode_copy_notification pod dir layers))))) (\<lambda>_. ret ())"

text \<open>The operator's server, seen from an agent.\<close>

definition operator ::
    "('c, 'l, 's) kube \<Rightarrow> server \<Rightarrow> (int \<Rightarrow> int \<Rightarrow> nat) \<Rightarrow> (instant \<Rightarrow> string) \<Rightarrow> (nat \<Rightarrow> json) \<Rightarrow>
     (string \<Rightarrow> nat) \<Rightarrow> (registry \<Rightarrow> registry) \<Rightarrow> 'c \<Rightarrow> store option \<Rightarrow> coordinator" where
  "operator K sv fdiv stamp float_json assets mid c h b rq m =
     (case serve_http K sv fdiv stamp float_json assets
             \<lparr>rc_now = a_clock b, rc_snapshot = a_clock b, rc_downtime = (\<lambda>_. a_clock b)\<rparr> mid rq
             \<lparr>w_cluster = c, w_registry = m, w_history = h\<rparr> of
        (answer, w) \<Rightarrow> (answer, w_registry w))"

section \<open>What is read of what is written\<close>

named_theorems wire \<open>writing and reading of structs on concrete fields\<close>

lemmas [wire] = encode_struct_def find_field_def

lemma agent_message_read:
  assumes "valid_utf8 (me_pod_name m)" and "valid_utf8 (me_pod_address m)" and "in_i64 (me_container_port m)"
  shows "decode_message (encode_agent_message m) = Some (m\<lparr>me_checkpoint_dir := [], me_sync_rounds := 0\<rparr>)"
  using assms
  by (cases m) (simp add: decode_message_def encode_agent_message_def message_fields_def zero_message_def wire)

lemma message_read:
  assumes "valid_utf8 (me_pod_name m)" and "valid_utf8 (me_pod_address m)" and "in_i64 (me_container_port m)"
  shows "decode_agent_message (encode_message m) = Some (m\<lparr>me_checkpoint_dir := [], me_sync_rounds := 0\<rparr>)"
  using assms
  by (cases m) (simp add: decode_agent_message_def encode_message_def zero_message_def wire)

lemma remove_request_read: "valid_utf8 pod \<Longrightarrow> decode_pod_name (encode_remove_request pod) = Some pod"
  by (simp add: decode_pod_name_def encode_remove_request_def wire)

lemma remove_response_read:
  "valid_utf8 (rr_dest_address r) \<Longrightarrow> decode_remove_response (encode_remove_response r) = Some r"
  by (cases r) (simp add: decode_remove_response_def encode_remove_response_def zero_remove_response_def wire)

lemma copy_read:
  "valid_utf8 pod \<Longrightarrow> valid_utf8 dir \<Longrightarrow> decode_copy (encode_copy_notification pod dir n) = Some (pod, dir)"
  by (simp add: decode_copy_def encode_copy_notification_def wire)

section \<open>The operator answers as its handlers do\<close>

lemma routes_of_agents:
  "route sv ''POST'' ''/register'' = RouteTo ERegister" "route sv ''POST'' ''/remove'' = RouteTo ERemove"
  "route sv ''POST'' ''/copy'' = RouteTo ECopy"
  by (simp_all add: route_def routes_def method_matches_def path_matches_def ends_in_slash_def)

text \<open>An answer as it is written.\<close>

definition written :: "(nat body \<Rightarrow> json) \<Rightarrow> nat response \<times> registry \<Rightarrow> (nat \<times> json option) \<times> registry" where
  "written enc r = (case r of (Response code b, m) \<Rightarrow> ((code, Some (enc b)), m))"

lemma operator_answers:
  assumes "C = operator K sv fdiv stamp float_json assets mid c h" and "enc = encode_body stamp float_json"
  shows "C b (post_request ''/register'' j) m = written enc (handle_register (a_clock b) mid (decode_message j) m)"
    and "C b (post_request ''/remove'' j) m = written enc (handle_remove (decode_pod_name j) m, m)"
    and "C b (post_request ''/copy'' j) m = written enc (handle_copy (decode_copy j) m)"
  using assms
  by (simp_all add: operator_def serve_http_def post_request_def routes_of_agents written_def
      split: prod.split response.split)

lemma post_json_run:
  assumes "\<And>b m. call b m = written enc (handler b m)"
  shows "post_json url act call a =
     (case post url act handler a of (Inl e, b) \<Rightarrow> (Inl e, b) | (Inr answer, b) \<Rightarrow> (Inr (Some (enc answer)), b))"
  using assms
  by (simp add: post_json_def post_def written_def Let_def split: prod.split option.split response.split)

text \<open>A call whose answers are read as they were written is the call of the handler.\<close>

lemma call_over_http:
  assumes call: "\<And>b m. call b m = written enc (handler b m)"
    and read: "\<And>answer b. post url act handler a = (Inr answer, b) \<Longrightarrow> \<exists>x. decode (enc answer) = Some x \<and> f answer = ret x"
  shows "andthen (wrapping pre (post_json url act call)) (parse_with decode failure) a =
         andthen (wrapping pre (post url act handler)) f a"
proof (cases "post url act handler a")
  case (Pair r b)
  show ?thesis
  proof (cases r)
    case (Inl e)
    with Pair show ?thesis by (simp add: andthen_def wrapping_def post_json_run [OF call])
  next
    case (Inr answer)
    with read Pair obtain x where "decode (enc answer) = Some x" "f answer = ret x" by blast
    with Inr Pair show ?thesis by (simp add: andthen_def wrapping_def post_json_run [OF call] parse_with_def)
  qed
qed

lemma typed_registry_get: "typed_registry m \<Longrightarrow> typed_record (get_or_zero n m)"
  by (auto simp: get_or_zero_def get_record_def zero_pod_record_def typed_record_def in_i64_def
      dest: typed_registryD split: option.split)

lemma typed_prev:
  "typed_registry m \<Longrightarrow> typed_record (fst (fst (register now n a p m)))"
  by (auto simp: register_def zero_pod_record_def typed_record_def in_i64_def
      dest: typed_registryD split: option.split)

text \<open>What the agent keeps of an answer to a registration.\<close>

definition agent_view :: "message \<Rightarrow> message" where
  "agent_view m = m\<lparr>me_checkpoint_dir := [], me_sync_rounds := 0\<rparr>"

text \<open>What an agent sends when it registers.\<close>

definition sendable :: "message \<Rightarrow> bool" where
  "sendable m \<longleftrightarrow> valid_utf8 (me_pod_name m) \<and> valid_utf8 (me_pod_address m) \<and> in_i64 (me_container_port m) \<and>
     me_checkpoint_dir m = [] \<and> me_sync_rounds m = 0"

lemma register_answer_sendable:
  assumes "handle_register now mid (Some msg) m = (Response code (BMessage r) :: nat response, m')"
    and "typed_registry m" and "sendable msg"
  shows "valid_utf8 (me_pod_name r) \<and> valid_utf8 (me_pod_address r) \<and> in_i64 (me_container_port r)"
  using assms typed_prev [OF assms(2), of now "me_pod_name msg" "me_pod_address msg" "me_container_port msg"]
  by (auto simp: handle_register_def Let_def case_prod_unfold zero_message_def sendable_def typed_record_def in_i64_def
      split: if_splits)

text \<open>
  C13: over HTTP and JSON the agent's calls are what they are when it calls the coordinator's
  handlers directly: the requests arrive as they were meant, although the two sides declare different
  structs, the answers are read as they were given, and errors are the same. Of the answer to a
  registration the agent only drops the fields that it does not know.
\<close>

theorem agent_calls_travel_over_http:
  assumes "C = operator K sv fdiv stamp float_json assets mid c h"
    and "typed_registry (registry_then a)" and "sendable msg" and "valid_utf8 pod" and "valid_utf8 dir"
  shows "register_over_http C coord msg a = andthen (post_register mid coord msg) (\<lambda>r. ret (agent_view r)) a \<and>
    remove_over_http C coord pod a = post_remove coord pod a \<and>
    copy_over_http C coord pod dir layers a = post_copy coord pod dir layers a"
proof (intro conjI)
  note ans = operator_answers [OF assms(1) refl]
  let ?enc = "encode_body stamp float_json"
  have msg: "decode_message (encode_agent_message msg) = Some msg"
    using assms(3) by (cases msg) (simp add: sendable_def agent_message_read)
  let ?reg = "\<lambda>b m. handle_register (a_clock b) mid (Some msg) m :: nat response \<times> registry"
  show "register_over_http C coord msg a = andthen (post_register mid coord msg) (\<lambda>r. ret (agent_view r)) a"
    unfolding register_over_http_def post_register_def andthen_assoc
  proof (rule call_over_http [where handler = ?reg and enc = ?enc])
    show "C b (post_request ''/register'' (encode_agent_message msg)) m = written ?enc (?reg b m)" for b m
      by (simp add: ans msg)
    fix answer b
    assume "post (coord @ ''/register'') (PostRegister msg) ?reg a = (Inr answer, b)"
    from post_run [OF this] obtain code where h: "200 \<le> code" "code < 300"
        "?reg (snd (next_outcome a)) (registry_then a) = (Response code answer, a_registry b)" by auto
    from handle_register_ok [OF h(3,1,2)] obtain r where r: "answer = BMessage r" by blast
    with register_answer_sendable [OF _ assms(2,3)] h(3) message_read [of r]
    show "\<exists>x. decode_agent_message (?enc answer) = Some x \<and>
        andthen (case answer of BMessage response \<Rightarrow> ret response
          | _ \<Rightarrow> throw (errorf ''Failed to parse register response'')) (\<lambda>r. ret (agent_view r)) = ret x"
      by (auto simp: agent_view_def)
  qed
  let ?rem = "\<lambda>b m. (handle_remove (Some pod) m, m) :: nat response \<times> registry"
  show "remove_over_http C coord pod a = post_remove coord pod a"
    unfolding remove_over_http_def post_remove_def
  proof (rule call_over_http [where handler = ?rem and enc = ?enc])
    show "C b (post_request ''/remove'' (encode_remove_request pod)) m = written ?enc (?rem b m)" for b m
      by (simp add: ans remove_request_read assms(4))
    fix answer b
    assume "post (''http://'' @ coord @ ''/remove'') (PostRemove pod) ?rem a = (Inr answer, b)"
    from post_run [OF this] obtain code where h: "200 \<le> code" "code < 300"
        "handle_remove (Some pod) (registry_then a) = Response code answer" by auto
    from handle_remove_ok [OF h(3,1,2)] obtain rec where
      rec: "get_record pod (registry_then a) = Some rec" "answer = BRemove (remove_answer rec)" by blast
    then have "valid_utf8 (rr_dest_address (remove_answer rec))"
      using typed_registryD [OF assms(2)] by (auto simp: get_record_def remove_answer_def typed_record_def)
    with rec(2) show "\<exists>x. decode_remove_response (?enc answer) = Some x \<and>
        (case answer of BRemove resp \<Rightarrow> ret resp | _ \<Rightarrow> throw (errorf ''parse /remove response'')) = ret x"
      by (simp add: remove_response_read)
  qed
  let ?copy = "\<lambda>b m. handle_copy (Some (pod, dir)) m :: nat response \<times> registry"
  have "C b (post_request ''/copy'' (encode_copy_notification pod dir layers)) m = written ?enc (?copy b m)" for b m
    by (simp add: ans copy_read assms(4,5))
  from post_json_run [OF this] show "copy_over_http C coord pod dir layers a = post_copy coord pod dir layers a"
    by (simp add: copy_over_http_def post_copy_def andthen_def wrapping_def split: prod.split sum.split)
qed

end
