(* ===== verification/VolumeTravel.thy ===== *)
theory VolumeTravel
  imports TargetSpec EndContainerSpec
begin

text \<open>
  A volume on its way from one machine to another: the source's preStop hook with all its rounds,
  the frames that leave it, and the target that receives them.
\<close>

section \<open>Frames that were sent\<close>

definition sent_frames :: "string \<Rightarrow> (action \<times> bool) list \<Rightarrow> (frame_header \<times> tar_entry list) list" where
  "sent_frames dest l = List.map_filter (\<lambda>x. case x of
       (SendFrame d h es, ok) \<Rightarrow> if d = dest \<and> ok then Some (h, es) else None | _ \<Rightarrow> None) l"

lemma sent_frames_append [simp]: "sent_frames dest (k @ l) = sent_frames dest k @ sent_frames dest l"
  by (simp add: sent_frames_def List.map_filter_def)

lemma sent_frames_Nil [simp]: "sent_frames dest [] = []"
  by (simp add: sent_frames_def List.map_filter_def)

lemma sent_frames_Cons [simp]:
  "sent_frames dest ((SendFrame e h es, ok) # l) =
     (if e = dest \<and> ok then (h, es) # sent_frames dest l else sent_frames dest l)"
  "sent_frames dest ((argv name args, ok) # l) = sent_frames dest l"
  "sent_frames dest ((PostRemove p, ok) # l) = sent_frames dest l"
  "sent_frames dest ((PostCopy p dir n, ok) # l) = sent_frames dest l"
  by (simp_all add: sent_frames_def List.map_filter_def argv_def)

lemma sent_frames_map:
  "sent_frames dest (map (\<lambda>n. (SendFrame dest (h n) (es n), True)) ns) = map (\<lambda>n. (h n, es n)) ns"
  by (induction ns) simp_all

lemma sent_frames_commands: "sent_frames dest (map (\<lambda>n. (argv name (args n), True)) ns) = []"
  by (induction ns) simp_all

section \<open>Archives that stay as they are\<close>

definition source_home :: "path \<Rightarrow> int \<Rightarrow> path" where
  "source_home d n = d @ [''u'' @ itoa n]"

definition same_below :: "path \<Rightarrow> tree \<Rightarrow> tree \<Rightarrow> bool" where
  "same_below s t t' \<longleftrightarrow> (\<forall>q. prefix s q \<longrightarrow> node_at t' q = node_at t q)"

lemma same_below_refl [simp]: "same_below s t t"
  by (simp add: same_below_def)

lemma same_below_trans: "same_below s t t' \<Longrightarrow> same_below s t' t'' \<Longrightarrow> same_below s t t''"
  by (simp add: same_below_def)

lemma tar_dir_there:
  assumes "wf_tree t" and "list_all plain s" and "dir_at t s"
  shows "tar_dir s t = tar_walk t s (walk_below t s)"
proof -
  obtain m where m: "node_at t s = Some (Dir m)" using assms(3) by (auto simp: dir_at_def)
  have "walk_to False t s = Inr s"
    by (rule walk_to_clear [OF assms(2)]) (use wf_tree_prefix [OF assms(1) m] in auto)
  with m show ?thesis by (simp add: tar_dir_def)
qed

lemma tar_dir_same:
  assumes "wf_tree t" and "wf_tree t'" and "list_all plain s" and "dir_at t s" and same: "same_below s t t'"
  shows "tar_dir s t' = tar_dir s t"
proof -
  have d: "dir_at t' s" using assms(4) same by (simp add: dir_at_def same_below_def)
  have at: "fmlookup t' q = fmlookup t q" if "strict_prefix s q" for q
  proof -
    from that have "q \<noteq> []" by auto
    moreover from that same have "node_at t' q = node_at t q" by (simp add: same_below_def strict_prefix_def)
    ultimately show ?thesis by (simp add: node_at_def)
  qed
  then have "ffilter (strict_prefix s) (fmdom t') = ffilter (strict_prefix s) (fmdom t)"
    by (auto simp: fset_eq_iff fmlookup_dom_iff)
  then have "walk_below t' s = walk_below t s" by (simp add: walk_below_def)
  moreover have "tar_walk t' s (walk_below t s) = tar_walk t s (walk_below t s)"
  proof (rule tar_walk_cong)
    fix p assume "p \<in> set (walk_below t s)"
    then have "strict_prefix s p" by (simp add: walk_below_def sorted_list_of_fset.rep_eq)
    with same show "node_at t' p = node_at t p" by (simp add: same_below_def strict_prefix_def)
  qed
  ultimately show ?thesis using tar_dir_there assms d by simp
qed

text \<open>A directory with nothing in it is an empty archive.\<close>

lemma tar_dir_empty:
  assumes "wf_tree t" and "list_all plain s" and "dir_at t s" and none: "\<And>q. strict_prefix s q \<Longrightarrow> node_at t q = None"
  shows "tar_dir s t = Inr []"
proof -
  have "fmlookup t q = None" if "strict_prefix s q" for q
    using none [OF that] that by (cases "q = []") (auto simp: node_at_def)
  then have "ffilter (strict_prefix s) (fmdom t) = {||}" by (auto simp: fset_eq_iff fmlookup_dom_iff)
  then show ?thesis using tar_dir_there [OF assms(1-3)] by (simp add: walk_below_def sorted_list_of_fset.rep_eq)
qed

section \<open>A volume ready to leave\<close>

definition unused_level :: "path \<Rightarrow> tree \<Rightarrow> int \<Rightarrow> bool" where
  "unused_level d t k \<longleftrightarrow>
     \<not> sent_at d t k \<and> (\<forall>p \<in> {''u'', ''w'', ''o''}. node_at t (d @ [p @ itoa k]) = None)"

text \<open>
  The data directory of a mounted volume: the writable layer is the highest and was not sent, nothing
  is there of later levels, and every layer can be archived.
\<close>

definition source_volume :: "layer_manager \<Rightarrow> path \<Rightarrow> agent \<Rightarrow> bool" where
  "source_volume lm d a \<longleftrightarrow>
     send_place lm d a \<and> canonical ''u'' d (a_tree a) \<and> a_level a \<in> ordinals ''u'' d (a_tree a) \<and>
     (\<forall>n \<in> ordinals ''u'' d (a_tree a). n \<le> a_level a \<and> \<not> isl (layer_archive d (a_tree a) n)) \<and>
     \<not> sent_at d (a_tree a) (a_level a) \<and> (\<forall>k > a_level a. unused_level d (a_tree a) k) \<and>
     (\<forall>p. node_at (a_tree a) p \<noteq> Some (Link []))"

text \<open>The layers that are still to be sent, the writable one last.\<close>

definition pending :: "path \<Rightarrow> agent \<Rightarrow> int list" where
  "pending d a = filter (\<lambda>n. \<not> sent_at d (a_tree a) n) (sorted_list_of_set (ordinals ''u'' d (a_tree a)))"

text \<open>What a step leaves of the layers.\<close>

definition layers_stay :: "path \<Rightarrow> agent \<Rightarrow> agent \<Rightarrow> bool" where
  "layers_stay d a b \<longleftrightarrow> ordinals ''u'' d (a_tree a) \<subseteq> ordinals ''u'' d (a_tree b) \<and>
     (\<forall>n \<in> ordinals ''u'' d (a_tree a). same_below (source_home d n) (a_tree a) (a_tree b))"

lemma layers_stay_trans: "layers_stay d a b \<Longrightarrow> layers_stay d b c \<Longrightarrow> layers_stay d a c"
  unfolding layers_stay_def by (meson same_below_trans subset_iff)

lemma sorted_up_to:
  fixes k :: int
  assumes "finite A" and "k \<in> A" and "\<And>n. n \<in> A \<Longrightarrow> n \<le> k"
  shows "sorted_list_of_set A = sorted_list_of_set (A - {k}) @ [k]"
proof (rule sorted_distinct_set_unique)
  show "sorted (sorted_list_of_set (A - {k}) @ [k])" using assms by (auto simp: sorted_append)
  show "set (sorted_list_of_set A) = set (sorted_list_of_set (A - {k}) @ [k])" using assms by auto
qed (use assms in auto)

lemma pending_top:
  assumes "source_volume lm d a"
  shows "pending d a = filter (unsent d a) (sorted_list_of_set (ordinals ''u'' d (a_tree a))) @ [a_level a]"
proof -
  let ?A = "ordinals ''u'' d (a_tree a)" and ?k = "a_level a"
  have k: "?k \<in> ?A" "\<And>n. n \<in> ?A \<Longrightarrow> n \<le> ?k" "\<not> sent_at d (a_tree a) ?k"
    using assms by (auto simp: source_volume_def)
  have l: "sorted_list_of_set ?A = sorted_list_of_set (?A - {?k}) @ [?k]"
    by (rule sorted_up_to) (use k in auto)
  have "filter (\<lambda>n. \<not> sent_at d (a_tree a) n) (sorted_list_of_set (?A - {?k})) =
        filter (unsent d a) (sorted_list_of_set (?A - {?k}))"
    by (rule filter_cong) (use k(2) in \<open>auto simp: unsent_def order_less_le\<close>)
  then show ?thesis using k(3) by (simp add: pending_def l unsent_def)
qed

lemma layer_tar: "layer_archive d t n = tar_dir (source_home d n) t"
  by (simp add: layer_archive_def source_home_def)

lemma source_home_plain: "data_place lm d a \<Longrightarrow> list_all plain (source_home d n)"
  using lm_dir_render(2) [where p = "''u''" and n = n] by (simp add: source_home_def data_place_def)

lemma same_archive:
  assumes "data_place lm d a" and "data_place lm d b" and "layers_stay d a b"
    and "n \<in> ordinals ''u'' d (a_tree a)"
  shows "layer_archive d (a_tree b) n = layer_archive d (a_tree a) n"
  unfolding layer_tar
  by (rule tar_dir_same)
     (use assms source_home_plain [OF assms(1)] in \<open>auto simp: data_place_def layers_stay_def ordinals_def source_home_def\<close>)

section \<open>Freezing the writable layer\<close>

definition archive_of :: "path \<Rightarrow> tree \<Rightarrow> int \<Rightarrow> tar_entry list" where
  "archive_of d t n = (case layer_archive d t n of Inl _ \<Rightarrow> [] | Inr es \<Rightarrow> es)"

lemma level_dirs_apart [simp]:
  "prefix (d @ [CHR ''u'' # s]) (d @ [CHR ''w'' # s']) = False" "prefix (d @ [CHR ''u'' # s]) (d @ [CHR ''o'' # s']) = False"
  by (simp_all add: prefix_append)

lemma freeze_quiet:
  assumes src: "source_volume lm d a" and i64: "in_i64 (a_level a + 1)"
  shows "\<exists>b. create_checkpoint lm a = (Inr (a_level a), b) \<and> source_volume lm d b \<and>
    a_level b = a_level a + 1 \<and> sent_frames dest (a_log b) = sent_frames dest (a_log a) \<and>
    pending d b = pending d a @ [a_level a + 1] \<and> layers_stay d a b \<and>
    archive_of d (a_tree b) (a_level a + 1) = []"
proof -
  let ?k = "a_level a + 1" and ?t = "a_tree a"
  have place: "send_place lm d a" and can: "canonical ''u'' d ?t" and none: "\<And>k. a_level a < k \<Longrightarrow> unused_level d ?t k"
    and top: "a_level a \<in> ordinals ''u'' d ?t" "\<And>n. n \<in> ordinals ''u'' d ?t \<Longrightarrow> n \<le> a_level a"
    using src by (auto simp: source_volume_def)
  have dp: "data_place lm d a" and q: "a_script a = []" and wf: "wf_tree ?t"
    using place by (simp_all add: send_place_def data_place_def)
  have pos: "0 < a_level a" using top(1) by (simp add: ordinals_def)
  have free: "level_free d a ?k" using none [of ?k] by (auto simp: level_free_def unused_level_def)
  from mk_level_dirs_quiet [OF dp free] obtain t' where
    mk: "mk_level_dirs lm ?k a = (Inr (), a\<lparr>a_tree := t'\<rparr>)" and dp': "data_place lm d (a\<lparr>a_tree := t'\<rparr>)"
    and new: "dir_at t' (d @ [''u'' @ itoa ?k])"
    and old0: "\<forall>q. (\<forall>p \<in> {''u'', ''w'', ''o''}. \<not> prefix q (d @ [p @ itoa ?k])) \<longrightarrow> node_at t' q = node_at ?t q"
    and dirs0: "\<forall>p \<in> {''u'', ''w'', ''o''}. \<forall>q. prefix q (d @ [p @ itoa ?k]) \<longrightarrow> dir_at t' q"
    by (elim exE conjE)
  have old: "node_at t' q = node_at ?t q" if "\<forall>p \<in> {''u'', ''w'', ''o''}. \<not> prefix q (d @ [p @ itoa ?k])" for q
    using old0 that by simp
  have all_dirs: "dir_at t' q" if "p \<in> {''u'', ''w'', ''o''}" "prefix q (d @ [p @ itoa ?k])" for p q
    using dirs0 that by blast
  let ?log = "a_log a @ [(mount_action lm ?k (lm_dir lm ''o'' (a_level a)), True), (unbind_action lm, True), (bind_action lm ?k, True)]"
  let ?b = "a\<lparr>a_tree := t', a_level := ?k, a_log := ?log\<rparr>"
  have run: "create_checkpoint lm a = (Inr (a_level a), ?b)"
    using mk q pos
    by (simp add: create_checkpoint_def andthen_def get_level_def set_level_def mount_level_def
        unbind_root_def bind_level_def wrapping_def quiet_command Let_def mount_action_def unbind_action_def bind_action_def)
  have other: "node_at t' q = node_at ?t q" if "q = d @ [c] \<or> prefix (d @ [c]) q" and "\<forall>p \<in> {''u'', ''w'', ''o''}. c \<noteq> p @ itoa ?k" for c q
  proof (rule old, intro ballI notI)
    fix p assume p: "p \<in> {''u'', ''w'', ''o''}" "prefix q (d @ [p @ itoa ?k])"
    with that(1) have "prefix (d @ [c]) (d @ [p @ itoa ?k])" using prefix_order.order_trans by blast
    with p(1) that(2) show False by (auto simp: prefix_append)
  qed
  have dirs_way: "dir_at t' d" using all_dirs [of "''u''" d] by simp
  have mark: "node_at t' (d @ [marker n]) = node_at ?t (d @ [marker n])" for n
    by (rule other [where c = "marker n"]) (auto simp: marker_def)
  have sent: "sent_at d t' n = sent_at d ?t n" for n by (simp add: sent_at_def mark)
  have keep: "node_at t' q = node_at ?t q" if "prefix (source_home d n) q" "n \<noteq> ?k" for n q
    by (rule other [where c = "''u'' @ itoa n"]) (use that in \<open>auto simp: source_home_def itoa_inject\<close>)
  have dirs: "dir_at t' (d @ [''u'' @ s]) \<longleftrightarrow> s = itoa ?k \<or> dir_at ?t (d @ [''u'' @ s])" for s
    using other [of "d @ [''u'' @ s]" "''u'' @ s"] new by (cases "s = itoa ?k") (auto simp: dir_at_def)
  have ords: "ordinals ''u'' d t' = insert ?k (ordinals ''u'' d ?t)"
    using dirs i64 pos by (auto simp: ordinals_def itoa_inject)
  have can': "canonical ''u'' d t'"
    unfolding canonical_def
  proof (intro allI impI)
    fix name n
    assume dir: "dir_at t' (d @ [name])" and o: "ordinal_of ''u'' (name, True) = Some n"
    then obtain s where s: "name = ''u'' @ s" by (auto simp: ordinal_of_iff has_prefix_iff)
    show "name = ''u'' @ itoa n"
    proof (cases "s = itoa ?k")
      case True
      with o s i64 show ?thesis by (simp add: ordinal_of_iff atoi_itoa)
    next
      case False
      with dir s dirs have "dir_at ?t (d @ [name])" by simp
      with can o show ?thesis by (simp add: canonical_def)
    qed
  qed
  have no_links: "node_at t' q \<noteq> Some (Link [])" for q
  proof (cases "\<forall>p \<in> {''u'', ''w'', ''o''}. \<not> prefix q (d @ [p @ itoa ?k])")
    case True
    with old [OF this] src show ?thesis by (simp add: source_volume_def)
  next
    case False
    then obtain p where p: "p \<in> {''u'', ''w'', ''o''}" "prefix q (d @ [p @ itoa ?k])" by blast
    with all_dirs have "dir_at t' q" by blast
    then show ?thesis by (auto simp: dir_at_def)
  qed
  have below: "node_at t' q = None" if "strict_prefix (source_home d ?k) q" for q
  proof -
    have "node_at ?t (source_home d ?k) = None"
      using none [of ?k] by (simp add: unused_level_def source_home_def)
    then have "node_at ?t q = None"
      using wf_tree_prefix [OF wf _ that] by (cases "node_at ?t q") (auto simp: dir_at_def)
    moreover have "node_at t' q = node_at ?t q"
    proof (rule old, intro ballI notI)
      fix p assume p: "p \<in> {''u'', ''w'', ''o''}" "prefix q (d @ [p @ itoa ?k])"
      from prefix_length_le [OF this(2)] prefix_length_less [OF that] show False
        by (simp add: source_home_def)
    qed
    ultimately show ?thesis by simp
  qed
  have place': "send_place lm d ?b"
    using place dp' dirs_way by (auto simp: send_place_def data_place_def mark)
  have stay: "layers_stay d a ?b"
    using ords top keep by (fastforce simp: layers_stay_def same_below_def)
  have new_arch: "layer_archive d t' ?k = Inr []"
  proof -
    have "wf_tree t'" "dir_at t' (source_home d ?k)" using dp' new by (simp_all add: data_place_def source_home_def)
    from tar_dir_empty [OF this(1) source_home_plain [OF dp] this(2) below] show ?thesis by (simp add: layer_tar)
  qed
  have arch: "\<not> isl (layer_archive d t' n)" if "n \<in> ordinals ''u'' d t'" for n
  proof (cases "n = ?k")
    case True
    with new_arch show ?thesis by simp
  next
    case False
    with that ords have n: "n \<in> ordinals ''u'' d ?t" by simp
    have "data_place lm d ?b" using place' by (simp add: send_place_def)
    from same_archive [OF dp this stay n] src n show ?thesis by (simp add: source_volume_def)
  qed
  have later: "unused_level d t' j" if "?k < j" for j
  proof -
    have "node_at t' (d @ [p @ itoa j]) = node_at ?t (d @ [p @ itoa j])" if "p \<in> {''u'', ''w'', ''o''}" for p
      by (rule other [where c = "p @ itoa j"]) (use that \<open>?k < j\<close> in \<open>auto simp: itoa_inject\<close>)
    with none [of j] that show ?thesis by (simp add: unused_level_def sent)
  qed
  have "n \<le> ?k" if "n \<in> ordinals ''u'' d ?t" for n using top(2) [OF that] by simp
  then have "source_volume lm d ?b"
    using place' can' arch later no_links none [of ?k] top(1)
    by (auto simp: source_volume_def ords sent unused_level_def)
  moreover have "pending d ?b = pending d a @ [?k]"
  proof -
    have "insert ?k (ordinals ''u'' d ?t) - {?k} = ordinals ''u'' d ?t" using top(2) [of ?k] by auto
    then have "sorted_list_of_set (insert ?k (ordinals ''u'' d ?t)) = sorted_list_of_set (ordinals ''u'' d ?t) @ [?k]"
      using sorted_up_to [of "insert ?k (ordinals ''u'' d ?t)" ?k] top(2) by fastforce
    then show ?thesis using none [of ?k] by (simp add: pending_def ords sent unused_level_def)
  qed
  moreover have "sent_frames dest ?log = sent_frames dest (a_log a)"
    by (simp add: mount_action_def unbind_action_def bind_action_def)
  ultimately show ?thesis using run stay new_arch by (intro exI [of _ ?b]) (simp add: archive_of_def)
qed

section \<open>Copying what is frozen\<close>

lemma archive_of_source:
  "source_volume lm d a \<Longrightarrow> n \<in> ordinals ''u'' d (a_tree a) \<Longrightarrow> layer_archive d (a_tree a) n = Inr (archive_of d (a_tree a) n)"
  by (auto simp: source_volume_def archive_of_def split: sum.split)

lemma set_pending: "set (pending d a) = {n \<in> ordinals ''u'' d (a_tree a). \<not> sent_at d (a_tree a) n}"
  by (auto simp: pending_def)

lemma copy_quiet:
  assumes src: "source_volume lm d a" and dest: "dest \<noteq> []"
  shows "\<exists>b. copy_checkpoint lm dest a = (Inr (), b) \<and> source_volume lm d b \<and> a_level b = a_level a \<and>
    sent_frames dest (a_log b) = sent_frames dest (a_log a) @
      map (\<lambda>n. (layer_header n, archive_of d (a_tree a) n)) (butlast (pending d a)) \<and>
    pending d b = [a_level a] \<and> layers_stay d a b"
proof -
  let ?ns = "sorted_list_of_set (ordinals ''u'' d (a_tree a))"
  have place: "send_place lm d a" and can: "canonical ''u'' d (a_tree a)" using src by (simp_all add: source_volume_def)
  have dp: "data_place lm d a" using place by (simp add: send_place_def)
  have num: "numbered_dirs lm ''u'' a = (Inr ?ns, a)" by (rule numbered_quiet [OF dp can])
  obtain b where b: "for_each (copy_layer lm dest) ?ns a = (Inr (), b)" "send_place lm d b"
      "a_log b = a_log a @ map (\<lambda>n. (SendFrame dest (layer_header n) (archive_of d (a_tree a) n), True)) (filter (unsent d a) ?ns)"
      "a_level b = a_level a"
      and same0: "\<forall>q. (\<forall>n. q \<noteq> d @ [marker n]) \<longrightarrow> node_at (a_tree b) q = node_at (a_tree a) q"
      and sent0: "\<forall>n. sent_at d (a_tree b) n \<longleftrightarrow> sent_at d (a_tree a) n \<or> n \<in> set ?ns \<and> n < a_level a"
    using copy_loop [where ns = ?ns and es = "archive_of d (a_tree a)" and dest = dest, OF place] archive_of_source [OF src]
    by (auto simp del: sorted_list_of_set_insert_remove)
  have same: "node_at (a_tree b) q = node_at (a_tree a) q" if "\<And>n. q \<noteq> d @ [marker n]" for q
    using same0 that by simp
  have run: "copy_checkpoint lm dest a = (Inr (), b)"
    using num b(1) dest by (simp add: copy_checkpoint_def andthen_def wrapping_def)
  have keep: "node_at (a_tree b) q = node_at (a_tree a) q" if "prefix (source_home d n) q" for n q
    by (rule same) (use that in \<open>auto simp: source_home_def prefix_def\<close>)
  have numbered: "node_at (a_tree b) (d @ [p @ itoa k]) = node_at (a_tree a) (d @ [p @ itoa k])"
    if "p \<in> {''u'', ''w'', ''o''}" for p k
    by (rule same) (use that in \<open>auto simp: marker_def\<close>)
  have dirs: "dir_at (a_tree b) (d @ [CHR ''u'' # s]) \<longleftrightarrow> dir_at (a_tree a) (d @ [CHR ''u'' # s])" for s
    using same [of "d @ [CHR ''u'' # s]"] by (simp add: dir_at_def)
  have ords: "ordinals ''u'' d (a_tree b) = ordinals ''u'' d (a_tree a)"
    using dirs by (simp add: ordinals_def)
  have can': "canonical ''u'' d (a_tree b)"
    unfolding canonical_def
  proof (intro allI impI)
    fix name n
    assume dir: "dir_at (a_tree b) (d @ [name])" and o: "ordinal_of ''u'' (name, True) = Some n"
    then obtain s where "name = CHR ''u'' # s" by (auto simp: ordinal_of_iff has_prefix_iff)
    with dir dirs can o show "name = ''u'' @ itoa n" by (auto simp: canonical_def)
  qed
  have stay: "layers_stay d a b" using keep by (simp add: layers_stay_def ords same_below_def)
  have dp': "data_place lm d b" using b(2) by (simp add: send_place_def)
  have no_links: "node_at (a_tree b) q \<noteq> Some (Link [])" for q
  proof (cases "\<exists>n. q = d @ [marker n]")
    case True
    then obtain n where q: "q = d @ [marker n]" by blast
    have "node_at (a_tree b) (d @ [marker n]) = None \<or>
        (\<exists>m c x. node_at (a_tree b) (d @ [marker n]) = Some (File m c x))"
      using b(2) by (simp add: send_place_def)
    then show ?thesis unfolding q by auto
  next
    case False
    with same [of q] src show ?thesis by (simp add: source_volume_def)
  qed
  have top: "a_level a \<in> ordinals ''u'' d (a_tree a)" "\<And>n. n \<in> ordinals ''u'' d (a_tree a) \<Longrightarrow> n \<le> a_level a"
    using src by (simp_all add: source_volume_def)
  have later: "unused_level d (a_tree b) k" if "a_level a < k" for k
  proof -
    have "unused_level d (a_tree a) k" using src that by (simp add: source_volume_def)
    then show ?thesis using that sent0 numbered by (auto simp: unused_level_def)
  qed
  have "source_volume lm d b"
    using src b(2,4) can' later no_links sent0 same_archive [OF dp dp' stay]
    by (simp add: source_volume_def ords)
  moreover have "pending d b = [a_level a]"
  proof -
    have l: "?ns = sorted_list_of_set (ordinals ''u'' d (a_tree a) - {a_level a}) @ [a_level a]"
      by (rule sorted_up_to) (use top in auto)
    have "filter (\<lambda>n. \<not> sent_at d (a_tree b) n) (sorted_list_of_set (ordinals ''u'' d (a_tree a) - {a_level a})) = []"
      using top by (auto simp: filter_empty_conv sent0 order_less_le)
    moreover have "\<not> sent_at d (a_tree b) (a_level a)" using src sent0 by (simp add: source_volume_def)
    ultimately show ?thesis by (simp add: pending_def ords l)
  qed
  moreover have "sent_frames dest (a_log b) = sent_frames dest (a_log a) @
      map (\<lambda>n. (layer_header n, archive_of d (a_tree a) n)) (butlast (pending d a))"
    by (simp add: b(3) sent_frames_map pending_top [OF src])
  ultimately show ?thesis using run b(4) stay by blast
qed

section \<open>All rounds\<close>

text \<open>What the layers are that leave in a stretch of the hook.\<close>

definition leaving :: "string \<Rightarrow> path \<Rightarrow> agent \<Rightarrow> agent \<Rightarrow> int list \<Rightarrow> bool" where
  "leaving dest d a b ns \<longleftrightarrow> layers_stay d a b \<and> set ns \<subseteq> ordinals ''u'' d (a_tree b) \<and>
     sent_frames dest (a_log b) = sent_frames dest (a_log a) @
       map (\<lambda>n. (layer_header n, archive_of d (a_tree b) n)) ns"

lemma archive_stays:
  "source_volume lm d a \<Longrightarrow> data_place lm d b \<Longrightarrow> layers_stay d a b \<Longrightarrow> n \<in> ordinals ''u'' d (a_tree a) \<Longrightarrow>
   archive_of d (a_tree b) n = archive_of d (a_tree a) n"
  using same_archive [of lm d a b n] by (simp add: archive_of_def source_volume_def send_place_def)

lemma leaving_trans:
  assumes "leaving dest d a b ms" and "leaving dest d b c ns" and "source_volume lm d b" and "data_place lm d c"
  shows "leaving dest d a c (ms @ ns)"
proof -
  have stay: "layers_stay d b c" and ms: "set ms \<subseteq> ordinals ''u'' d (a_tree b)"
    using assms(1,2) by (simp_all add: leaving_def)
  have "archive_of d (a_tree c) n = archive_of d (a_tree b) n" if "n \<in> set ms" for n
    using archive_stays [OF assms(3,4) stay] ms that by blast
  then have "map (\<lambda>n. (layer_header n, archive_of d (a_tree b) n)) ms = map (\<lambda>n. (layer_header n, archive_of d (a_tree c) n)) ms"
    by simp
  moreover have "set ms \<subseteq> ordinals ''u'' d (a_tree c)" using ms stay by (auto simp: layers_stay_def)
  ultimately show ?thesis using assms(1,2) layers_stay_trans by (auto simp: leaving_def)
qed

text \<open>One round: the layers that were pending leave, and a new one is pending.\<close>

lemma round_quiet:
  assumes src: "source_volume lm d a" and dest: "dest \<noteq> []" and i64: "in_i64 (a_level a + 1)"
  shows "\<exists>b. volume_round lm dest i a = (Inr (), b) \<and> source_volume lm d b \<and> a_level b = a_level a + 1 \<and>
    pending d b = [a_level a + 1] \<and> leaving dest d a b (pending d a) \<and>
    archive_of d (a_tree b) (a_level a + 1) = []"
proof -
  obtain c where c: "create_checkpoint lm a = (Inr (a_level a), c)" "source_volume lm d c" "a_level c = a_level a + 1"
      "sent_frames dest (a_log c) = sent_frames dest (a_log a)" "pending d c = pending d a @ [a_level a + 1]"
      "layers_stay d a c" "archive_of d (a_tree c) (a_level a + 1) = []"
    using freeze_quiet [OF src i64, of dest] by blast
  obtain b where b: "copy_checkpoint lm dest c = (Inr (), b)" "source_volume lm d b" "a_level b = a_level c"
      "sent_frames dest (a_log b) = sent_frames dest (a_log c) @
        map (\<lambda>n. (layer_header n, archive_of d (a_tree c) n)) (butlast (pending d c))"
      "pending d b = [a_level c]" "layers_stay d c b"
    using copy_quiet [OF c(2) dest] by blast
  have pb: "data_place lm d b" using b(2) by (simp add: source_volume_def send_place_def)
  have pend: "set (pending d a) \<subseteq> ordinals ''u'' d (a_tree c)"
    using c(6) by (auto simp: set_pending layers_stay_def)
  have "leaving dest d a c []" using c(4,6) by (simp add: leaving_def)
  moreover have "leaving dest d c b (pending d a)"
  proof -
    have "map (\<lambda>n. (layer_header n, archive_of d (a_tree c) n)) (pending d a) =
        map (\<lambda>n. (layer_header n, archive_of d (a_tree b) n)) (pending d a)"
      using archive_stays [OF c(2) pb b(6)] pend by auto
    then show ?thesis using b(4,6) c(5) pend by (auto simp: leaving_def layers_stay_def)
  qed
  ultimately have "leaving dest d a b (pending d a)" using leaving_trans [OF _ _ c(2) pb] by fastforce
  moreover have "a_level a + 1 \<in> ordinals ''u'' d (a_tree c)" using c(2,3) by (simp add: source_volume_def)
  then have "archive_of d (a_tree b) (a_level a + 1) = []" using archive_stays [OF c(2) pb b(6)] c(7) by simp
  ultimately show ?thesis
    using b c by (intro exI [of _ b]) (simp add: volume_round_def andthen_def wrapping_def)
qed

lemma rounds_quiet:
  assumes "source_volume lm d a" and "dest \<noteq> []" and "in_i64 (a_level a + int (length xs))" and "xs \<noteq> []"
  shows "\<exists>b. for_each (volume_round lm dest) xs a = (Inr (), b) \<and> source_volume lm d b \<and>
    a_level b = a_level a + int (length xs) \<and> pending d b = [a_level b] \<and>
    leaving dest d a b (pending d a @ [a_level a + 1..a_level a + int (length xs) - 1]) \<and>
    (\<forall>n. a_level a < n \<and> n \<le> a_level b \<longrightarrow> archive_of d (a_tree b) n = [])"
  using assms
proof (induction xs arbitrary: a)
  case (Cons i xs)
  have pos: "0 < a_level a" using Cons.prems(1) by (auto simp: source_volume_def ordinals_def)
  then have i64: "in_i64 (a_level a + 1)" using Cons.prems(3) by (auto simp: in_i64_def)
  obtain c where c: "volume_round lm dest i a = (Inr (), c)" "source_volume lm d c" "a_level c = a_level a + 1"
      "pending d c = [a_level a + 1]" "leaving dest d a c (pending d a)"
      "archive_of d (a_tree c) (a_level a + 1) = []"
    using round_quiet [OF Cons.prems(1,2) i64] by blast
  show ?case
  proof (cases "xs = []")
    case True
    have "archive_of d (a_tree c) n = []" if "a_level a < n" "n \<le> a_level a + 1" for n
    proof -
      from that have "n = a_level a + 1" by simp
      with c(6) show ?thesis by simp
    qed
    with c(1-5) True show ?thesis by (intro exI [of _ c]) (simp add: andthen_def)
  next
    case False
    have "in_i64 (a_level c + int (length xs))" using Cons.prems(3) c(3) by (simp add: algebra_simps)
    from Cons.IH [OF c(2) Cons.prems(2) this False] obtain b where
      b: "for_each (volume_round lm dest) xs c = (Inr (), b)" "source_volume lm d b"
        "a_level b = a_level c + int (length xs)" "pending d b = [a_level b]"
        "leaving dest d c b (pending d c @ [a_level c + 1..a_level c + int (length xs) - 1])"
        "\<And>n. a_level c < n \<Longrightarrow> n \<le> a_level b \<Longrightarrow> archive_of d (a_tree b) n = []" by blast
    have pb: "data_place lm d b" using b(2) by (simp add: source_volume_def send_place_def)
    have "int (length xs) \<ge> 1" using False by (cases xs) auto
    then have "[a_level a + 1] @ [a_level a + 1 + 1..a_level a + 1 + int (length xs) - 1] =
        [a_level a + 1..a_level a + int (length (i # xs)) - 1]"
      by (subst (2) upto.simps) (simp add: algebra_simps)
    with leaving_trans [OF c(5) b(5) c(2) pb]
    have "leaving dest d a b (pending d a @ [a_level a + 1..a_level a + int (length (i # xs)) - 1])"
      by (simp add: c(3,4))
    moreover have "archive_of d (a_tree b) n = []" if n: "a_level a < n" "n \<le> a_level b" for n
    proof (cases "n = a_level a + 1")
      case True
      have "a_level a + 1 \<in> ordinals ''u'' d (a_tree c)" using c(2,3) by (simp add: source_volume_def)
      moreover have "layers_stay d c b" using b(5) by (simp add: leaving_def)
      ultimately show ?thesis using archive_stays [OF c(2) pb] c(6) True by simp
    next
      case False
      with n c(3) show ?thesis by (intro b(6)) auto
    qed
    ultimately show ?thesis using b(1-4) c(1,3) by (intro exI [of _ b]) (simp add: andthen_def)
  qed
qed simp

section \<open>The end of the volume\<close>

lemma numbered_some: "data_place lm d a \<Longrightarrow> \<exists>ns. numbered_dirs lm pre a = (Inr ns, a)"
proof -
  assume place: "data_place lm d a"
  let ?t = "a_tree a"
  from place have q: "a_script a = []" and wf: "wf_tree ?t" and p: "list_all plain d"
    and dd: "lm_data_dir lm = render True d"
    and way: "\<And>r. prefix r d \<Longrightarrow> node_at ?t r = None \<or> dir_at ?t r"
    by (auto simp: data_place_def)
  have read: "attempt (os_read_dir (lm_data_dir lm)) a = (Inr (read_dir d ?t), a)"
    by (simp add: attempt_def os_read_dir_def reading_quiet [OF q] dd located_def locate_render [OF p])
  show ?thesis
  proof (cases "node_at ?t d")
    case None
    from read read_dir_missing [OF p way None] show ?thesis by (simp add: numbered_dirs_def andthen_def enoent_def)
  next
    case (Some nd)
    then have "dir_at ?t d" using way [of d] by auto
    from read_dir_clear [OF wf p this] read show ?thesis by (simp add: numbered_dirs_def andthen_def)
  qed
qed

lemma unmount_quiet:
  "a_script a = [] \<Longrightarrow> for_each (unmount_level lm) ns a =
     (Inr (), a\<lparr>a_log := a_log a @ map (\<lambda>n. (unmount_action lm n, True)) ns\<rparr>)"
  by (induction ns arbitrary: a)
     (simp_all add: andthen_def unmount_level_def wrapping_def quiet_command unmount_action_def)

text \<open>What the target needs of a layer that left.\<close>

definition archived :: "path \<Rightarrow> tree \<Rightarrow> int \<Rightarrow> bool" where
  "archived d t n \<longleftrightarrow> archivable t (source_home d n) \<and> dir_at t (source_home d n) \<and>
     tar_dir (source_home d n) t = Inr (archive_of d t n)"

lemma end_volume_quiet:
  assumes src: "source_volume lm d a" and dest: "dest \<noteq> []"
  shows "\<exists>b. end_volume lm dest a = (Inr (), b) \<and> a_script b = [] \<and> a_registry b = a_registry a \<and> data_place lm d b \<and>
    leaving dest d a b [a_level a] \<and> (\<forall>n \<in> ordinals ''u'' d (a_tree a). archived d (a_tree b) n)"
proof -
  let ?k = "a_level a"
  have place: "send_place lm d a" and k: "?k \<in> ordinals ''u'' d (a_tree a)" and fresh: "\<not> sent_at d (a_tree a) ?k"
    using src by (simp_all add: source_volume_def)
  have dp: "data_place lm d a" and q: "a_script a = []" using place by (simp_all add: send_place_def data_place_def)
  let ?c = "a\<lparr>a_log := a_log a @ [(unbind_action lm, True)]\<rparr>"
  have "data_place lm d ?c" using dp by (simp add: data_place_def)
  from numbered_some [OF this, of "''o''"] obtain ns where ns: "numbered_dirs lm ''o'' ?c = (Inr ns, ?c)" by blast
  let ?l = "a_log a @ [(unbind_action lm, True)] @ map (\<lambda>n. (unmount_action lm n, True)) (rev ns)"
  let ?e = "a\<lparr>a_log := ?l, a_level := 0\<rparr>"
  let ?es = "archive_of d (a_tree a) ?k"
  let ?b = "with_layer d dest ?k ?es ?e"
  have pe: "send_place lm d ?e" using place by (simp add: send_place_def data_place_def)
  have tar: "layer_archive d (a_tree ?e) ?k = Inr ?es" using archive_of_source [OF src k] by simp
  have kpos: "0 < ?k" "in_i64 ?k" using k by (simp_all add: ordinals_def)
  have fe: "\<not> sent_at d (a_tree ?e) ?k" using fresh by simp
  have send: "send_layer lm ''final layer'' dest ?k ?e = (Inr (), ?b)"
    using send_layer_quiet [OF pe kpos fe tar] by (simp add: with_layer_def)
  have run: "end_volume lm dest a = (Inr (), ?b)"
    using kpos q ns is_sent_quiet [OF pe, of ?k] fresh dest send
    by (simp add: end_volume_def andthen_def get_level_def set_level_def unbind_root_def wrapping_def quiet_command
        unmount_quiet unbind_action_def)
  note f = with_layer_fields [OF pe, where dest = dest and n = ?k and es = ?es]
  have keep: "node_at (a_tree ?b) p = node_at (a_tree a) p" if "prefix (source_home d n) p" for n p
    using f(4) [of p] that by (auto simp: source_home_def prefix_def)
  have dirs: "dir_at (a_tree ?b) (d @ [CHR ''u'' # s]) \<longleftrightarrow> dir_at (a_tree a) (d @ [CHR ''u'' # s])" for s
    using f(4) [of "d @ [CHR ''u'' # s]"] by (simp add: dir_at_def)
  have ords: "ordinals ''u'' d (a_tree ?b) = ordinals ''u'' d (a_tree a)"
    using dirs by (simp add: ordinals_def)
  have stay: "layers_stay d a ?b" unfolding layers_stay_def ords same_below_def using keep by blast
  have db: "data_place lm d ?b" using f(1) by (simp add: send_place_def)
  have arch: "archive_of d (a_tree ?b) n = archive_of d (a_tree a) n" if "n \<in> ordinals ''u'' d (a_tree a)" for n
    using archive_stays [OF src db stay that] .
  have "sent_frames dest (a_log ?b) = sent_frames dest (a_log a) @ [(layer_header ?k, archive_of d (a_tree ?b) ?k)]"
    using f(2) arch [OF k] by (simp add: unbind_action_def unmount_action_def sent_frames_commands)
  then have "leaving dest d a ?b [?k]" using stay k ords by (simp add: leaving_def)
  moreover have "archived d (a_tree ?b) n" if n: "n \<in> ordinals ''u'' d (a_tree a)" for n
  proof -
    have "node_at (a_tree ?b) p \<noteq> Some (Link [])" if "strict_prefix (source_home d n) p" for p
      using keep [of n p] src that by (simp add: source_volume_def strict_prefix_def)
    then have "archivable (a_tree ?b) (source_home d n)" using db by (simp add: archivable_def data_place_def)
    moreover have "dir_at (a_tree ?b) (source_home d n)" using n dirs by (simp add: ordinals_def source_home_def)
    moreover have "layer_archive d (a_tree ?b) n = Inr (archive_of d (a_tree a) n)"
      using same_archive [OF dp db stay n] archive_of_source [OF src n] by simp
    ultimately show ?thesis using arch [OF n] by (simp add: archived_def layer_tar)
  qed
  moreover have "a_script ?b = []" "a_registry ?b = a_registry a"
    using q by (simp_all add: with_layer_def with_marker_def)
  ultimately show ?thesis using run db by blast
qed

section \<open>The hook\<close>

lemma env_int_positive: "0 < n \<Longrightarrow> 0 < env_int env name n"
  by (auto simp: env_int_def split: option.split)

lemma leaving_level: "leaving dest d (a\<lparr>a_level := k\<rparr>) b ns = leaving dest d a b ns"
  by (simp add: leaving_def layers_stay_def)

lemma leaving_trans2:
  assumes "leaving dest d a b ms" and "leaving dest d b c ns" and "source_volume lm d b" and "data_place lm d c"
    and "ms @ ns = ks"
  shows "leaving dest d a c ks"
  using leaving_trans [OF assms(1-4)] assms(5) by simp

lemma transfer_out_quiet:
  assumes src: "source_volume lm d (a\<lparr>a_level := k\<rparr>)" and dest: "dest \<noteq> []"
    and r: "r = env_int (a_env a) ''CHECKPOINT_ROUNDS'' 1" and i64: "in_i64 (k + r)"
  shows "\<exists>n b. transfer_out lm False True dir dest a = (Inr n, b) \<and> a_script b = [] \<and>
    leaving dest d a b (pending d a @ [k + 1..k + r]) \<and>
    (\<forall>n \<in> set (pending d a @ [k + 1..k + r]). archived d (a_tree b) n) \<and>
    (\<forall>n. k < n \<and> n \<le> k + r \<longrightarrow> archive_of d (a_tree b) n = [])"
proof -
  let ?a = "a\<lparr>a_level := k\<rparr>"
  have rpos: "0 < r" using r env_int_positive by simp
  have k: "0 < k" "k \<in> ordinals ''u'' d (a_tree a)" "\<And>n. n \<in> ordinals ''u'' d (a_tree a) \<Longrightarrow> n \<le> k"
    and dp: "data_place lm d (a\<lparr>a_level := 0\<rparr>)" and can: "canonical ''u'' d (a_tree a)"
    using src by (auto simp: source_volume_def send_place_def data_place_def ordinals_def)
  have disc: "discover lm (a\<lparr>a_level := 0\<rparr>) = (Inr (), ?a)"
    using discover_quiet [OF dp, of k] can k by simp
  have len: "int (length [1..r]) = r" and ne: "[1..r] \<noteq> []" using rpos by simp_all
  have "in_i64 (a_level ?a + int (length [1..r]))" using i64 len by simp
  from rounds_quiet [OF src dest this ne] obtain b where
    b: "for_each (volume_round lm dest) [1..r] ?a = (Inr (), b)" "source_volume lm d b" "a_level b = k + r"
      "pending d b = [k + r]" "leaving dest d a b (pending d a @ [k + 1..k + r - 1])"
    and new: "\<forall>n. k < n \<and> n \<le> k + r \<longrightarrow> archive_of d (a_tree b) n = []"
    unfolding len leaving_level by (auto simp: pending_def)
  from end_volume_quiet [OF b(2) dest] obtain c where
    c: "end_volume lm dest b = (Inr (), c)" "a_script c = []" "data_place lm d c" "leaving dest d b c [k + r]"
    and arch: "\<forall>n \<in> ordinals ''u'' d (a_tree b). archived d (a_tree c) n"
    using b(3) by auto
  have env: "env_int (a_env ?a) ''CHECKPOINT_ROUNDS'' 1 = r" using r by simp
  have run: "transfer_out lm False True dir dest a = (Inr (r + 1), c)"
    using disc k(1) dest b(1,3) rpos c(1) env
    by (simp add: transfer_out_def when_on_def volume_pre_transfer_def volume_rounds_def volume_end_def
        andthen_def wrapping_def set_level_def get_level_def)
  have "[k + 1..k + r - 1] @ [k + r] = [k + 1..k + r]" using rpos by (simp add: upto_rec2)
  then have "leaving dest d a c (pending d a @ [k + 1..k + r])"
    by (intro leaving_trans2 [OF b(5) c(4) b(2) c(3)]) simp
  moreover have sub: "set (pending d a @ [k + 1..k + r]) \<subseteq> ordinals ''u'' d (a_tree b)"
  proof -
    have "set (pending d a @ [k + 1..k + r - 1]) \<subseteq> ordinals ''u'' d (a_tree b)" using b(5) by (simp add: leaving_def)
    moreover have "k + r \<in> ordinals ''u'' d (a_tree b)" using b(2,3) by (simp add: source_volume_def)
    ultimately show ?thesis using \<open>[k + 1..k + r - 1] @ [k + r] = [k + 1..k + r]\<close> [symmetric] by simp
  qed
  moreover have "archive_of d (a_tree c) n = []" if n: "k < n" "n \<le> k + r" for n
  proof -
    have "n \<in> ordinals ''u'' d (a_tree b)" using sub n by auto
    moreover have "layers_stay d b c" using c(4) by (simp add: leaving_def)
    ultimately show ?thesis using archive_stays [OF b(2) c(3)] new n by simp
  qed
  ultimately show ?thesis using run c(2) arch by blast
qed

text \<open>Which frames a hook with the volume alone sends, and from which layers.\<close>

lemma post_remove_quiet:
  assumes "a_script a = []" and "get_record pod (a_registry a) = Some rec"
  shows "\<exists>b. post_remove coord pod a = (Inr (remove_answer rec), b) \<and> a_script b = [] \<and> a_tree b = a_tree a \<and>
    a_env b = a_env a \<and> a_log b = a_log a @ [(PostRemove pod, True)]"
  using assms
  by (simp add: post_remove_def andthen_def wrapping_def post_def handle_remove_def remove_answer_def)

lemma send_done_quiet:
  assumes "a_script a = []"
  shows "send_done dest a = (Inr (), a\<lparr>a_log := a_log a @ [(SendFrame dest done_header [], True)]\<rparr>)"
proof -
  have "write_frame_header \<lparr>fh_kind = kind_done, fh_ordinal = 0, fh_name = []\<rparr> = Inr (header_bytes done_header)"
    by (simp add: write_frame_header_def done_header_def)
  with assms show ?thesis
    by (simp add: send_done_def dial_def andthen_def wrapping_def reading_quiet send_frame_def perform_def done_header_def)
qed

lemma hook_quiet:
  assumes src: "source_volume lm d (a\<lparr>a_level := k\<rparr>)"
    and lm: "lm = new_layer_manager (env_or (a_env a) ''DATA_DIR'' ''/data'') (env_or (a_env a) ''VOLUME_ROOT_DIR'' [])"
      "env_or (a_env a) ''VOLUME_ROOT_DIR'' [] \<noteq> []"
    and rec: "get_record pod (a_registry a) = Some rec" "pr_migrating rec" "pr_volume_migration rec"
      "\<not> pr_process_migration rec" "pr_dest_address rec \<noteq> []"
    and r: "r = env_int (a_env a) ''CHECKPOINT_ROUNDS'' 1" and i64: "in_i64 (k + r)"
  shows "\<exists>res b t. end_container coord pod dir a = (res, b) \<and>
    sent_frames (pr_dest_address rec) (a_log b) = sent_frames (pr_dest_address rec) (a_log a) @
      map (\<lambda>n. (layer_header n, archive_of d t n)) (pending d a @ [k + 1..k + r]) @ [(done_header, [])] \<and>
    (\<forall>n \<in> set (pending d a @ [k + 1..k + r]). archived d t n) \<and>
    (\<forall>n \<in> ordinals ''u'' d (a_tree a). same_below (source_home d n) (a_tree a) t \<and>
       archive_of d t n = archive_of d (a_tree a) n) \<and>
    (\<forall>n. k < n \<and> n \<le> k + r \<longrightarrow> archive_of d t n = [])"
proof -
  let ?dest = "pr_dest_address rec" and ?resp = "remove_answer rec"
  have q: "a_script a = []" using src by (simp add: source_volume_def send_place_def data_place_def)
  obtain c where c: "post_remove coord pod a = (Inr ?resp, c)" "a_script c = []" "a_tree c = a_tree a"
      "a_env c = a_env a" "a_log c = a_log a @ [(PostRemove pod, True)]"
    using post_remove_quiet [OF q rec(1)] by blast
  have srcc: "source_volume lm d (c\<lparr>a_level := k\<rparr>)"
    using src c(2,3) by (simp add: source_volume_def send_place_def data_place_def)
  have rc: "r = env_int (a_env c) ''CHECKPOINT_ROUNDS'' 1" using r c(4) by simp
  obtain n e where e: "transfer_out lm False True dir ?dest c = (Inr n, e)" "a_script e = []"
      "leaving ?dest d c e (pending d c @ [k + 1..k + r])"
    and arch: "\<forall>n \<in> set (pending d c @ [k + 1..k + r]). archived d (a_tree e) n"
    and new: "\<forall>n. k < n \<and> n \<le> k + r \<longrightarrow> archive_of d (a_tree e) n = []"
    using transfer_out_quiet [OF srcc rec(5) rc i64] by blast
  have pend: "pending d c = pending d a" using c(3) by (simp add: pending_def)
  have top: "k \<in> set (pending d c)" using srcc by (simp add: source_volume_def set_pending)
  let ?f = "e\<lparr>a_log := a_log e @ [(SendFrame ?dest done_header [], True)]\<rparr>"
  obtain res b where b: "post_copy coord pod dir n ?f = (res, b)" by (cases "post_copy coord pod dir n ?f")
  have "migrate_out coord pod dir ?resp c = (res, b)"
    using e(1,2) b rec lm c(4)
    by (simp add: migrate_out_def Let_def remove_answer_def when_on_def andthen_def wrapping_def send_done_quiet)
  then have run: "end_container coord pod dir a = (res, b)"
    using c(1) rec(2) by (simp add: end_container_def andthen_def remove_answer_def)
  have "a_log b = a_log ?f @ [(PostCopy pod dir n, \<not> isl res)]" using post_copy_run [OF b] by simp
  then have "sent_frames ?dest (a_log b) = sent_frames ?dest (a_log a) @
      map (\<lambda>n. (layer_header n, archive_of d (a_tree e) n)) (pending d a @ [k + 1..k + r]) @ [(done_header, [])]"
    using e(3) c(5) by (simp add: leaving_def pend)
  moreover have "same_below (source_home d n) (a_tree a) (a_tree e) \<and> archive_of d (a_tree e) n = archive_of d (a_tree a) n"
    if n: "n \<in> ordinals ''u'' d (a_tree a)" for n
  proof
    have stay: "layers_stay d c e" using e(3) by (simp add: leaving_def)
    with n c(3) show "same_below (source_home d n) (a_tree a) (a_tree e)" by (simp add: layers_stay_def)
    have place: "data_place lm d c" using srcc by (simp add: source_volume_def send_place_def data_place_def)
    then have "wf_tree (a_tree c)" by (simp add: data_place_def)
    moreover have "dir_at (a_tree c) (source_home d n)" using n c(3) by (simp add: ordinals_def source_home_def)
    moreover note source_home_plain [OF place, of n]
    moreover have "wf_tree (a_tree e)" using arch top by (auto simp: archived_def archivable_def)
    ultimately have "tar_dir (source_home d n) (a_tree e) = tar_dir (source_home d n) (a_tree c)"
      using stay n c(3) by (intro tar_dir_same) (auto simp: layers_stay_def)
    then show "archive_of d (a_tree e) n = archive_of d (a_tree a) n"
      using c(3) by (simp add: archive_of_def layer_tar)
  qed
  ultimately show ?thesis using run arch new unfolding pend by blast
qed

section \<open>From machine to machine\<close>

text \<open>What a frame is on the wire; \<open>pack\<close> are the bytes of an archive, DONE has none.\<close>

definition delivered :: "(tar_entry list \<Rightarrow> byte list) \<Rightarrow> frame_header \<times> tar_entry list \<Rightarrow> go_err + conn" where
  "delivered pack = (\<lambda>(h, es). frame_conn (h, if fh_kind h = kind_done then [] else pack es))"

text \<open>
  C2: a volume travels whole: whatever layers are on the source and however many rounds are
  configured, the frames that its preStop hook sends, given to a target, make the target end with
  every layer that was not sent before, the writable one included, as it was on the source, mounted
  under a fresh writable layer. (Nobody writes to the volume while the hook runs, and no call fails.)
\<close>

theorem volume_travels:
  assumes source: "source_volume lm d (a\<lparr>a_level := k\<rparr>)"
    and lm: "lm = new_layer_manager (env_or (a_env a) ''DATA_DIR'' ''/data'') (env_or (a_env a) ''VOLUME_ROOT_DIR'' [])"
      "env_or (a_env a) ''VOLUME_ROOT_DIR'' [] \<noteq> []"
    and armed: "get_record pod (a_registry a) = Some rec" "pr_migrating rec" "pr_volume_migration rec"
      "\<not> pr_process_migration rec" "pr_dest_address rec \<noteq> []"
    and new: "sent_frames (pr_dest_address rec) (a_log a) = []"
    and bound: "k + env_int (a_env a) ''CHECKPOINT_ROUNDS'' 1 < 2 ^ 32"
    and target: "data_place lm' d' a'" "a_level a' = 0" "\<And>s. node_at (a_tree a') (d' @ [''l'' @ s]) = None"
      "level_free d' a' 1"
    and codec: "\<And>n. n \<in> ordinals ''u'' d (a_tree a) \<Longrightarrow>
        unpack (pack (archive_of d (a_tree a) n)) = (Archive (archive_of d (a_tree a) n) None, [])"
      "unpack (pack []) = (Archive [] None, [])"
  shows "\<exists>b'. run_migration_target unpack late
      (\<lambda>_. map (delivered pack) (sent_frames (pr_dest_address rec) (a_log (snd (end_container coord pod dir a)))))
      lm' dir' False True a' = (Inr (), b') \<and> a_level b' = 1 \<and>
    (\<forall>n \<in> set (pending d a). copy_of a' (a_tree a) (source_home d n) (a_tree b') (layer_home d' n))"
proof -
  let ?r = "env_int (a_env a) ''CHECKPOINT_ROUNDS'' 1" and ?dest = "pr_dest_address rec"
  let ?ns = "pending d a @ [k + 1..k + ?r]"
  have k: "0 < k" "k \<in> set (pending d a)" and top: "\<And>n. n \<in> ordinals ''u'' d (a_tree a) \<Longrightarrow> 0 < n \<and> n \<le> k"
    using source by (auto simp: source_volume_def ordinals_def set_pending)
  have rpos: "0 < ?r" using env_int_positive by simp
  have i64: "in_i64 (k + ?r)" using bound k(1) rpos by (simp add: in_i64_def)
  from hook_quiet [OF source lm armed refl i64, of coord dir] obtain res b t where
    b: "end_container coord pod dir a = (res, b)"
    and sent: "sent_frames ?dest (a_log b) = sent_frames ?dest (a_log a) @
      map (\<lambda>n. (layer_header n, archive_of d t n)) ?ns @ [(done_header, [])]"
    and arch: "\<forall>n \<in> set ?ns. archived d t n"
    and same0: "\<forall>n \<in> ordinals ''u'' d (a_tree a). same_below (source_home d n) (a_tree a) t \<and>
       archive_of d t n = archive_of d (a_tree a) n"
    and empty: "\<forall>n. k < n \<and> n \<le> k + ?r \<longrightarrow> archive_of d t n = []"
    by (elim exE conjE)
  note same = bspec [OF same0]
  have ns: "distinct ?ns" "?ns \<noteq> []" "\<And>n. n \<in> set ?ns \<Longrightarrow> 0 < n \<and> n < 2 ^ 32"
    using top bound k rpos by (auto simp: set_pending pending_def dest: top)
  have codes: "archivable t (source_home d n) \<and> dir_at t (source_home d n) \<and>
      tar_dir (source_home d n) t = Inr (archive_of d t n) \<and>
      unpack (pack (archive_of d t n)) = (Archive (archive_of d t n) None, [])" if n: "n \<in> set ?ns" for n
  proof -
    have "unpack (pack (archive_of d t n)) = (Archive (archive_of d t n) None, [])"
    proof (cases "n \<in> set (pending d a)")
      case True
      then show ?thesis using same codec(1) by (simp add: set_pending)
    next
      case False
      with n empty codec(2) show ?thesis by auto
    qed
    with arch n show ?thesis by (simp add: archived_def)
  qed
  have stream: "map (delivered pack) (sent_frames ?dest (a_log b)) =
      map frame_conn (map (layer_frame (\<lambda>n. pack (archive_of d t n))) ?ns) @ frame_conn (done_header, []) # []"
    by (simp add: sent new delivered_def layer_frame_def layer_header_def done_header_def)
  from volume_restored [where src = "\<lambda>_. t" and home = "source_home d" and es = "archive_of d t" and unpack = unpack
      and payload_of = "\<lambda>n. pack (archive_of d t n)" and rest = "[]" and late = late and dir = dir'
      and network = "\<lambda>_. map (delivered pack) (sent_frames ?dest (a_log b))",
      OF target ns codes stream]
  obtain b' where b': "run_migration_target unpack late (\<lambda>_. map (delivered pack) (sent_frames ?dest (a_log b)))
        lm' dir' False True a' = (Inr (), b')" "a_level b' = 1"
      "\<forall>n \<in> set ?ns. copy_of a' t (source_home d n) (a_tree b') (layer_home d' n)" by blast
  have "copy_of a' (a_tree a) (source_home d n) (a_tree b') (layer_home d' n)" if n: "n \<in> set (pending d a)" for n
  proof -
    have "same_below (source_home d n) (a_tree a) t" using same n by (simp add: set_pending)
    with b'(3) n show ?thesis by (simp add: copy_of_def same_below_def)
  qed
  with b' b show ?thesis by auto
qed

end
