(* ===== verification/HookReport.thy ===== *)
theory HookReport
  imports RestSpec EndContainerSpec
begin

text \<open>
  The agent's report and the reconciler together: what the preStop hook leaves in the registry is
  what the reconciler waits for.
\<close>

lemma migrate_out_reports:
  assumes "migrate_out coord pod dir resp a = (Inr (), b)"
  shows "\<exists>rec. get_record pod (a_registry b) = Some rec \<and> pr_checkpoint_ready rec \<and>
           (dir \<noteq> [] \<longrightarrow> pr_checkpoint_dir rec = dir)"
proof -
  obtain n c where "post_copy coord pod dir n c = (Inr (), b)"
    using assms by (auto simp: migrate_out_def Let_def andthen_eq_Inr)
  from post_copy_run [OF this] have "mark_checkpoint_ready pod dir (registry_then c) = (True, a_registry b)" by simp
  then have reg: "a_registry b = snd (mark_checkpoint_ready pod dir (registry_then c))"
    and ok: "fst (mark_checkpoint_ready pod dir (registry_then c))" by simp_all
  from ok obtain rec where "fmlookup (registry_then c) pod = Some rec"
    by (auto simp: mark_checkpoint_ready_def split: option.splits)
  then show ?thesis by (simp add: reg mark_checkpoint_ready_def get_record_def Let_def)
qed

lemma end_container_reports:
  assumes "end_container coord pod dir a = (Inr (), b)"
    and "get_record pod (registry_then a) = Some rec" and "pr_migrating rec"
  shows "\<exists>rec'. get_record pod (a_registry b) = Some rec' \<and> pr_checkpoint_ready rec' \<and>
           (dir \<noteq> [] \<longrightarrow> pr_checkpoint_dir rec' = dir)"
proof -
  obtain resp c where c: "post_remove coord pod a = (Inr resp, c)"
    and run: "(if \<not> rr_needs_checkpoint resp then ret () else migrate_out coord pod dir resp) c = (Inr (), b)"
    using assms(1) by (auto simp: end_container_def andthen_eq_Inr)
  from post_remove_run [OF c] assms(2,3) have "rr_needs_checkpoint resp" by (auto simp: remove_answer_def)
  with run have "migrate_out coord pod dir resp c = (Inr (), b)" by simp
  then show ?thesis by (rule migrate_out_reports)
qed

text \<open>
  C20: the preStop hook of a source pod ends the reconciler's wait: once it has succeeded for an
  armed pod, the next pass over the migration, if it is waiting for the checkpoint of this pod within
  its time, moves it on to the transfer, with that one write.
\<close>

theorem hook_report_ends_the_wait:
  assumes "end_container coord pod dir a = (Inr (), b)"
    and "get_record pod (registry_then a) = Some rec" and "pr_migrating rec"
    and "k_get_migration K ns name c = Inr mig"
    and "k_get_workload K (mg_namespace mig) (ms_workload_name (mg_spec mig)) c = Inr mw"
    and "\<not> being_deleted mig" and "migration_finalizer \<in> set (mg_finalizers mig)"
    and "phase_of mig = Checkpointing" and "mst_source_pod (mg_status mig) = pod" and "\<not> phase_expired ck mig"
  shows "\<exists>m ok. pass_writes K ck ns name \<lparr>w_cluster = c, w_registry = a_registry b, w_history = h\<rparr> = [WStatus m ok] \<and>
           phase_of m = Transferring"
proof -
  let ?w = "\<lparr>w_cluster = c, w_registry = a_registry b, w_history = h\<rparr>"
  from end_container_reports [OF assms(1-3)] have "awaited mig mw (w_registry ?w)"
    using assms(8,9) by (auto simp: awaited_def)
  moreover have "k_get_migration K ns name (w_cluster ?w) = Inr mig"
    "k_get_workload K (mg_namespace mig) (ms_workload_name (mg_spec mig)) (w_cluster ?w) = Inr mw"
    using assms(4,5) by simp_all
  ultimately show ?thesis
    using waiting_pass [of K ns name ?w mig mw ck] assms(6-8,10) by (simp add: awaited_phase_def)
qed

end
