(* ===== verification/OperatorMain.thy ===== *)
theory OperatorMain
  imports Coordinator Json
begin

text \<open>
  The operator's process (\<open>operator/main.go\<close>) and the life of its REST server
  (\<open>pkg/restapi/server.go\<close>): the command line as package \<open>flag\<close> reads it, the seeding, the wiring
  of the manager, and how the process ends. The manager is an argument: for each thing it is asked
  to do, the error if it fails. The flags that other packages register are an argument too.
\<close>

section \<open>Options\<close>

record options =
  op_metrics_addr :: string
  op_probe_addr :: string
  op_rest_addr :: string
  op_default_namespace :: string
  op_leader_elect :: bool
  op_dashboard_enabled :: bool
  op_history_enabled :: bool
  op_history_limit :: int

definition default_options :: options where
  "default_options =
     \<lparr>op_metrics_addr = ''0'', op_probe_addr = '':8081'', op_rest_addr = '':8080'',
      op_default_namespace = ''mig-ready'', op_leader_elect = False, op_dashboard_enabled = True,
      op_history_enabled = True, op_history_limit = default_limit\<rparr>"

definition own_flags :: "(string \<times> options setter) list" where
  "own_flags =
     [(''metrics-bind-address'', SetString (\<lambda>v p. p\<lparr>op_metrics_addr := v\<rparr>)),
      (''health-probe-bind-address'', SetString (\<lambda>v p. p\<lparr>op_probe_addr := v\<rparr>)),
      (''rest-bind-address'', SetString (\<lambda>v p. p\<lparr>op_rest_addr := v\<rparr>)),
      (''default-namespace'', SetString (\<lambda>v p. p\<lparr>op_default_namespace := v\<rparr>)),
      (''leader-elect'', SetBool (\<lambda>b p. p\<lparr>op_leader_elect := b\<rparr>)),
      (''dashboard-enabled'', SetBool (\<lambda>b p. p\<lparr>op_dashboard_enabled := b\<rparr>)),
      (''history-enabled'', SetBool (\<lambda>b p. p\<lparr>op_history_enabled := b\<rparr>)),
      (''history-limit'', SetInt (\<lambda>n p. p\<lparr>op_history_limit := n\<rparr>))]"

section \<open>The texts of flags\<close>

definition parse_bool :: "string \<Rightarrow> bool option" where
  "parse_bool s =
     (if s \<in> {''1'', ''t'', ''T'', ''TRUE'', ''true'', ''True''} then Some True
      else if s \<in> {''0'', ''f'', ''F'', ''FALSE'', ''false'', ''False''} then Some False
      else None)"

text \<open>\<open>strconv.ParseInt\<close> with base 0: a sign, a prefix for the base, digits and underscores between them.\<close>

definition digit36 :: "char \<Rightarrow> nat option" where
  "digit36 c =
     (let b = of_char c :: nat in
      if is_digit c then Some (digit_val c)
      else if 97 \<le> b \<and> b \<le> 122 then Some (b - 87)
      else if 65 \<le> b \<and> b \<le> 90 then Some (b - 55)
      else None)"

fun parse_digits :: "nat \<Rightarrow> nat \<Rightarrow> string \<Rightarrow> nat option" where
  "parse_digits base acc [] = Some acc"
| "parse_digits base acc (c # s) =
     (if c = CHR ''_'' then parse_digits base acc s
      else (case digit36 c of
              None \<Rightarrow> None
            | Some d \<Rightarrow> if d < base then parse_digits base (acc * base + d) s else None))"

text \<open>Every underscore comes after a digit (or a prefix, \<open>ok\<close>), and none is the last.\<close>

fun underscores_fit :: "bool \<Rightarrow> string \<Rightarrow> bool" where
  "underscores_fit ok [] = True"
| "underscores_fit ok (c # s) =
     (if c = CHR ''_'' then ok \<and> s \<noteq> [] \<and> underscores_fit False s else underscores_fit True s)"

definition number_base :: "string \<Rightarrow> nat \<times> bool \<times> string" where
  "number_base s =
     (if s = [] \<or> hd s \<noteq> CHR ''0'' then (10, False, s)
      else if length s \<ge> 3 \<and> s ! 1 \<in> {CHR ''b'', CHR ''B''} then (2, True, drop 2 s)
      else if length s \<ge> 3 \<and> s ! 1 \<in> {CHR ''o'', CHR ''O''} then (8, True, drop 2 s)
      else if length s \<ge> 3 \<and> s ! 1 \<in> {CHR ''x'', CHR ''X''} then (16, True, drop 2 s)
      else (8, True, tl s))"

definition parse_unsigned :: "string \<Rightarrow> nat option" where
  "parse_unsigned s =
     (if s = [] then None
      else (case number_base s of
              (base, prefixed, rest) \<Rightarrow>
                if underscores_fit prefixed rest then parse_digits base 0 rest else None))"

definition parse_int :: "string \<Rightarrow> int option" where
  "parse_int s =
     (let neg = (s \<noteq> [] \<and> hd s = CHR ''-'');
          rest = (if s \<noteq> [] \<and> hd s \<in> {CHR ''-'', CHR ''+''} then tl s else s)
      in case parse_unsigned rest of
           None \<Rightarrow> None
         | Some n \<Rightarrow> (let v = (if neg then - int n else int n) in if in_i64 v then Some v else None))"

text \<open>Setting a flag from its text; \<open>None\<close>: not a text for it.\<close>

fun set_flag :: "'o setter \<Rightarrow> string \<Rightarrow> 'o \<Rightarrow> 'o option" where
  "set_flag (SetString f) text p = Some (f text p)"
| "set_flag (SetBool f) text p = map_option (\<lambda>b. f b p) (parse_bool text)"
| "set_flag (SetInt f) text p = map_option (\<lambda>n. f n p) (parse_int text)"
| "set_flag (SetOptBool f) text p = None"

fun is_bool_flag :: "'o setter \<Rightarrow> bool" where
  "is_bool_flag (SetBool _) = True"
| "is_bool_flag _ = False"

section \<open>The command line\<close>

text \<open>
  The flags of other packages (the logger's, \<open>kubeconfig\<close>): whether a name is one, whether it is a
  boolean one, and which texts it takes.
\<close>

type_synonym other_flags = "string \<Rightarrow> (bool \<times> (string \<Rightarrow> bool)) option"

text \<open>A flag by its name: whether it is boolean, and what a text sets.\<close>

definition lookup_flag ::
    "other_flags \<Rightarrow> string \<Rightarrow> (bool \<times> (string \<Rightarrow> options \<Rightarrow> options option)) option" where
  "lookup_flag other name =
     (case map_of own_flags name of
        Some f \<Rightarrow> Some (is_bool_flag f, set_flag f)
      | None \<Rightarrow>
          (case other name of
             None \<Rightarrow> None
           | Some (boolean, accepts) \<Rightarrow> Some (boolean, \<lambda>text p. if accepts text then Some p else None)))"

text \<open>The part after the first place of the name that has an equals sign is the text.\<close>

definition split_flag :: "string \<Rightarrow> string \<times> string option" where
  "split_flag s =
     (let name = takeWhile (\<lambda>c. c \<noteq> CHR ''='') s; rest = dropWhile (\<lambda>c. c \<noteq> CHR ''='') s
      in (name, if rest = [] then None else Some (tl rest)))"

text \<open>\<open>flag.Parse\<close>: the options, or the code the process exits with.\<close>

datatype parsed = Parsed options | FlagExit nat

definition flag_text :: "string \<Rightarrow> string option" where
  "flag_text s =
     (if length s < 2 \<or> hd s \<noteq> CHR ''-'' \<or> s = ''--'' then None
      else Some (if s ! 1 = CHR ''-'' then drop 2 s else drop 1 s))"

fun parse_flags :: "other_flags \<Rightarrow> string list \<Rightarrow> options \<Rightarrow> parsed" where
  "parse_flags other [] p = Parsed p"
| "parse_flags other (s # args) p =
     (case flag_text s of
        None \<Rightarrow> Parsed p
      | Some text \<Rightarrow>
          (if text = [] \<or> hd text \<in> {CHR ''-'', CHR ''=''} then FlagExit 2
           else
             (case split_flag text of
                (name, given) \<Rightarrow>
                  (case lookup_flag other name of
                     None \<Rightarrow> FlagExit (if name \<in> {''help'', ''h''} then 0 else 2)
                   | Some (boolean, put) \<Rightarrow>
                       (case (given, boolean, args) of
                          (Some v, _, _) \<Rightarrow>
                            (case put v p of None \<Rightarrow> FlagExit 2 | Some p' \<Rightarrow> parse_flags other args p')
                        | (None, True, _) \<Rightarrow>
                            (case put ''true'' p of None \<Rightarrow> FlagExit 2 | Some p' \<Rightarrow> parse_flags other args p')
                        | (None, False, []) \<Rightarrow> FlagExit 2
                        | (None, False, v # rest) \<Rightarrow>
                            (case put v p of None \<Rightarrow> FlagExit 2 | Some p' \<Rightarrow> parse_flags other rest p'))))))"

section \<open>The process\<close>

text \<open>What the manager answers to each thing it is asked for, in the order of the code.\<close>

record manager_answers =
  sx_manager :: "options \<Rightarrow> go_err option"
  sx_seed_client :: "go_err option"
  sx_migration_controller :: "go_err option"
  sx_workload_controller :: "go_err option"
  sx_add_server :: "server \<Rightarrow> string \<Rightarrow> go_err option"
  sx_healthz :: "go_err option"
  sx_readyz :: "go_err option"
  sx_start :: "go_err option"

definition server_of :: "options \<Rightarrow> server" where
  "server_of p =
     \<lparr>sv_default_namespace = op_default_namespace p, sv_has_client = True,
      sv_dashboard_disabled = (\<not> op_dashboard_enabled p)\<rparr>"

text \<open>
  The exit code, and what the manager was started on: the registry and history that the reconcilers
  and the server share, and the server.
\<close>

definition operator_main ::
    "('c, 'l, 's) kube \<Rightarrow> (workload \<Rightarrow> registered_pod \<Rightarrow> instant \<times> instant) \<Rightarrow> other_flags \<Rightarrow> manager_answers \<Rightarrow>
     string list \<Rightarrow> 'c \<Rightarrow> nat \<times> ('c world \<times> server) option" where
  "operator_main K clock other X args c =
     (case parse_flags other args default_options of
        FlagExit code \<Rightarrow> (code, None)
      | Parsed p \<Rightarrow>
          (if sx_manager X p \<noteq> None then (1, None)
           else
             (let w = startup K clock (sx_seed_client X = None) (op_history_enabled p) (op_history_limit p) c;
                  sv = server_of p
              in if sx_migration_controller X \<noteq> None \<or> sx_workload_controller X \<noteq> None \<or>
                    sx_add_server X sv (op_rest_addr p) \<noteq> None \<or> sx_healthz X \<noteq> None \<or> sx_readyz X \<noteq> None
                 then (1, None)
                 else (if sx_start X = None then 0 else 1, Some (w, sv)))))"

section \<open>The life of the server\<close>

definition server_closed :: go_err where
  "server_closed = GoErr Other ''http: Server closed''"

text \<open>What \<open>Start\<close> waits for first: the end of the context, or the end of \<open>ListenAndServe\<close>.\<close>

datatype server_event = ContextDone | ListenEnded go_err

text \<open>\<open>shutdown\<close>: the error of shutting down within ten seconds, if any.\<close>

fun server_start :: "go_err option \<Rightarrow> server_event \<Rightarrow> go_err option" where
  "server_start shutdown ContextDone = shutdown"
| "server_start shutdown (ListenEnded e) = (if e = server_closed then None else Some e)"

definition need_leader_election :: bool where
  "need_leader_election = False"

section \<open>What was started\<close>

text \<open>A flag at the front, written as \<open>-name=text\<close>, is set before the others are read.\<close>

lemma parse_flags_front:
  assumes "(name, f) \<in> set own_flags" and "set_flag f text p = Some p'"
  shows "parse_flags other ((CHR ''-'' # name @ CHR ''='' # text) # args) p = parse_flags other args p'"
proof -
  have own: "map_of own_flags name = Some f"
    using assms(1) by (intro map_of_is_SomeI) (simp_all add: own_flags_def)
  have name: "name \<noteq> []" "hd name \<notin> {CHR ''-'', CHR ''=''}" "CHR ''='' \<notin> set name"
    using assms(1) by (auto simp: own_flags_def)
  have "takeWhile (\<lambda>c. c \<noteq> CHR ''='') (name @ CHR ''='' # text) = name"
    using name(3) by (subst takeWhile_append2) auto
  moreover have "dropWhile (\<lambda>c. c \<noteq> CHR ''='') (name @ CHR ''='' # text) = CHR ''='' # text"
    using name(3) by (subst dropWhile_append2) auto
  ultimately have "split_flag (name @ CHR ''='' # text) = (name, Some text)" by (simp add: split_flag_def Let_def)
  moreover have "flag_text (CHR ''-'' # name @ CHR ''='' # text) = Some (name @ CHR ''='' # text)"
    using name by (cases name) (auto simp: flag_text_def)
  ultimately show ?thesis using name own assms(2) by (cases name) (simp_all add: lookup_flag_def)
qed

text \<open>
  A command line of own flags, each written \<open>-name=text\<close> with a text that the flag takes, and what it
  asks for by the names of the flags: the last text given for a name counts, else the default.
\<close>

definition flag_arg :: "string \<times> string \<Rightarrow> string" where
  "flag_arg = (\<lambda>(n, v). CHR ''-'' # n @ CHR ''='' # v)"

definition takes :: "string \<Rightarrow> string \<Rightarrow> bool" where
  "takes n v \<longleftrightarrow>
     n \<in> {''metrics-bind-address'', ''health-probe-bind-address'', ''rest-bind-address'', ''default-namespace''} \<or>
     n \<in> {''leader-elect'', ''dashboard-enabled'', ''history-enabled''} \<and> parse_bool v \<noteq> None \<or>
     n = ''history-limit'' \<and> parse_int v \<noteq> None"

definition text_flag :: "string \<Rightarrow> (string \<times> string) list \<Rightarrow> string \<Rightarrow> string" where
  "text_flag n fs d = (case map_of (rev fs) n of None \<Rightarrow> d | Some v \<Rightarrow> v)"

definition bool_flag :: "string \<Rightarrow> (string \<times> string) list \<Rightarrow> bool \<Rightarrow> bool" where
  "bool_flag n fs d = (case map_of (rev fs) n of None \<Rightarrow> d | Some v \<Rightarrow> parse_bool v = Some True)"

definition int_flag :: "string \<Rightarrow> (string \<times> string) list \<Rightarrow> int \<Rightarrow> int" where
  "int_flag n fs d = (case map_of (rev fs) n of None \<Rightarrow> d | Some v \<Rightarrow> the (parse_int v))"

definition asked_for :: "(string \<times> string) list \<Rightarrow> options" where
  "asked_for fs =
     \<lparr>op_metrics_addr = text_flag ''metrics-bind-address'' fs ''0'',
      op_probe_addr = text_flag ''health-probe-bind-address'' fs '':8081'',
      op_rest_addr = text_flag ''rest-bind-address'' fs '':8080'',
      op_default_namespace = text_flag ''default-namespace'' fs ''mig-ready'',
      op_leader_elect = bool_flag ''leader-elect'' fs False,
      op_dashboard_enabled = bool_flag ''dashboard-enabled'' fs True,
      op_history_enabled = bool_flag ''history-enabled'' fs True,
      op_history_limit = int_flag ''history-limit'' fs 100\<rparr>"

definition server_asked_for :: "(string \<times> string) list \<Rightarrow> server" where
  "server_asked_for fs =
     \<lparr>sv_default_namespace = text_flag ''default-namespace'' fs ''mig-ready'', sv_has_client = True,
      sv_dashboard_disabled = (\<not> bool_flag ''dashboard-enabled'' fs True)\<rparr>"

lemma flag_snoc:
  "text_flag n (fs @ [(k, v)]) d = (if n = k then v else text_flag n fs d)"
  "bool_flag n (fs @ [(k, v)]) e = (if n = k then parse_bool v = Some True else bool_flag n fs e)"
  "int_flag n (fs @ [(k, v)]) i = (if n = k then the (parse_int v) else int_flag n fs i)"
  by (simp_all add: text_flag_def bool_flag_def int_flag_def)

lemma takes_sets:
  assumes "takes k v"
  shows "\<exists>f. map_of own_flags k = Some f \<and> set_flag f v (asked_for fs) = Some (asked_for (fs @ [(k, v)]))"
proof -
  consider "k = ''metrics-bind-address''" | "k = ''health-probe-bind-address''" | "k = ''rest-bind-address''"
    | "k = ''default-namespace''" | "k = ''leader-elect''" "parse_bool v \<noteq> None"
    | "k = ''dashboard-enabled''" "parse_bool v \<noteq> None"
    | "k = ''history-enabled''" "parse_bool v \<noteq> None" | "k = ''history-limit''" "parse_int v \<noteq> None"
    using assms unfolding takes_def insert_iff empty_iff by argo
  then show ?thesis
    by cases (simp_all add: own_flags_def asked_for_def flag_snoc, auto)
qed

lemma parse_asked:
  "list_all (\<lambda>(n, v). takes n v) fs \<Longrightarrow>
   parse_flags other (map flag_arg fs @ args) default_options = parse_flags other args (asked_for fs)"
proof (induction fs arbitrary: args rule: rev_induct)
  case Nil
  have "asked_for [] = default_options"
    by (simp add: asked_for_def default_options_def text_flag_def bool_flag_def int_flag_def default_limit_def)
  then show ?case by simp
next
  case (snoc kv fs)
  obtain k v where kv: "kv = (k, v)" by (cases kv)
  with snoc.prems have ok: "takes k v" and oks: "list_all (\<lambda>(n, v). takes n v) fs" by simp_all
  obtain f where "(k, f) \<in> set own_flags" "set_flag f v (asked_for fs) = Some (asked_for (fs @ [(k, v)]))"
    using takes_sets [OF ok] by (blast dest: map_of_SomeD)
  from parse_flags_front [OF this] snoc.IH [OF oks] show ?case by (simp add: kv flag_arg_def)
qed

text \<open>A flag that is refused: an own one with a text it does not take, or one that nobody has.\<close>

definition refused_flag :: "other_flags \<Rightarrow> string \<Rightarrow> string \<Rightarrow> bool" where
  "refused_flag other n v \<longleftrightarrow>
     (if n \<in> set (map fst own_flags) then \<not> takes n v
      else other n = None \<and> n \<noteq> [] \<and> hd n \<notin> {CHR ''-'', CHR ''=''} \<and> CHR ''='' \<notin> set n \<and>
        n \<notin> {''help'', ''h''})"

lemma parse_refused:
  assumes "refused_flag other n v"
  shows "parse_flags other (flag_arg (n, v) # args) p = FlagExit 2"
proof -
  have name: "n \<noteq> []" "hd n \<notin> {CHR ''-'', CHR ''=''}" "CHR ''='' \<notin> set n"
    using assms by (auto simp: refused_flag_def own_flags_def split: if_splits)
  have "takeWhile (\<lambda>c. c \<noteq> CHR ''='') (n @ CHR ''='' # v) = n"
    using name(3) by (subst takeWhile_append2) auto
  moreover have "dropWhile (\<lambda>c. c \<noteq> CHR ''='') (n @ CHR ''='' # v) = CHR ''='' # v"
    using name(3) by (subst dropWhile_append2) auto
  ultimately have split: "split_flag (n @ CHR ''='' # v) = (n, Some v)" by (simp add: split_flag_def Let_def)
  have ftext: "flag_text (CHR ''-'' # n @ CHR ''='' # v) = Some (n @ CHR ''='' # v)"
    using name by (cases n) (auto simp: flag_text_def)
  show ?thesis
  proof (cases "n \<in> set (map fst own_flags)")
    case True
    with assms have no: "\<not> takes n v" by (simp add: refused_flag_def)
    from True consider "n = ''metrics-bind-address''" | "n = ''health-probe-bind-address''" | "n = ''rest-bind-address''"
      | "n = ''default-namespace''" | "n = ''leader-elect''" | "n = ''dashboard-enabled''"
      | "n = ''history-enabled''" | "n = ''history-limit''"
      unfolding own_flags_def list.map fst_conv list.set insert_iff empty_iff by argo
    then have "\<exists>f. map_of own_flags n = Some f \<and> set_flag f v p = None"
      using no by cases (simp_all add: own_flags_def takes_def)
    with split ftext name show ?thesis by (cases n) (auto simp: flag_arg_def lookup_flag_def)
  next
    case False
    then have "map_of own_flags n = None" by (simp add: map_of_eq_None_iff)
    with False assms split ftext name show ?thesis
      by (cases n) (auto simp: flag_arg_def lookup_flag_def refused_flag_def)
  qed
qed

text \<open>The world that a start leaves.\<close>

definition started_with ::
    "('c, 'l, 's) kube \<Rightarrow> (workload \<Rightarrow> registered_pod \<Rightarrow> instant \<times> instant) \<Rightarrow> bool \<Rightarrow> bool \<Rightarrow> int \<Rightarrow>
     'c \<Rightarrow> 'c world \<Rightarrow> bool" where
  "started_with K clock seeder keep limit c w \<longleftrightarrow>
     w_cluster w = c \<and> consistent w \<and>
     w_registry w = (if seeder then snd (seed_registry K clock c new_registry) else new_registry) \<and>
     (\<exists>s. w_history w = Some s \<and> hs_enabled s = keep \<and> hs_limit s = (if limit \<le> 0 then 100 else limit) \<and>
        (\<not> seeder \<or> \<not> keep \<longrightarrow> hs_records s = fmempty))"

lemma startup_started: "started_with K clock seeder keep limit c (startup K clock seeder keep limit c)"
proof -
  have "hs_enabled (snd (seed_history_from K c s)) = hs_enabled s \<and>
      hs_limit (snd (seed_history_from K c s)) = hs_limit s" for s
    by (simp add: seed_history_from_def seed_history_def split: sum.split)
  then show ?thesis
    using consistent_startup [of K clock seeder keep limit c]
    by (simp add: started_with_def startup_def Let_def new_store_def default_limit_def)
qed

text \<open>
  C37: the operator obeys its command line. Started with its own flags, each with a text it takes,
  it asks the manager for the addresses and the leader election that the flags name, adds a server
  with the namespace, dashboard and address they name, and, when the manager, both controllers, the
  server and both health checks are accepted, starts on a history with the switch and limit they
  name (100 for a limit that is not positive) and on the registry seeded from the cluster if the
  seed client could be built; it then exits with 0 exactly when the manager ends without an error.
  When any of the six is refused it exits with 1 and nothing was started; a flag after the others
  that nobody has, or with a text it does not take, ends it with 2 before anything is asked for.
\<close>

theorem operator_obeys_flags:
  assumes "list_all (\<lambda>(n, v). takes n v) fs"
  shows "(if list_all (\<lambda>e. e = None)
        [sx_manager X (asked_for fs), sx_migration_controller X, sx_workload_controller X,
         sx_add_server X (server_asked_for fs) (text_flag ''rest-bind-address'' fs '':8080''),
         sx_healthz X, sx_readyz X]
      then \<exists>w. operator_main K clock other X (map flag_arg fs) c =
          (if sx_start X = None then 0 else 1, Some (w, server_asked_for fs)) \<and>
        started_with K clock (sx_seed_client X = None) (bool_flag ''history-enabled'' fs True)
          (int_flag ''history-limit'' fs 100) c w
      else operator_main K clock other X (map flag_arg fs) c = (1, None)) \<and>
    (refused_flag other n v \<longrightarrow>
      operator_main K clock other X (map flag_arg fs @ flag_arg (n, v) # args) c = (2, None))"
proof -
  let ?w = "startup K clock (sx_seed_client X = None) (bool_flag ''history-enabled'' fs True)
    (int_flag ''history-limit'' fs 100) c"
  have parsed: "parse_flags other (map flag_arg fs) default_options = Parsed (asked_for fs)"
    using parse_asked [OF assms, of other "[]"] by simp
  have opts: "op_rest_addr (asked_for fs) = text_flag ''rest-bind-address'' fs '':8080''"
    "op_history_enabled (asked_for fs) = bool_flag ''history-enabled'' fs True"
    "op_history_limit (asked_for fs) = int_flag ''history-limit'' fs 100"
    "server_of (asked_for fs) = server_asked_for fs"
    by (simp_all add: asked_for_def server_of_def server_asked_for_def)
  have bad: "operator_main K clock other X (map flag_arg fs @ flag_arg (n, v) # args) c = (2, None)"
    if "refused_flag other n v"
    by (simp add: operator_main_def parse_asked [OF assms] parse_refused [OF that] del: parse_flags.simps)
  show ?thesis
    using bad startup_started [of K clock "sx_seed_client X = None" "bool_flag ''history-enabled'' fs True"
        "int_flag ''history-limit'' fs 100" c]
    by (simp add: operator_main_def parsed opts Let_def del: parse_flags.simps)
qed

end
