(* ===== verification/HttpSpec.thy ===== *)
theory HttpSpec
  imports HttpApi
begin

text \<open>
  What a request over HTTP can do to the coordinator, by its method, its path and the status of its
  answer: which requests change which part of the state, and that a refused one changes nothing.
\<close>

section \<open>Where a request is routed\<close>

lemma route_to:
  "route sv meth p = RouteTo e \<Longrightarrow>
   \<exists>m pat. (m, pat, e) \<in> set (routes sv) \<and> method_matches m meth \<and> path_matches pat p"
  by (auto simp: route_def Let_def find_Some_iff split: option.splits if_splits) (metis nth_mem)

text \<open>The endpoints that can change something, with the paths they are posted to.\<close>

fun posted_to :: "endpoint \<Rightarrow> string set" where
  "posted_to ERegister = {''/register''}"
| "posted_to ECopy = {''/copy''}"
| "posted_to ESync = {''/sync''}"
| "posted_to ERestored = {''/restored''}"
| "posted_to ERemove = {''/remove''}"
| "posted_to EMigrate = {''/migrate'', ''/api/v1/migrations''}"
| "posted_to EHistoryConfigSet = {''/api/v1/history/config''}"
| "posted_to _ = {}"

lemma posted:
  assumes "route sv meth p = RouteTo e" and "posted_to e \<noteq> {}"
  shows "meth = ''POST'' \<and> p \<in> posted_to e"
proof -
  obtain m pat where r: "(m, pat, e) \<in> set (routes sv)" and mm: "method_matches m meth" and pm: "path_matches pat p"
    using route_to [OF assms(1)] by blast
  have "m = ''POST'' \<and> pat \<in> posted_to e \<and> \<not> ends_in_slash pat"
    using r assms(2) by (cases e) (auto simp: routes_def ends_in_slash_def split: if_splits)
  with mm pm show ?thesis by (simp add: method_matches_def path_matches_def)
qed

lemma posts_routed:
  "route sv ''POST'' ''/register'' = RouteTo ERegister" "route sv ''POST'' ''/remove'' = RouteTo ERemove"
  "route sv ''POST'' ''/copy'' = RouteTo ECopy" "route sv ''POST'' ''/sync'' = RouteTo ESync"
  "route sv ''POST'' ''/restored'' = RouteTo ERestored" "route sv ''POST'' ''/migrate'' = RouteTo EMigrate"
  "route sv ''POST'' ''/api/v1/migrations'' = RouteTo EMigrate"
  "route sv ''POST'' ''/api/v1/history/config'' = RouteTo EHistoryConfigSet"
  by (simp_all add: route_def routes_def method_matches_def path_matches_def ends_in_slash_def)

section \<open>The handlers\<close>

lemma register_codes:
  "handle_register now mid q m = (Response code b, m') \<Longrightarrow> (code = 400 \<and> m' = m) \<or> code = 200 \<or> code = 201"
  by (auto simp: handle_register_def Let_def split: option.splits if_splits prod.splits)

lemma sync_codes:
  "handle_sync mid q m = (Response code b, m') \<Longrightarrow> (code = 400 \<or> code = 404) \<and> m' = m \<or> code = 200"
  by (auto simp: handle_sync_def record_sync_round_def not_registered_def Let_def split: option.splits if_splits)

lemma copy_codes:
  "handle_copy q m = (Response code b, m') \<Longrightarrow> (code = 400 \<or> code = 404) \<and> m' = m \<or> code = 200"
  by (auto simp: handle_copy_def mark_checkpoint_ready_def not_registered_def Let_def split: option.splits if_splits)

lemma restored_codes:
  "handle_restored q m = (Response code b, m') \<Longrightarrow> (code = 400 \<or> code = 404) \<and> m' = m \<or> code = 200"
  by (auto simp: handle_restored_def mark_restored_def not_registered_def split: option.splits)

lemma migrate_codes:
  "handle_migrate K sv q c = (Response code b, c') \<Longrightarrow> code = 400 \<and> c' = c \<or> code \<in> {200, 404, 500}"
  by (auto simp: handle_migrate_def Let_def split: option.splits if_splits sum.splits prod.splits)

lemma config_codes:
  "handle_history_config_set q h = (Response code b, h') \<Longrightarrow>
   (code = 400 \<or> code = 503 \<and> h = None) \<and> h' = h \<or> code = 200"
  by (auto simp: handle_history_config_set_def split: option.splits)

section \<open>Requests\<close>

text \<open>
  A POST that its handler cannot use: the body is missing or is not JSON for it, or a field that it
  needs is empty.
\<close>

definition unfit :: "http_request \<Rightarrow> bool" where
  "unfit rq \<longleftrightarrow> hq_method rq = ''POST'' \<and>
     (hq_path rq = ''/register'' \<and>
        (case Option.bind (hq_body rq) decode_message of None \<Rightarrow> True | Some msg \<Rightarrow> me_pod_name msg = []) \<or>
      hq_path rq \<in> {''/remove'', ''/restored''} \<and> Option.bind (hq_body rq) decode_pod_name = None \<or>
      hq_path rq = ''/copy'' \<and> Option.bind (hq_body rq) decode_copy = None \<or>
      hq_path rq = ''/sync'' \<and> Option.bind (hq_body rq) decode_sync = None \<or>
      hq_path rq \<in> {''/migrate'', ''/api/v1/migrations''} \<and>
        (case Option.bind (hq_body rq) decode_migrate of
           None \<Rightarrow> True
         | Some r \<Rightarrow> mr_workload r = [] \<and> mr_deployment r = [] \<or> mr_source_node r = [] \<and> mr_origin_node r = [] \<or>
             mr_target_node r = [] \<and> mr_dest_node r = []) \<or>
      hq_path rq = ''/api/v1/history/config'' \<and>
        (case Option.bind (hq_body rq) decode_enabled of None \<Rightarrow> True | Some x \<Rightarrow> x = None))"

text \<open>What a served request changed, by its endpoint.\<close>

definition changed_as :: "endpoint \<Rightarrow> nat \<Rightarrow> 'c world \<Rightarrow> 'c world \<Rightarrow> bool" where
  "changed_as e code w w' \<longleftrightarrow>
     w' = w \<or>
     e \<in> {ERegister, ECopy, ESync, ERestored} \<and> code \<in> {200, 201} \<and> (\<exists>m. w' = w\<lparr>w_registry := m\<rparr>) \<or>
     e = EMigrate \<and> code \<in> {200, 404, 500} \<and> (\<exists>c. w' = w\<lparr>w_cluster := c\<rparr>) \<or>
     e = EHistoryConfigSet \<and> code = 200 \<and> (\<exists>h. w' = w\<lparr>w_history := h\<rparr>)"

lemma same_world: "w\<lparr>w_registry := w_registry w\<rparr> = w" "w\<lparr>w_cluster := w_cluster w\<rparr> = w" "w\<lparr>w_history := w_history w\<rparr> = w"
  by simp_all

lemma serve_changes:
  assumes "request_of e rq = Some req" and "serve K sv fdiv ck mid req w = (Response code b, w')"
  shows "changed_as e code w w'"
proof (cases e)
  case ERegister
  with assms show ?thesis
    by (auto simp: changed_as_def same_world split: prod.splits dest!: register_codes)
next
  case ECopy
  with assms show ?thesis by (auto simp: changed_as_def same_world split: prod.splits dest!: copy_codes)
next
  case ESync
  with assms show ?thesis by (auto simp: changed_as_def same_world split: prod.splits dest!: sync_codes)
next
  case ERestored
  with assms show ?thesis by (auto simp: changed_as_def same_world split: prod.splits dest!: restored_codes)
next
  case EMigrate
  with assms show ?thesis
    by (auto simp: changed_as_def same_world on_cluster_def split: prod.splits dest!: migrate_codes)
next
  case EHistoryConfigSet
  with assms show ?thesis by (auto simp: changed_as_def same_world split: prod.splits dest!: config_codes)
qed (use assms in \<open>auto simp: changed_as_def\<close>)

lemma serve_http_changes:
  assumes "serve_http K sv fdiv stamp float_json assets ck mid rq w = ((code, answer), w')"
  shows "w' = w \<or> (\<exists>e. route sv (hq_method rq) (hq_path rq) = RouteTo e \<and> posted_to e \<noteq> {} \<and> changed_as e code w w')"
proof (cases "\<exists>e req. route sv (hq_method rq) (hq_path rq) = RouteTo e \<and> request_of e rq = Some req")
  case True
  then obtain e req where r: "route sv (hq_method rq) (hq_path rq) = RouteTo e" "request_of e rq = Some req" by blast
  with assms obtain b where "serve K sv fdiv ck mid req w = (Response code b, w')"
    by (auto simp: serve_http_def split: prod.splits response.splits)
  from serve_changes [OF r(2) this] have c: "changed_as e code w w'" .
  then have "w' = w \<or> posted_to e \<noteq> {}" by (auto simp: changed_as_def)
  with r c show ?thesis by blast
next
  case False
  with assms show ?thesis by (auto simp: serve_http_def split: routed.splits option.splits)
qed

lemma unfit_refused:
  assumes "unfit rq" and "serve_http K sv fdiv stamp float_json assets ck mid rq w = ((code, answer), w')"
  shows "w' = w \<and> (code = 400 \<or> code = 503 \<and> w_history w = None)"
  using assms
  by (auto simp: unfit_def serve_http_def posts_routed handle_register_def handle_remove_def handle_copy_def
      handle_sync_def handle_restored_def handle_migrate_def handle_history_config_set_def on_cluster_def or_else_def
      Let_def split: option.splits)

text \<open>
  C24: a refused request changes nothing. Whatever is sent, by whatever method, to whatever path:
  the registry changes only by a POST to \<open>/register\<close>, \<open>/copy\<close>, \<open>/sync\<close> or \<open>/restored\<close> that is
  answered with 200 or 201, the history only by one to \<open>/api/v1/history/config\<close> answered with 200,
  and the cluster only by one to \<open>/migrate\<close> or \<open>/api/v1/migrations\<close>; so an answer of 400 or more
  leaves registry and history as they were. A body that the handler cannot read, an empty pod name at
  \<open>/register\<close>, a missing workload or node at \<open>/migrate\<close> and a missing switch for the history are
  refused with 400 (or 503 when there is no history), and nothing at all has changed.
\<close>

theorem refused_requests_change_nothing:
  assumes "serve_http K sv fdiv stamp float_json assets ck mid rq w = ((code, answer), w')"
  shows "(w_registry w' \<noteq> w_registry w \<longrightarrow> hq_method rq = ''POST'' \<and>
      hq_path rq \<in> {''/register'', ''/copy'', ''/sync'', ''/restored''} \<and> (code = 200 \<or> code = 201)) \<and>
    (w_history w' \<noteq> w_history w \<longrightarrow> hq_method rq = ''POST'' \<and>
      hq_path rq = ''/api/v1/history/config'' \<and> code = 200) \<and>
    (w_cluster w' \<noteq> w_cluster w \<longrightarrow> hq_method rq = ''POST'' \<and>
      hq_path rq \<in> {''/migrate'', ''/api/v1/migrations''} \<and> code \<in> {200, 404, 500}) \<and>
    (400 \<le> code \<longrightarrow> w_registry w' = w_registry w \<and> w_history w' = w_history w) \<and>
    (unfit rq \<longrightarrow> w' = w \<and> (code = 400 \<or> code = 503 \<and> w_history w = None))"
proof -
  have "(w_registry w' \<noteq> w_registry w \<longrightarrow> hq_method rq = ''POST'' \<and>
      hq_path rq \<in> {''/register'', ''/copy'', ''/sync'', ''/restored''} \<and> (code = 200 \<or> code = 201)) \<and>
    (w_history w' \<noteq> w_history w \<longrightarrow> hq_method rq = ''POST'' \<and>
      hq_path rq = ''/api/v1/history/config'' \<and> code = 200) \<and>
    (w_cluster w' \<noteq> w_cluster w \<longrightarrow> hq_method rq = ''POST'' \<and>
      hq_path rq \<in> {''/migrate'', ''/api/v1/migrations''} \<and> code \<in> {200, 404, 500}) \<and>
    (400 \<le> code \<longrightarrow> w_registry w' = w_registry w \<and> w_history w' = w_history w)"
    using serve_http_changes [OF assms]
  proof (elim disjE exE conjE)
    fix e assume r: "route sv (hq_method rq) (hq_path rq) = RouteTo e" "posted_to e \<noteq> {}" and c: "changed_as e code w w'"
    from posted [OF r] have "hq_method rq = ''POST''" "hq_path rq \<in> posted_to e" by simp_all
    with c show ?thesis by (auto simp: changed_as_def)
  qed simp
  with unfit_refused [OF _ assms] show ?thesis by blast
qed

end
