(* ===== verification/WireExamples.thy ===== *)
theory WireExamples
  imports AgentExamples AgentWire VolumeTravel HookReport OperatorMain HttpSpec
begin

text \<open>
  Concrete instances of the properties that span the two programs and the network between them.
\<close>

section \<open>Requests\<close>

text \<open>A registration without a pod name, for which \<open>mid\<close> would arm a pod if it were taken.\<close>

definition nameless :: http_request where
  "nameless = post_request ''/register'' (encode_agent_message (web_message [] ''10.0.0.1''))"

theorem refused_requests_change_nothing_witness:
  "\<exists>answer. serve_http mini_kube web_server (\<lambda>a b. a + b :: int) (\<lambda>_. []) JInt (\<lambda>_. 200)
      \<lparr>rc_now = 1, rc_snapshot = 1, rc_downtime = (\<lambda>_. 1)\<rparr> (arm 2 ''web-0'' demo_info) nameless
      (web_world ''StatefulSet'') = ((400, answer), web_world ''StatefulSet'')"
proof -
  let ?ck = "\<lparr>rc_now = 1, rc_snapshot = 1, rc_downtime = (\<lambda>_. 1)\<rparr>"
  let ?x = "serve_http mini_kube web_server (\<lambda>a b. a + b :: int) (\<lambda>_. []) JInt (\<lambda>_. 200) ?ck
      (arm 2 ''web-0'' demo_info) nameless (web_world ''StatefulSet'')"
  obtain code answer w' where x: "?x = ((code, answer), w')" by (metis prod.collapse)
  have unfit: "unfit nameless" by code_simp
  have "fst (fst ?x) = 400" by code_simp
  then have "code = 400" by (simp add: x)
  with refused_requests_change_nothing [OF x] unfit x show ?thesis by auto
qed

theorem agent_calls_travel_over_http_witness:
  "\<exists>b. remove_over_http (operator mini_kube web_server (\<lambda>a b. nat (a + b)) (\<lambda>_. []) (\<lambda>n. JInt (int n)) (\<lambda>_. 200) id
      (web_cluster ''StatefulSet'') None) ''coord'' ''p'' source_agent = (Inr (remove_answer source_record), b) \<and>
    a_log b = [(PostRemove ''p'', True)]"
proof -
  have typed: "typed_registry (registry_then source_agent)"
    by (auto simp: typed_registry_def registry_then_def source_agent_def source_registry_def fmlookup_of_list
        split: if_splits) code_simp
  have "sendable (web_message ''web-0'' ''10.0.0.1'')" "valid_utf8 ''p''" "valid_utf8 ''/ckpt''" by code_simp+
  from agent_calls_travel_over_http [OF refl typed this, of mini_kube web_server "\<lambda>a b. nat (a + b)" "\<lambda>_. []"
      "\<lambda>n. JInt (int n)" "\<lambda>_. 200" id "web_cluster ''StatefulSet''" None "''coord''" 0, THEN conjunct2, THEN conjunct1]
  show ?thesis
    by (simp add: post_remove_def andthen_def wrapping_def post_def source_agent_def source_answers(1) run_dmtcp)
qed

section \<open>The volume\<close>

text \<open>
  The layers 1 to 3 of \<open>data_tree\<close>, of which 1 was sent before; an archive is the first letter of its
  first entry on the wire.
\<close>

definition volume_record :: pod_record where
  "volume_record = zero_pod_record\<lparr>pr_name := ''p'', pr_migrating := True, pr_volume_migration := True,
     pr_dest_registered := True, pr_dest_address := ''10.0.0.2:2486''\<rparr>"

definition volume_env :: "string \<Rightarrow> string" where
  "volume_env name = (if name = ''VOLUME_ROOT_DIR'' then ''/vol'' else [])"

definition volume_agent :: agent where
  "volume_agent = (demo_agent data_tree 0)\<lparr>a_registry := fmap_of_list [(''p'', volume_record)], a_env := volume_env\<rparr>"

definition demo_pack :: "tar_entry list \<Rightarrow> byte list" where
  "demo_pack es = [if es = [] then 0 else of_char (hd (te_name (hd es)))]"

definition demo_unpack :: "byte list \<Rightarrow> payload \<times> byte list" where
  "demo_unpack bs = (Archive (if hd bs = 0 then [] else if hd bs = of_char (CHR ''f'') then demo_entries 1 else demo_entries 2) None, tl bs)"

lemma data_archives:
  "layer_archive [''data''] data_tree 1 = Inr (demo_entries 1)" "layer_archive [''data''] data_tree 2 = Inr (demo_entries 2)"
  "layer_archive [''data''] data_tree 3 = Inr []"
  "demo_unpack (demo_pack (demo_entries 1)) = (Archive (demo_entries 1) None, [])"
  "demo_unpack (demo_pack (demo_entries 2)) = (Archive (demo_entries 2) None, [])"
  by code_simp+

lemma volume_source: "source_volume demo_lm [''data''] (volume_agent\<lparr>a_level := 3\<rparr>)"
proof -
  have place: "send_place demo_lm [''data''] (volume_agent\<lparr>a_level := 3\<rparr>)"
    using data_place [of 3] by (simp add: send_place_def data_place_def volume_agent_def data_sent) (simp add: dir_at_def data_tree_at)
  have one: "itoa 1 = ''1''" "itoa 2 = ''2''" "itoa 3 = ''3''" by code_simp+
  have "unused_level [''data''] data_tree n" if "3 < n" for n
  proof -
    have "itoa n \<noteq> ''1''" "itoa n \<noteq> ''2''" "itoa n \<noteq> ''3''" using that itoa_inject [of n 1] itoa_inject [of n 2] itoa_inject [of n 3] by (auto simp: one)
    with that show ?thesis by (simp add: unused_level_def sent_at_def data_sent) (simp add: data_tree_at)
  qed
  moreover have "node_at data_tree p \<noteq> Some (Link [])" for p
    by (auto simp: data_tree_at dest!: map_of_SomeD)
  ultimately show ?thesis
    using place by (simp add: source_volume_def volume_agent_def data_canonical data_ordinals data_archives sent_at_def data_sent)
qed

theorem volume_travels_witness:
  "\<exists>b. run_migration_target demo_unpack (errorf ''timeout'')
      (\<lambda>_. map (delivered demo_pack) (sent_frames ''10.0.0.2:2486'' (a_log (snd (end_container ''coord'' ''p'' ''/ckpt'' volume_agent)))))
      demo_lm ''/ckpt'' False True (demo_agent etc_tree 0) = (Inr (), b) \<and> a_level b = 1 \<and>
    copy_of (demo_agent etc_tree 0) data_tree (source_home [''data''] 2) (a_tree b) (layer_home [''data''] 2) \<and>
    copy_of (demo_agent etc_tree 0) data_tree (source_home [''data''] 3) (a_tree b) (layer_home [''data''] 3)"
proof -
  have env: "env_or (a_env volume_agent) ''DATA_DIR'' ''/data'' = ''/data''" "env_or (a_env volume_agent) ''VOLUME_ROOT_DIR'' [] = ''/vol''"
    "env_int (a_env volume_agent) ''CHECKPOINT_ROUNDS'' 1 = 1"
    by (simp_all add: env_or_def env_int_def volume_agent_def volume_env_def)
  then have lm: "demo_lm = new_layer_manager (env_or (a_env volume_agent) ''DATA_DIR'' ''/data'') (env_or (a_env volume_agent) ''VOLUME_ROOT_DIR'' [])"
    "env_or (a_env volume_agent) ''VOLUME_ROOT_DIR'' [] \<noteq> []"
    by (simp_all add: demo_lm_def)
  have rec: "get_record ''p'' (a_registry volume_agent) = Some volume_record"
    by (simp add: volume_agent_def get_record_def)
  have armed: "pr_migrating volume_record" "pr_volume_migration volume_record" "\<not> pr_process_migration volume_record"
    "pr_dest_address volume_record \<noteq> []"
    by (simp_all add: volume_record_def zero_pod_record_def)
  have new: "sent_frames (pr_dest_address volume_record) (a_log volume_agent) = []" by (simp add: volume_agent_def)
  have bound: "3 + env_int (a_env volume_agent) ''CHECKPOINT_ROUNDS'' 1 < 2 ^ 32" by (simp add: env)
  have place: "data_place demo_lm [''data''] (demo_agent etc_tree 0)"
    by (auto simp: data_place_def etc_tree_wf data_path(1) data_path(2) [simplified] prefix_Cons dir_at_def etc_tree_at)
  have clear: "node_at (a_tree (demo_agent etc_tree 0)) ([''data''] @ [''l'' @ s]) = None" for s by (simp add: etc_tree_at)
  have free: "level_free [''data''] (demo_agent etc_tree 0) 1" by (simp add: level_free_def) (simp add: etc_tree_at)
  have tree: "a_tree volume_agent = data_tree" by (simp add: volume_agent_def)
  have codec: "demo_unpack (demo_pack (archive_of [''data''] (a_tree volume_agent) n)) = (Archive (archive_of [''data''] (a_tree volume_agent) n) None, [])"
    if "n \<in> ordinals ''u'' [''data''] (a_tree volume_agent)" for n
    using that by (auto simp: tree data_ordinals archive_of_def data_archives) (simp_all add: demo_pack_def demo_unpack_def)
  have codec0: "demo_unpack (demo_pack []) = (Archive [] None, [])" by (simp add: demo_pack_def demo_unpack_def)
  have level: "a_level (demo_agent etc_tree 0) = 0" by simp
  have pend: "pending [''data''] volume_agent = [2, 3]"
    by (simp add: pending_def tree data_ordinals sent_at_def data_sent)
  have dest: "pr_dest_address volume_record = ''10.0.0.2:2486''" by (simp add: volume_record_def)
  from volume_travels [OF volume_source lm rec armed new bound place level clear free codec codec0,
      of "errorf ''timeout''" "''coord''" "''/ckpt''" "''/ckpt''"]
  show ?thesis unfolding pend dest tree by auto
qed

section \<open>The report and the reconciler\<close>

definition waiting_world :: "mini world" where
  "waiting_world = web_at Checkpointing (\<lambda>s. s\<lparr>mst_source_pod := ''p''\<rparr>) ''StatefulSet''"

theorem hook_report_ends_the_wait_witness:
  "\<exists>m ok. pass_writes mini_kube (tick 2) ''ns'' ''web-1'' (waiting_world
      \<lparr>w_registry := a_registry (snd (end_container ''coord'' ''p'' ''/ckpt'' source_agent))\<rparr>) = [WStatus m ok] \<and>
    phase_of m = Transferring"
proof -
  let ?b = "snd (end_container ''coord'' ''p'' ''/ckpt'' source_agent)" and ?c = "w_cluster waiting_world"
  have run: "end_container ''coord'' ''p'' ''/ckpt'' source_agent = (Inr (), ?b)"
    using source_run by (simp add: prod_eq_iff)
  have get: "k_get_migration mini_kube ''ns'' ''web-1'' ?c = Inr (mn_migration ?c)"
    unfolding waiting_world_def by (rule web_get)
  have mw: "k_get_workload mini_kube (mg_namespace (mn_migration ?c)) (ms_workload_name (mg_spec (mn_migration ?c))) ?c =
      Inr (mn_workload ?c)" by code_simp
  have facts: "\<not> being_deleted (mn_migration ?c)" "migration_finalizer \<in> set (mg_finalizers (mn_migration ?c))"
    "phase_of (mn_migration ?c) = Checkpointing" "mst_source_pod (mg_status (mn_migration ?c)) = ''p''"
    "\<not> phase_expired (tick 2) (mn_migration ?c)" by code_simp+
  have "waiting_world\<lparr>w_registry := a_registry ?b\<rparr> = \<lparr>w_cluster = ?c, w_registry = a_registry ?b, w_history = None\<rparr>"
    by (simp add: waiting_world_def web_at_def web_world_def Let_def)
  with hook_report_ends_the_wait [OF run source_record source_record_armed get mw facts, where h = None]
  show ?thesis by simp
qed

section \<open>The operator's start\<close>

definition willing_manager :: manager_answers where
  "willing_manager = \<lparr>sx_manager = (\<lambda>_. None), sx_seed_client = None, sx_migration_controller = None,
     sx_workload_controller = None, sx_add_server = (\<lambda>_ _. None), sx_healthz = None, sx_readyz = None, sx_start = None\<rparr>"

definition demo_flags :: "(string \<times> string) list" where
  "demo_flags = [(''history-limit'', ''0x10''), (''default-namespace'', ''other''), (''dashboard-enabled'', ''F''),
     (''default-namespace'', ''ns'')]"

theorem operator_obeys_flags_witness:
  "(\<exists>w. operator_main mini_kube (\<lambda>_ _. (7, 7)) (\<lambda>_. None) willing_manager (map flag_arg demo_flags) demo_cluster =
       (0, Some (w, \<lparr>sv_default_namespace = ''ns'', sv_has_client = True, sv_dashboard_disabled = True\<rparr>)) \<and>
     started_with mini_kube (\<lambda>_ _. (7, 7)) True True 16 demo_cluster w) \<and>
   operator_main mini_kube (\<lambda>_ _. (7, 7)) (\<lambda>_. None) willing_manager
     (map flag_arg demo_flags @ flag_arg (''leader-elect'', ''maybe'') # []) demo_cluster = (2, None)"
proof -
  have fit: "list_all (\<lambda>(n, v). takes n v) demo_flags" by code_simp
  have sv: "server_asked_for demo_flags =
      \<lparr>sv_default_namespace = ''ns'', sv_has_client = True, sv_dashboard_disabled = True\<rparr>" by code_simp
  have vals: "bool_flag ''history-enabled'' demo_flags True" "int_flag ''history-limit'' demo_flags 100 = 16" by code_simp+
  have bad: "refused_flag (\<lambda>_. None) ''leader-elect'' ''maybe''" by code_simp
  from operator_obeys_flags [OF fit, of willing_manager mini_kube "\<lambda>_ _. (7, 7)" "\<lambda>_. None" demo_cluster
      "''leader-elect''" "''maybe''" "[]"] bad
  show ?thesis by (simp add: sv vals willing_manager_def)
qed

end
