(* ===== verification/DeepCopy.thy ===== *)
theory DeepCopy
  imports ApiTypes
begin

text \<open>
  The copies of the API objects (\<open>operator/api/v1alpha1/zz_generated.deepcopy.go\<close>, which is written
  by hand), with the pointers that they are about: a memory is a list of cells, a pointer is an index,
  and allocation appends a cell. The structs of \<open>metav1\<close> and their copying methods are arguments.
\<close>

section \<open>Memory\<close>

type_synonym addr = nat

text \<open>A slice: nil, or an array with an offset and a length.\<close>

type_synonym slice = "(addr \<times> nat \<times> nat) option"

record spec_mem =
  sm_workload_ref :: workload_reference
  sm_placement_label :: "addr option"
  sm_checkpoint_dir :: string
  sm_transfer_port :: int
  sm_layer_count :: int
  sm_process_migration :: "addr option"
  sm_volume_migration :: "addr option"
  sm_pre_sync_rounds :: "addr option"

record pod_mem =
  pm_name :: string
  pm_address :: string
  pm_container_port :: int
  pm_node :: string
  pm_migrating :: bool
  pm_checkpoint_ready :: bool
  pm_checkpoint_dir :: string
  pm_restored :: bool
  pm_registered_at :: "addr option"

record wstatus_mem =
  wsm_phase :: string
  wsm_message :: string
  wsm_registered_pods :: slice
  wsm_observed_generation :: int

record mstatus_mem =
  msm_phase :: phase
  msm_message :: string
  msm_source_pod :: string
  msm_destination_pod :: string
  msm_checkpoint_dir :: string
  msm_process_migration :: bool
  msm_volume_migration :: bool
  msm_sync_rounds :: int
  msm_sync_round :: int
  msm_scaled_up :: bool
  msm_start_time :: "addr option"
  msm_completion_time :: "addr option"
  msm_last_transition_time :: "addr option"
  msm_conditions :: slice

text \<open>\<open>'e\<close>: the structs of \<open>metav1\<close>.\<close>

type_synonym type_meta = "string \<times> string"

record 'e workload_mem =
  wm_type :: type_meta
  wm_meta :: 'e
  wm_spec :: spec_mem
  wm_status :: wstatus_mem

record 'e migration_mem =
  mm_type :: type_meta
  mm_meta :: 'e
  mm_spec :: migration_spec
  mm_status :: mstatus_mem

record 'e list_mem =
  li_type :: type_meta
  li_meta :: 'e
  li_items :: slice

datatype 'e cell =
    BoolCell bool
  | IntCell int
  | TimeCell instant
  | ReferenceCell workload_reference
  | LabelCell placement_label
  | SpecCell spec_mem
  | PodCell pod_mem
  | WorkloadStatusCell wstatus_mem
  | WorkloadCell "'e workload_mem"
  | WorkloadListCell "'e list_mem"
  | MigrationSpecCell migration_spec
  | MigrationStatusCell mstatus_mem
  | MigrationCell "'e migration_mem"
  | MigrationListCell "'e list_mem"
  | PodsCell "pod_mem list"
  | ConditionsCell "'e list"
  | WorkloadsCell "'e workload_mem list"
  | MigrationsCell "'e migration_mem list"
  | ExternalCell 'e

type_synonym 'e mem = "'e cell list"

text \<open>What a pointer of a type points to, if it does.\<close>

definition load :: "('e cell \<Rightarrow> 'a option) \<Rightarrow> 'e mem \<Rightarrow> addr \<Rightarrow> 'a option" where
  "load get h p = (if p < length h then get (h ! p) else None)"

fun bool_of :: "'e cell \<Rightarrow> bool option" where "bool_of (BoolCell b) = Some b" | "bool_of _ = None"
fun int_of :: "'e cell \<Rightarrow> int option" where "int_of (IntCell n) = Some n" | "int_of _ = None"
fun time_of :: "'e cell \<Rightarrow> instant option" where "time_of (TimeCell t) = Some t" | "time_of _ = None"
fun reference_of :: "'e cell \<Rightarrow> workload_reference option" where
  "reference_of (ReferenceCell r) = Some r" | "reference_of _ = None"
fun label_of :: "'e cell \<Rightarrow> placement_label option" where
  "label_of (LabelCell l) = Some l" | "label_of _ = None"
fun spec_of :: "'e cell \<Rightarrow> spec_mem option" where "spec_of (SpecCell s) = Some s" | "spec_of _ = None"
fun pod_of :: "'e cell \<Rightarrow> pod_mem option" where "pod_of (PodCell p) = Some p" | "pod_of _ = None"
fun wstatus_of :: "'e cell \<Rightarrow> wstatus_mem option" where
  "wstatus_of (WorkloadStatusCell s) = Some s" | "wstatus_of _ = None"
fun workload_of :: "'e cell \<Rightarrow> 'e workload_mem option" where
  "workload_of (WorkloadCell w) = Some w" | "workload_of _ = None"
fun workload_list_of :: "'e cell \<Rightarrow> 'e list_mem option" where
  "workload_list_of (WorkloadListCell l) = Some l" | "workload_list_of _ = None"
fun mspec_of :: "'e cell \<Rightarrow> migration_spec option" where
  "mspec_of (MigrationSpecCell s) = Some s" | "mspec_of _ = None"
fun mstatus_of :: "'e cell \<Rightarrow> mstatus_mem option" where
  "mstatus_of (MigrationStatusCell s) = Some s" | "mstatus_of _ = None"
fun migration_of :: "'e cell \<Rightarrow> 'e migration_mem option" where
  "migration_of (MigrationCell m) = Some m" | "migration_of _ = None"
fun migration_list_of :: "'e cell \<Rightarrow> 'e list_mem option" where
  "migration_list_of (MigrationListCell l) = Some l" | "migration_list_of _ = None"
fun pods_of :: "'e cell \<Rightarrow> pod_mem list option" where
  "pods_of (PodsCell ps) = Some ps" | "pods_of _ = None"
fun conditions_of :: "'e cell \<Rightarrow> 'e list option" where
  "conditions_of (ConditionsCell cs) = Some cs" | "conditions_of _ = None"
fun workloads_of :: "'e cell \<Rightarrow> 'e workload_mem list option" where
  "workloads_of (WorkloadsCell ws) = Some ws" | "workloads_of _ = None"
fun migrations_of :: "'e cell \<Rightarrow> 'e migration_mem list option" where
  "migrations_of (MigrationsCell ms) = Some ms" | "migrations_of _ = None"

section \<open>Ways of copying\<close>

text \<open>
  An operation that copies takes the original and the memory. \<open>DeepCopyInto\<close> starts from the shallow
  copy \<open>*out = *in\<close>; so its result here is the original with the fields replaced that are assigned
  after that.
\<close>

type_synonym ('a, 'e) copying = "'a \<Rightarrow> 'e mem \<Rightarrow> 'a \<times> 'e mem"

text \<open>\<open>*out = new(T); **out = **in\<close>\<close>

definition new_copy :: "(addr, 'e) copying" where
  "new_copy p h = (length h, h @ [h ! p])"

text \<open>The copy of a pointer unless it is nil.\<close>

fun copy_opt :: "('a, 'e) copying \<Rightarrow> ('a option, 'e) copying" where
  "copy_opt f None h = (None, h)"
| "copy_opt f (Some x) h = (case f x h of (y, h') \<Rightarrow> (Some y, h'))"

fun copy_list :: "('a, 'e) copying \<Rightarrow> ('a list, 'e) copying" where
  "copy_list f [] h = ([], h)"
| "copy_list f (x # xs) h =
     (case f x h of (y, h1) \<Rightarrow> (case copy_list f xs h1 of (ys, h2) \<Rightarrow> (y # ys, h2)))"

text \<open>A slice: a new array of its length, with the copies of its elements.\<close>

definition window :: "addr \<times> nat \<times> nat \<Rightarrow> 'a list \<Rightarrow> 'a list" where
  "window s xs = take (snd (snd s)) (drop (fst (snd s)) xs)"

definition copy_slice ::
    "('e cell \<Rightarrow> 'a list option) \<Rightarrow> ('a list \<Rightarrow> 'e cell) \<Rightarrow> ('a, 'e) copying \<Rightarrow> (addr \<times> nat \<times> nat, 'e) copying" where
  "copy_slice get mk f s h =
     (case load get h (fst s) of
        None \<Rightarrow> (s, h)
      | Some xs \<Rightarrow>
          (case copy_list f (window s xs) h of (ys, h') \<Rightarrow> ((length h', 0, length ys), h' @ [mk ys])))"

text \<open>\<open>DeepCopy\<close> of a pointer that is not nil: \<open>out := new(T); in.DeepCopyInto(out)\<close>.\<close>

definition deep_copy ::
    "('e cell \<Rightarrow> 'a option) \<Rightarrow> ('a \<Rightarrow> 'e cell) \<Rightarrow> ('a, 'e) copying \<Rightarrow> (addr, 'e) copying" where
  "deep_copy get mk into p h =
     (case load get h p of
        None \<Rightarrow> (p, h)
      | Some x \<Rightarrow> (case into x h of (y, h') \<Rightarrow> (length h', h' @ [mk y])))"

section \<open>The copying methods\<close>

text \<open>The methods of \<open>metav1\<close> that are called.\<close>

record 'e externals =
  ex_time :: "(addr, 'e) copying"
  ex_object_meta :: "('e, 'e) copying"
  ex_list_meta :: "('e, 'e) copying"
  ex_condition :: "('e, 'e) copying"

definition flat_into :: "('a, 'e) copying" where
  "flat_into x h = (x, h)"

definition spec_into :: "(spec_mem, 'e) copying" where
  "spec_into s h =
     (case copy_opt new_copy (sm_placement_label s) h of (label, h1) \<Rightarrow>
      (case copy_opt new_copy (sm_process_migration s) h1 of (proc, h2) \<Rightarrow>
      (case copy_opt new_copy (sm_volume_migration s) h2 of (vol, h3) \<Rightarrow>
      (case copy_opt new_copy (sm_pre_sync_rounds s) h3 of (rounds, h4) \<Rightarrow>
         (s\<lparr>sm_placement_label := label, sm_process_migration := proc, sm_volume_migration := vol,
            sm_pre_sync_rounds := rounds\<rparr>, h4)))))"

definition pod_into :: "'e externals \<Rightarrow> (pod_mem, 'e) copying" where
  "pod_into E p h =
     (case copy_opt (ex_time E) (pm_registered_at p) h of (t, h') \<Rightarrow> (p\<lparr>pm_registered_at := t\<rparr>, h'))"

definition wstatus_into :: "'e externals \<Rightarrow> (wstatus_mem, 'e) copying" where
  "wstatus_into E s h =
     (case copy_opt (copy_slice pods_of PodsCell (pod_into E)) (wsm_registered_pods s) h of
        (pods, h') \<Rightarrow> (s\<lparr>wsm_registered_pods := pods\<rparr>, h'))"

definition workload_into :: "'e externals \<Rightarrow> ('e workload_mem, 'e) copying" where
  "workload_into E w h =
     (case ex_object_meta E (wm_meta w) h of (meta, h1) \<Rightarrow>
      (case spec_into (wm_spec w) h1 of (spec, h2) \<Rightarrow>
      (case wstatus_into E (wm_status w) h2 of (status, h3) \<Rightarrow>
         (w\<lparr>wm_meta := meta, wm_spec := spec, wm_status := status\<rparr>, h3))))"

definition workload_list_into :: "'e externals \<Rightarrow> ('e list_mem, 'e) copying" where
  "workload_list_into E l h =
     (case ex_list_meta E (li_meta l) h of (meta, h1) \<Rightarrow>
      (case copy_opt (copy_slice workloads_of WorkloadsCell (workload_into E)) (li_items l) h1 of
         (items, h2) \<Rightarrow> (l\<lparr>li_meta := meta, li_items := items\<rparr>, h2)))"

definition mstatus_into :: "'e externals \<Rightarrow> (mstatus_mem, 'e) copying" where
  "mstatus_into E s h =
     (case copy_opt (ex_time E) (msm_start_time s) h of (start, h1) \<Rightarrow>
      (case copy_opt (ex_time E) (msm_completion_time s) h1 of (completion, h2) \<Rightarrow>
      (case copy_opt (ex_time E) (msm_last_transition_time s) h2 of (transition, h3) \<Rightarrow>
      (case copy_opt (copy_slice conditions_of ConditionsCell (ex_condition E)) (msm_conditions s) h3 of
         (conds, h4) \<Rightarrow>
           (s\<lparr>msm_start_time := start, msm_completion_time := completion,
              msm_last_transition_time := transition, msm_conditions := conds\<rparr>, h4)))))"

definition migration_into :: "'e externals \<Rightarrow> ('e migration_mem, 'e) copying" where
  "migration_into E m h =
     (case ex_object_meta E (mm_meta m) h of (meta, h1) \<Rightarrow>
      (case mstatus_into E (mm_status m) h1 of (status, h2) \<Rightarrow>
         (m\<lparr>mm_meta := meta, mm_status := status\<rparr>, h2)))"

definition migration_list_into :: "'e externals \<Rightarrow> ('e list_mem, 'e) copying" where
  "migration_list_into E l h =
     (case ex_list_meta E (li_meta l) h of (meta, h1) \<Rightarrow>
      (case copy_opt (copy_slice migrations_of MigrationsCell (migration_into E)) (li_items l) h1 of
         (items, h2) \<Rightarrow> (l\<lparr>li_meta := meta, li_items := items\<rparr>, h2)))"

text \<open>\<open>DeepCopy\<close> for each type: nil for nil.\<close>

definition copy_reference :: "(addr option, 'e) copying" where
  "copy_reference = copy_opt (deep_copy reference_of ReferenceCell flat_into)"

definition copy_label :: "(addr option, 'e) copying" where
  "copy_label = copy_opt (deep_copy label_of LabelCell flat_into)"

definition copy_spec :: "(addr option, 'e) copying" where
  "copy_spec = copy_opt (deep_copy spec_of SpecCell spec_into)"

definition copy_pod :: "'e externals \<Rightarrow> (addr option, 'e) copying" where
  "copy_pod E = copy_opt (deep_copy pod_of PodCell (pod_into E))"

definition copy_wstatus :: "'e externals \<Rightarrow> (addr option, 'e) copying" where
  "copy_wstatus E = copy_opt (deep_copy wstatus_of WorkloadStatusCell (wstatus_into E))"

definition copy_workload :: "'e externals \<Rightarrow> (addr option, 'e) copying" where
  "copy_workload E = copy_opt (deep_copy workload_of WorkloadCell (workload_into E))"

definition copy_workload_list :: "'e externals \<Rightarrow> (addr option, 'e) copying" where
  "copy_workload_list E = copy_opt (deep_copy workload_list_of WorkloadListCell (workload_list_into E))"

definition copy_mspec :: "(addr option, 'e) copying" where
  "copy_mspec = copy_opt (deep_copy mspec_of MigrationSpecCell flat_into)"

definition copy_mstatus :: "'e externals \<Rightarrow> (addr option, 'e) copying" where
  "copy_mstatus E = copy_opt (deep_copy mstatus_of MigrationStatusCell (mstatus_into E))"

definition copy_migration :: "'e externals \<Rightarrow> (addr option, 'e) copying" where
  "copy_migration E = copy_opt (deep_copy migration_of MigrationCell (migration_into E))"

definition copy_migration_list :: "'e externals \<Rightarrow> (addr option, 'e) copying" where
  "copy_migration_list E = copy_opt (deep_copy migration_list_of MigrationListCell (migration_list_into E))"

text \<open>
  \<open>DeepCopyObject\<close>: a \<open>runtime.Object\<close> is one of the four types of pointers, or the nil interface.
\<close>

datatype api_object =
    WorkloadObject "addr option"
  | WorkloadListObject "addr option"
  | MigrationObject "addr option"
  | MigrationListObject "addr option"

definition object_unless_nil ::
    "(addr option \<Rightarrow> api_object) \<Rightarrow> addr option \<times> 'e mem \<Rightarrow> api_object option \<times> 'e mem" where
  "object_unless_nil mk r = (case r of (p, h) \<Rightarrow> (if p \<noteq> None then Some (mk p) else None, h))"

definition copy_workload_object :: "'e externals \<Rightarrow> addr option \<Rightarrow> 'e mem \<Rightarrow> api_object option \<times> 'e mem" where
  "copy_workload_object E p h = object_unless_nil WorkloadObject (copy_workload E p h)"

definition copy_workload_list_object ::
    "'e externals \<Rightarrow> addr option \<Rightarrow> 'e mem \<Rightarrow> api_object option \<times> 'e mem" where
  "copy_workload_list_object E p h = object_unless_nil WorkloadListObject (copy_workload_list E p h)"

definition copy_migration_object :: "'e externals \<Rightarrow> addr option \<Rightarrow> 'e mem \<Rightarrow> api_object option \<times> 'e mem" where
  "copy_migration_object E p h = object_unless_nil MigrationObject (copy_migration E p h)"

definition copy_migration_list_object ::
    "'e externals \<Rightarrow> addr option \<Rightarrow> 'e mem \<Rightarrow> api_object option \<times> 'e mem" where
  "copy_migration_list_object E p h = object_unless_nil MigrationListObject (copy_migration_list E p h)"

fun deep_copy_object ::
    "'e externals \<Rightarrow> api_object \<Rightarrow> 'e mem \<Rightarrow> api_object option \<times> 'e mem" where
  "deep_copy_object E (WorkloadObject p) h = copy_workload_object E p h"
| "deep_copy_object E (WorkloadListObject p) h = copy_workload_list_object E p h"
| "deep_copy_object E (MigrationObject p) h = copy_migration_object E p h"
| "deep_copy_object E (MigrationListObject p) h = copy_migration_list_object E p h"

end
