(* ===== verification/DeepCopySpec.thy ===== *)
theory DeepCopySpec
  imports DeepCopy
begin

text \<open>
  A deep copy is equal to its original and shares nothing with it. What an object is worth in a memory
  is its view, with the pointers followed; a copy only allocates, its view depends on the cells it
  allocated alone, and that of the original on the cells there were before.
\<close>

section \<open>The contract of a copying method\<close>

type_synonym ('a, 'e, 'v) view = "'e mem \<Rightarrow> 'a \<Rightarrow> 'v option"

locale copier =
  fixes view :: "('a, 'e, 'v) view"
    and copying :: "('a, 'e) copying"
  assumes stays: "view h x = Some v \<Longrightarrow> view (h @ j) x = Some v"
    and copies: "view h x = Some v \<Longrightarrow> \<exists>k. snd (copying x h) = h @ k \<and>
          (\<forall>g j. length g = length h \<longrightarrow> view (g @ k @ j) (fst (copying x h)) = Some v)"
begin

lemma independent:
  assumes "view h x = Some v"
  shows "\<exists>y k. copying x h = (y, h @ k) \<and> (\<forall>j. view (h @ j) x = Some v) \<and>
    (\<forall>g j. length g = length h \<longrightarrow> view (g @ k @ j) y = Some v)"
  using copies [OF assms] stays [OF assms] by (cases "copying x h") auto

lemma copiesE:
  assumes "view h x = Some v" and "copying x h = (y, h')"
  obtains k where "h' = h @ k" and "\<And>g j. length g = length h \<Longrightarrow> view (g @ k @ j) y = Some v"
  using copies [OF assms(1)] assms(2) by auto

end

section \<open>How copies are composed\<close>

lemma load_append: "load get h p = Some x \<Longrightarrow> load get (h @ j) p = Some x"
  by (auto simp: load_def nth_append split: if_splits)

lemma load_new: "length g = n \<Longrightarrow> load get (g @ k @ [c] @ j) (n + length k) = get c"
  by (simp add: load_def nth_append)

lemma copier_new: "copier (load get) new_copy"
proof
  fix h p v
  assume p: "load get h p = Some v"
  show "load get (h @ j) p = Some v" for j by (rule load_append [OF p])
  have "get (h ! p) = Some v" using p by (simp add: load_def split: if_splits)
  then show "\<exists>k. snd (new_copy p h) = h @ k \<and>
      (\<forall>g j. length g = length h \<longrightarrow> load get (g @ k @ j) (fst (new_copy p h)) = Some v)"
    using load_new [where k = "[]" and get = get]
    by (intro exI [of _ "[h ! p]"]) (simp add: new_copy_def)
qed

definition opt_view :: "('a, 'e, 'v) view \<Rightarrow> ('a option, 'e, 'v option) view" where
  "opt_view view h x = (case x of None \<Rightarrow> Some None | Some p \<Rightarrow> map_option Some (view h p))"

lemma copier_opt:
  assumes f: "copier view f"
  shows "copier (opt_view view) (copy_opt f)"
proof
  fix h x v
  assume v: "opt_view view h x = Some v"
  show "opt_view view (h @ j) x = Some v" for j
    using v copier.stays [OF f] by (cases x) (auto simp: opt_view_def)
  show "\<exists>k. snd (copy_opt f x h) = h @ k \<and>
      (\<forall>g j. length g = length h \<longrightarrow> opt_view view (g @ k @ j) (fst (copy_opt f x h)) = Some v)"
  proof (cases x)
    case None
    with v show ?thesis by (auto simp: opt_view_def)
  next
    case (Some p)
    with v obtain u where u: "view h p = Some u" and vu: "v = Some u" by (auto simp: opt_view_def)
    from copier.independent [OF f u] obtain y k where y: "f p h = (y, h @ k)"
      and own: "\<And>g j. length g = length h \<Longrightarrow> view (g @ k @ j) y = Some u" by blast
    then show ?thesis using Some vu by (intro exI [of _ k]) (simp add: opt_view_def)
  qed
qed

text \<open>Two copies in a row.\<close>

definition pair_view :: "('a, 'e, 'v) view \<Rightarrow> ('b, 'e, 'w) view \<Rightarrow> ('a \<times> 'b, 'e, 'v \<times> 'w) view" where
  "pair_view view1 view2 h p =
     (case view1 h (fst p) of None \<Rightarrow> None | Some v \<Rightarrow> map_option (Pair v) (view2 h (snd p)))"

definition copy_pair :: "('a, 'e) copying \<Rightarrow> ('b, 'e) copying \<Rightarrow> ('a \<times> 'b, 'e) copying" where
  "copy_pair f1 f2 p h =
     (case f1 (fst p) h of (y, h1) \<Rightarrow> (case f2 (snd p) h1 of (z, h2) \<Rightarrow> ((y, z), h2)))"

lemma copier_pair:
  assumes f1: "copier view1 f1" and f2: "copier view2 f2"
  shows "copier (pair_view view1 view2) (copy_pair f1 f2)"
proof
  fix h p v
  assume "pair_view view1 view2 h p = Some v"
  then obtain v1 v2 where v: "v = (v1, v2)" and v1: "view1 h (fst p) = Some v1" and v2: "view2 h (snd p) = Some v2"
    by (auto simp: pair_view_def split: option.splits)
  show "pair_view view1 view2 (h @ j) p = Some v" for j
    using copier.stays [OF f1 v1] copier.stays [OF f2 v2] v by (simp add: pair_view_def)
  obtain y h1 where y: "f1 (fst p) h = (y, h1)" by (cases "f1 (fst p) h")
  obtain z h2 where z: "f2 (snd p) h1 = (z, h2)" by (cases "f2 (snd p) h1")
  obtain k1 where k1: "h1 = h @ k1" and y1: "\<And>g j. length g = length h \<Longrightarrow> view1 (g @ k1 @ j) y = Some v1"
    using copier.copiesE [OF f1 v1 y] by blast
  have "view2 h1 (snd p) = Some v2" using copier.stays [OF f2 v2] k1 by simp
  then obtain k2 where k2: "h2 = h1 @ k2" and z2: "\<And>g j. length g = length h1 \<Longrightarrow> view2 (g @ k2 @ j) z = Some v2"
    using copier.copiesE [OF f2 _ z] by blast
  have "pair_view view1 view2 (g @ (k1 @ k2) @ j) (y, z) = Some v" if "length g = length h" for g j
    using y1 [OF that, of "k2 @ j"] z2 [of "g @ k1" j] that k1 v by (simp add: pair_view_def)
  then show "\<exists>k. snd (copy_pair f1 f2 p h) = h @ k \<and>
      (\<forall>g j. length g = length h \<longrightarrow> pair_view view1 view2 (g @ k @ j) (fst (copy_pair f1 f2 p h)) = Some v)"
    using y z k1 k2 by (intro exI [of _ "k1 @ k2"]) (simp add: copy_pair_def)
qed

text \<open>A struct, of which \<open>get\<close> are the parts that are copied by a method of their own.\<close>

lemma copier_struct:
  assumes f: "copier view f"
    and worth: "\<And>h r. view' h r = map_option (mk r) (view h (get r))"
    and works: "\<And>r h. f' r h = (case f (get r) h of (t, h') \<Rightarrow> (put r t, h'))"
    and put: "\<And>r t. get (put r t) = t" "\<And>r t. mk (put r t) = mk r"
  shows "copier view' f'"
proof
  fix h r v
  assume "view' h r = Some v"
  then obtain u where u: "view h (get r) = Some u" and v: "v = mk r u" by (auto simp: worth)
  show "view' (h @ j) r = Some v" for j using copier.stays [OF f u] v by (simp add: worth)
  from copier.independent [OF f u] obtain y k where "f (get r) h = (y, h @ k)"
    and "\<And>g j. length g = length h \<Longrightarrow> view (g @ k @ j) y = Some u" by blast
  then show "\<exists>k. snd (f' r h) = h @ k \<and>
      (\<forall>g j. length g = length h \<longrightarrow> view' (g @ k @ j) (fst (f' r h)) = Some v)"
    using v by (intro exI [of _ k]) (simp add: worth works put)
qed

text \<open>The elements of a slice, and the slice.\<close>

fun list_view :: "('a, 'e, 'v) view \<Rightarrow> ('a list, 'e, 'v list) view" where
  "list_view view h [] = Some []"
| "list_view view h (x # xs) =
     (case view h x of None \<Rightarrow> None | Some v \<Rightarrow> map_option (Cons v) (list_view view h xs))"

lemma copier_list:
  assumes f: "copier view f"
  shows "copier (list_view view) (copy_list f)"
proof
  fix h xs v
  assume v: "list_view view h xs = Some v"
  then show "list_view view (h @ j) xs = Some v" for j
    by (induction xs arbitrary: v) (auto simp: copier.stays [OF f] split: option.splits)
  from v show "\<exists>k. snd (copy_list f xs h) = h @ k \<and>
      (\<forall>g j. length g = length h \<longrightarrow> list_view view (g @ k @ j) (fst (copy_list f xs h)) = Some v)"
  proof (induction xs arbitrary: h v)
    case Nil
    then show ?case by simp
  next
    case (Cons x xs)
    then obtain v1 vs where v: "v = v1 # vs" and v1: "view h x = Some v1" and vs: "list_view view h xs = Some vs"
      by (auto split: option.splits)
    obtain y h1 where y: "f x h = (y, h1)" by (cases "f x h")
    obtain k1 where k1: "h1 = h @ k1" and y1: "\<And>g j. length g = length h \<Longrightarrow> view (g @ k1 @ j) y = Some v1"
      using copier.copiesE [OF f v1 y] by blast
    have "list_view view (h @ k1) xs = Some vs" using vs
      by (induction xs arbitrary: vs) (auto simp: copier.stays [OF f] split: option.splits)
    from Cons.IH [OF this] obtain k2 where k2: "snd (copy_list f xs h1) = h1 @ k2"
      and ys: "\<And>g j. length g = length h1 \<Longrightarrow> list_view view (g @ k2 @ j) (fst (copy_list f xs h1)) = Some vs"
      by (auto simp: k1)
    have "list_view view (g @ (k1 @ k2) @ j) (y # fst (copy_list f xs h1)) = Some v" if "length g = length h" for g j
      using y1 [OF that, of "k2 @ j"] ys [of "g @ k1" j] that k1 v by simp
    moreover have "copy_list f (x # xs) h = (y # fst (copy_list f xs h1), snd (copy_list f xs h1))"
      by (simp add: y split: prod.split)
    ultimately show ?case using k1 k2 by (intro exI [of _ "k1 @ k2"]) (simp del: copy_list.simps list_view.simps)
  qed
qed

definition slice_view ::
    "('e cell \<Rightarrow> 'a list option) \<Rightarrow> ('a, 'e, 'v) view \<Rightarrow> (addr \<times> nat \<times> nat, 'e, 'v list) view" where
  "slice_view get view h s =
     (case load get h (fst s) of
        None \<Rightarrow> None
      | Some xs \<Rightarrow>
          if fst (snd s) + snd (snd s) \<le> length xs then list_view view h (window s xs) else None)"

lemma window_all: "window (p, 0, length xs) xs = xs"
  by (simp add: window_def)

lemma copier_slice:
  assumes f: "copier view f" and get: "\<And>xs. get (mk xs) = Some xs"
  shows "copier (slice_view get view) (copy_slice get mk f)"
proof
  fix h s v
  assume "slice_view get view h s = Some v"
  then obtain xs where xs: "load get h (fst s) = Some xs" and l: "fst (snd s) + snd (snd s) \<le> length xs"
    and v: "list_view view h (window s xs) = Some v"
    by (auto simp: slice_view_def split: option.splits if_splits)
  note fs = copier_list [OF f]
  show "slice_view get view (h @ j) s = Some v" for j
    using load_append [OF xs] l copier.stays [OF fs v] by (simp add: slice_view_def)
  from copier.independent [OF fs v] obtain ys k where ys: "copy_list f (window s xs) h = (ys, h @ k)"
    and own: "\<And>g j. length g = length h \<Longrightarrow> list_view view (g @ k @ j) ys = Some v" by blast
  have "slice_view get view (g @ (k @ [mk ys]) @ j) (length (h @ k), 0, length ys) = Some v"
    if "length g = length h" for g j
    using own [OF that, of "[mk ys] @ j"] load_new [OF that, of get k "mk ys" j] get
    by (simp add: slice_view_def window_all)
  then show "\<exists>k. snd (copy_slice get mk f s h) = h @ k \<and>
      (\<forall>g j. length g = length h \<longrightarrow> slice_view get view (g @ k @ j) (fst (copy_slice get mk f s h)) = Some v)"
    using xs ys by (intro exI [of _ "k @ [mk ys]"]) (simp add: copy_slice_def)
qed

text \<open>A pointer to a struct with a method of its own.\<close>

definition struct_view :: "('e cell \<Rightarrow> 'a option) \<Rightarrow> ('a, 'e, 'v) view \<Rightarrow> (addr, 'e, 'v) view" where
  "struct_view get view h p = (case load get h p of None \<Rightarrow> None | Some x \<Rightarrow> view h x)"

lemma copier_deep:
  assumes f: "copier view f" and get: "\<And>x. get (mk x) = Some x"
  shows "copier (struct_view get view) (deep_copy get mk f)"
proof
  fix h p v
  assume "struct_view get view h p = Some v"
  then obtain x where x: "load get h p = Some x" and v: "view h x = Some v"
    by (auto simp: struct_view_def split: option.splits)
  show "struct_view get view (h @ j) p = Some v" for j
    using load_append [OF x] copier.stays [OF f v] by (simp add: struct_view_def)
  from copier.independent [OF f v] obtain y k where y: "f x h = (y, h @ k)"
    and own: "\<And>g j. length g = length h \<Longrightarrow> view (g @ k @ j) y = Some v" by blast
  have "struct_view get view (g @ (k @ [mk y]) @ j) (length (h @ k)) = Some v" if "length g = length h" for g j
    using own [OF that, of "[mk y] @ j"] load_new [OF that, of get k "mk y" j] get
    by (simp add: struct_view_def)
  then show "\<exists>k. snd (deep_copy get mk f p h) = h @ k \<and>
      (\<forall>g j. length g = length h \<longrightarrow> struct_view get view (g @ k @ j) (fst (deep_copy get mk f p h)) = Some v)"
    using x y by (intro exI [of _ "k @ [mk y]"]) (simp add: deep_copy_def)
qed

section \<open>The values of the API objects\<close>

definition spec_view :: "(spec_mem, 'e, workload_spec) view" where
  "spec_view h s = map_option
     (\<lambda>(label, proc, vol, rounds).
        \<lparr>ws_workload_ref = sm_workload_ref s, ws_placement_label = label,
         ws_checkpoint_dir = sm_checkpoint_dir s, ws_transfer_port = sm_transfer_port s,
         ws_layer_count = sm_layer_count s, ws_process_migration = proc, ws_volume_migration = vol,
         ws_pre_sync_rounds = rounds\<rparr>)
     (pair_view (opt_view (load label_of)) (pair_view (opt_view (load bool_of))
        (pair_view (opt_view (load bool_of)) (opt_view (load int_of)))) h
        (sm_placement_label s, sm_process_migration s, sm_volume_migration s, sm_pre_sync_rounds s))"

definition pod_view :: "(pod_mem, 'e, registered_pod) view" where
  "pod_view h p = map_option
     (\<lambda>t. \<lparr>rp_name = pm_name p, rp_address = pm_address p, rp_container_port = pm_container_port p,
           rp_node = pm_node p, rp_migrating = pm_migrating p, rp_checkpoint_ready = pm_checkpoint_ready p,
           rp_checkpoint_dir = pm_checkpoint_dir p, rp_restored = pm_restored p, rp_registered_at = t\<rparr>)
     (opt_view (load time_of) h (pm_registered_at p))"

text \<open>A nil slice and an empty one are told apart.\<close>

definition wstatus_view :: "(wstatus_mem, 'e, workload_status \<times> bool) view" where
  "wstatus_view h s = map_option
     (\<lambda>pods. (\<lparr>wst_phase = wsm_phase s, wst_message = wsm_message s,
               wst_registered_pods = (case pods of None \<Rightarrow> [] | Some ps \<Rightarrow> ps),
               wst_observed_generation = wsm_observed_generation s\<rparr>, pods \<noteq> None))
     (opt_view (slice_view pods_of pod_view) h (wsm_registered_pods s))"

definition workload_view ::
    "('e, 'e, 'v) view \<Rightarrow> ('e workload_mem, 'e, type_meta \<times> 'v \<times> workload_spec \<times> workload_status \<times> bool) view" where
  "workload_view ext h w = map_option (Pair (wm_type w))
     (pair_view ext (pair_view spec_view wstatus_view) h (wm_meta w, wm_spec w, wm_status w))"

definition workload_list_view ::
    "('e, 'e, 'v) view \<Rightarrow>
     ('e list_mem, 'e, type_meta \<times> 'v \<times> (type_meta \<times> 'v \<times> workload_spec \<times> workload_status \<times> bool) list option) view" where
  "workload_list_view ext h l = map_option (Pair (li_type l))
     (pair_view ext (opt_view (slice_view workloads_of (workload_view ext))) h (li_meta l, li_items l))"

definition mstatus_view :: "('e, 'e, 'v) view \<Rightarrow> (mstatus_mem, 'e, migration_status \<times> 'v list option) view" where
  "mstatus_view ext h s = map_option
     (\<lambda>(start, completion, transition, conds).
        (\<lparr>mst_phase = msm_phase s, mst_message = msm_message s, mst_source_pod = msm_source_pod s,
          mst_destination_pod = msm_destination_pod s, mst_checkpoint_dir = msm_checkpoint_dir s,
          mst_process_migration = msm_process_migration s, mst_volume_migration = msm_volume_migration s,
          mst_sync_rounds = msm_sync_rounds s, mst_sync_round = msm_sync_round s,
          mst_scaled_up = msm_scaled_up s, mst_start_time = start, mst_completion_time = completion,
          mst_last_transition_time = transition\<rparr>, conds))
     (pair_view (opt_view (load time_of)) (pair_view (opt_view (load time_of)) (pair_view (opt_view (load time_of))
        (opt_view (slice_view conditions_of ext)))) h
        (msm_start_time s, msm_completion_time s, msm_last_transition_time s, msm_conditions s))"

definition migration_view ::
    "('e, 'e, 'v) view \<Rightarrow>
     ('e migration_mem, 'e, type_meta \<times> migration_spec \<times> 'v \<times> migration_status \<times> 'v list option) view" where
  "migration_view ext h m = map_option (\<lambda>v. (mm_type m, mm_spec m, v))
     (pair_view ext (mstatus_view ext) h (mm_meta m, mm_status m))"

definition migration_list_view ::
    "('e, 'e, 'v) view \<Rightarrow>
     ('e list_mem, 'e, type_meta \<times> 'v \<times> (type_meta \<times> migration_spec \<times> 'v \<times> migration_status \<times> 'v list option) list option) view" where
  "migration_list_view ext h l = map_option (Pair (li_type l))
     (pair_view ext (opt_view (slice_view migrations_of (migration_view ext))) h (li_meta l, li_items l))"

section \<open>The methods keep the contract\<close>

text \<open>What the copying methods of \<open>metav1\<close> promise.\<close>

definition externals_copy :: "('e, 'e, 'v) view \<Rightarrow> 'e externals \<Rightarrow> bool" where
  "externals_copy ext E \<longleftrightarrow> copier (load time_of) (ex_time E) \<and> copier ext (ex_object_meta E) \<and>
     copier ext (ex_list_meta E) \<and> copier ext (ex_condition E)"

interpretation spec: copier spec_view spec_into
  by (rule copier_struct [OF copier_pair [OF copier_opt [OF copier_new] copier_pair [OF copier_opt [OF copier_new]
        copier_pair [OF copier_opt [OF copier_new] copier_opt [OF copier_new]]]],
      where put = "\<lambda>s (l, p, v, r). s\<lparr>sm_placement_label := l, sm_process_migration := p,
          sm_volume_migration := v, sm_pre_sync_rounds := r\<rparr>", OF spec_view_def])
     (simp_all add: spec_into_def copy_pair_def split: prod.split)

interpretation flat: copier "\<lambda>h x. Some x" flat_into
  by unfold_locales (auto simp: flat_into_def intro!: exI [of _ "[]"])

lemma externals_copyD:
  assumes "externals_copy ext E"
  shows "copier (load time_of) (ex_time E)" "copier ext (ex_object_meta E)"
    "copier ext (ex_list_meta E)" "copier ext (ex_condition E)"
  using assms by (simp_all add: externals_copy_def)

lemma copier_pod: "externals_copy ext E \<Longrightarrow> copier pod_view (pod_into E)"
  by (rule copier_struct [where put = "\<lambda>p t. p\<lparr>pm_registered_at := t\<rparr>", OF copier_opt pod_view_def])
     (simp_all add: externals_copyD pod_into_def)

lemma copier_wstatus: "externals_copy ext E \<Longrightarrow> copier wstatus_view (wstatus_into E)"
  by (rule copier_struct [where put = "\<lambda>s t. s\<lparr>wsm_registered_pods := t\<rparr>",
        OF copier_opt [OF copier_slice [where mk = PodsCell, OF copier_pod]] wstatus_view_def])
     (simp_all add: wstatus_into_def)

lemma copier_workload: "externals_copy ext E \<Longrightarrow> copier (workload_view ext) (workload_into E)"
  by (rule copier_struct [where put = "\<lambda>w (m, s, t). w\<lparr>wm_meta := m, wm_spec := s, wm_status := t\<rparr>",
        OF copier_pair [OF externals_copyD(2) copier_pair [OF spec.copier_axioms copier_wstatus]] workload_view_def])
     (auto simp: workload_into_def copy_pair_def split: prod.split)

lemma copier_workload_list: "externals_copy ext E \<Longrightarrow> copier (workload_list_view ext) (workload_list_into E)"
  by (rule copier_struct [where put = "\<lambda>l (m, i). l\<lparr>li_meta := m, li_items := i\<rparr>",
        OF copier_pair [OF externals_copyD(3) copier_opt [OF copier_slice [where mk = WorkloadsCell, OF copier_workload]]] workload_list_view_def])
     (auto simp: workload_list_into_def copy_pair_def split: prod.split)

lemma copier_mstatus: "externals_copy ext E \<Longrightarrow> copier (mstatus_view ext) (mstatus_into E)"
  by (rule copier_struct [where put = "\<lambda>s (b, c, t, cs). s\<lparr>msm_start_time := b, msm_completion_time := c,
          msm_last_transition_time := t, msm_conditions := cs\<rparr>",
        OF copier_pair [OF copier_opt [OF externals_copyD(1)] copier_pair [OF copier_opt [OF externals_copyD(1)]
          copier_pair [OF copier_opt [OF externals_copyD(1)] copier_opt [OF copier_slice [where mk = ConditionsCell, OF externals_copyD(4)]]]]]
        mstatus_view_def])
     (auto simp: mstatus_into_def copy_pair_def split: prod.split)

lemma copier_migration: "externals_copy ext E \<Longrightarrow> copier (migration_view ext) (migration_into E)"
  by (rule copier_struct [where put = "\<lambda>w (m, t). w\<lparr>mm_meta := m, mm_status := t\<rparr>",
        OF copier_pair [OF externals_copyD(2) copier_mstatus] migration_view_def])
     (auto simp: migration_into_def copy_pair_def split: prod.split)

lemma copier_migration_list: "externals_copy ext E \<Longrightarrow> copier (migration_list_view ext) (migration_list_into E)"
  by (rule copier_struct [where put = "\<lambda>l (m, i). l\<lparr>li_meta := m, li_items := i\<rparr>",
        OF copier_pair [OF externals_copyD(3) copier_opt [OF copier_slice [where mk = MigrationsCell, OF copier_migration]]] migration_list_view_def])
     (auto simp: migration_list_into_def copy_pair_def split: prod.split)

section \<open>Objects\<close>

datatype 'v object_value =
    WorkloadValue "type_meta \<times> 'v \<times> workload_spec \<times> workload_status \<times> bool"
  | WorkloadListValue "type_meta \<times> 'v \<times> (type_meta \<times> 'v \<times> workload_spec \<times> workload_status \<times> bool) list option"
  | MigrationValue "type_meta \<times> migration_spec \<times> 'v \<times> migration_status \<times> 'v list option"
  | MigrationListValue
      "type_meta \<times> 'v \<times> (type_meta \<times> migration_spec \<times> 'v \<times> migration_status \<times> 'v list option) list option"

text \<open>The value of an object that is not a nil pointer.\<close>

fun object_view :: "('e, 'e, 'v) view \<Rightarrow> (api_object, 'e, 'v object_value) view" where
  "object_view ext h (WorkloadObject (Some p)) =
     map_option WorkloadValue (struct_view workload_of (workload_view ext) h p)"
| "object_view ext h (WorkloadListObject (Some p)) =
     map_option WorkloadListValue (struct_view workload_list_of (workload_list_view ext) h p)"
| "object_view ext h (MigrationObject (Some p)) =
     map_option MigrationValue (struct_view migration_of (migration_view ext) h p)"
| "object_view ext h (MigrationListObject (Some p)) =
     map_option MigrationListValue (struct_view migration_list_of (migration_list_view ext) h p)"
| "object_view ext h _ = None"

lemma object_copied:
  assumes f: "copier view f" and v: "view h p = Some v"
    and x: "\<And>h p. object_view ext h (mk (Some p)) = map_option con (view h p)"
    and c: "\<And>h. deep_copy_object E (mk (Some p)) h = object_unless_nil mk (copy_opt f (Some p) h)"
  shows "\<exists>y k. deep_copy_object E (mk (Some p)) h = (Some y, h @ k) \<and>
     (\<forall>j. object_view ext (h @ j) (mk (Some p)) = Some (con v)) \<and>
     (\<forall>g j. length g = length h \<longrightarrow> object_view ext (g @ k @ j) y = Some (con v))"
proof -
  from copier.independent [OF f v] obtain q k where "f p h = (q, h @ k)"
    and "\<And>j. view (h @ j) p = Some v" and "\<And>g j. length g = length h \<Longrightarrow> view (g @ k @ j) q = Some v"
    by blast
  then show ?thesis
    by (intro exI [of _ "mk (Some q)"] exI [of _ k]) (simp add: x c object_unless_nil_def)
qed

text \<open>
  C39: \<open>DeepCopyObject\<close> gives an object equal to the original, in memory that was free before and
  without changing any that was not; whatever is written to the new memory afterwards leaves the
  original as it is, and whatever is written to the old memory leaves the copy as it is.
\<close>

theorem object_copies_are_independent:
  assumes "externals_copy ext E" and "object_view ext h x = Some v"
  shows "\<exists>y k. deep_copy_object E x h = (Some y, h @ k) \<and>
     (\<forall>j. object_view ext (h @ j) x = Some v) \<and>
     (\<forall>g j. length g = length h \<longrightarrow> object_view ext (g @ k @ j) y = Some v)"
proof -
  note copied = object_copied [where ext = ext and E = E]
  consider p u where "x = WorkloadObject (Some p)" "v = WorkloadValue u"
      "struct_view workload_of (workload_view ext) h p = Some u"
    | p u where "x = WorkloadListObject (Some p)" "v = WorkloadListValue u"
      "struct_view workload_list_of (workload_list_view ext) h p = Some u"
    | p u where "x = MigrationObject (Some p)" "v = MigrationValue u"
      "struct_view migration_of (migration_view ext) h p = Some u"
    | p u where "x = MigrationListObject (Some p)" "v = MigrationListValue u"
      "struct_view migration_list_of (migration_list_view ext) h p = Some u"
    using assms(2) by (cases "(ext, h, x)" rule: object_view.cases) auto
  then show ?thesis
  proof cases
    case 1
    then show ?thesis
      using copied [OF copier_deep [OF copier_workload [OF assms(1)]] 1(3), of WorkloadCell WorkloadObject WorkloadValue]
      by (simp add: copy_workload_object_def copy_workload_def)
  next
    case 2
    then show ?thesis
      using copied [OF copier_deep [OF copier_workload_list [OF assms(1)]] 2(3), of WorkloadListCell WorkloadListObject WorkloadListValue]
      by (simp add: copy_workload_list_object_def copy_workload_list_def)
  next
    case 3
    then show ?thesis
      using copied [OF copier_deep [OF copier_migration [OF assms(1)]] 3(3), of MigrationCell MigrationObject MigrationValue]
      by (simp add: copy_migration_object_def copy_migration_def)
  next
    case 4
    then show ?thesis
      using copied [OF copier_deep [OF copier_migration_list [OF assms(1)]] 4(3), of MigrationListCell MigrationListObject MigrationListValue]
      by (simp add: copy_migration_list_object_def copy_migration_list_def)
  qed
qed

text \<open>The other types with a \<open>DeepCopy\<close>; nil gives nil.\<close>

lemma copies_of_parts:
  "copier (opt_view (struct_view reference_of (\<lambda>h x. Some x))) copy_reference"
  "copier (opt_view (struct_view label_of (\<lambda>h x. Some x))) copy_label"
  "copier (opt_view (struct_view spec_of spec_view)) copy_spec"
  "copier (opt_view (struct_view mspec_of (\<lambda>h x. Some x))) copy_mspec"
  "externals_copy ext E \<Longrightarrow> copier (opt_view (struct_view pod_of pod_view)) (copy_pod E)"
  "externals_copy ext E \<Longrightarrow> copier (opt_view (struct_view wstatus_of wstatus_view)) (copy_wstatus E)"
  "externals_copy ext E \<Longrightarrow> copier (opt_view (struct_view mstatus_of (mstatus_view ext))) (copy_mstatus E)"
  unfolding copy_reference_def copy_label_def copy_spec_def copy_mspec_def copy_pod_def copy_wstatus_def
    copy_mstatus_def
  by (rule copier_opt copier_deep flat.copier_axioms spec.copier_axioms copier_pod copier_wstatus
      copier_mstatus | simp)+

text \<open>A nil pointer in the interface is copied to the nil interface.\<close>

lemma nil_object_copied: "mk \<in> {WorkloadObject, WorkloadListObject, MigrationObject, MigrationListObject} \<Longrightarrow>
  deep_copy_object E (mk None) h = (None, h)"
  by (auto simp: object_unless_nil_def copy_workload_object_def copy_workload_list_object_def
      copy_migration_object_def copy_migration_list_object_def copy_workload_def copy_workload_list_def
      copy_migration_def copy_migration_list_def)

section \<open>An example\<close>

text \<open>A workload with a label, a toggle and one registered pod with a time.\<close>

definition demo_memory :: "string mem" where
  "demo_memory =
     [LabelCell \<lparr>pl_key = ''k'', pl_value = ''v''\<rparr>, BoolCell True, TimeCell 5,
      PodsCell [\<lparr>pm_name = ''web-0'', pm_address = [], pm_container_port = 0, pm_node = [], pm_migrating = False,
        pm_checkpoint_ready = False, pm_checkpoint_dir = [], pm_restored = False, pm_registered_at = Some 2\<rparr>],
      WorkloadCell \<lparr>wm_type = ([], []), wm_meta = ''web'',
        wm_spec = \<lparr>sm_workload_ref = \<lparr>wr_kind = [], wr_name = []\<rparr>, sm_placement_label = Some 0,
          sm_checkpoint_dir = [], sm_transfer_port = 0, sm_layer_count = 0, sm_process_migration = Some 1,
          sm_volume_migration = None, sm_pre_sync_rounds = None\<rparr>,
        wm_status = \<lparr>wsm_phase = [], wsm_message = [], wsm_registered_pods = Some (3, 0, 1),
          wsm_observed_generation = 1\<rparr>\<rparr>]"

definition demo_externals :: "string externals" where
  "demo_externals = \<lparr>ex_time = new_copy, ex_object_meta = flat_into, ex_list_meta = flat_into,
     ex_condition = flat_into\<rparr>"

text \<open>The toggle of the original is switched afterwards; the copy keeps its own.\<close>

theorem object_copies_are_independent_witness:
  "\<exists>v y k. object_view (\<lambda>h x. Some x) demo_memory (WorkloadObject (Some 4)) = Some v \<and>
     deep_copy_object demo_externals (WorkloadObject (Some 4)) demo_memory = (Some y, demo_memory @ k) \<and>
     object_view (\<lambda>h x. Some x) (demo_memory[1 := BoolCell False] @ k) y = Some v \<and>
     object_view (\<lambda>h x. Some x) (demo_memory[1 := BoolCell False]) (WorkloadObject (Some 4)) \<noteq> Some v"
proof -
  let ?ext = "\<lambda>h x. Some x :: string option" and ?x = "WorkloadObject (Some 4)"
  have E: "externals_copy ?ext demo_externals"
    by (simp add: externals_copy_def demo_externals_def copier_new flat.copier_axioms)
  note views = demo_memory_def struct_view_def workload_view_def pair_view_def spec_view_def wstatus_view_def
    opt_view_def slice_view_def load_def window_def pod_view_def
  obtain v where v: "object_view ?ext demo_memory ?x = Some v"
    by (simp add: views)
  have "object_view ?ext (demo_memory[1 := BoolCell False]) ?x \<noteq> object_view ?ext demo_memory ?x"
    by (simp add: views)
  with v object_copies_are_independent [OF E v] show ?thesis
    by (metis append_Nil2 length_list_update)
qed

end
