(* ===== verification/Spec2Isabelle.thy ===== *)
theory Spec2Isabelle
  imports WireExamples DeepCopySpec
begin

text \<open>
  MyceDrive moves a stateful pod of a Kubernetes workload from one node to another. It has two
  programs. The operator (\<open>src/operator\<close>) is the migration coordinator: it holds a registry of
  agents, serves their requests over HTTP, and reconciles Migration and MigratableWorkload objects.
  The Execution Agent (\<open>src/go-agent\<close>) runs in every container: it registers at the start, mounts
  the volume as an overlay, and as the preStop hook checkpoints the process (DMTCP) and the layers
  of the volume and streams them to the agent of the destination pod.

  A migration runs through both. The reconciler arms the source pod in the registry and deletes it;
  its preStop hook asks \<open>/remove\<close>, is told the mechanisms and the destination's endpoint, sends
  layers, checkpoint files and DONE there, and reports \<open>/copy\<close>; the destination's agent, which was
  told by \<open>/register\<close> that it is a migration target, receives the frames, mounts the layers and
  becomes the restored process; the reconciler follows through the flags of the registry.

  The theories, by component.

  \<^descr> Shared. Prelude: Go's integers, instants, errors. GoStrings: \<open>strconv\<close>, \<open>strings\<close>. Interfaces:
  the locales of machines with an invariant, of refinement and of codecs. AgentIO: operations of the
  agent that end with a value or an error, and the locale of relations every operation keeps.

  \<^descr> Objects. ApiTypes: \<open>operator/api/v1alpha1/migration_types.go\<close>, \<open>migratableworkload_types.go\<close>,
  records and defaults. DeepCopy, DeepCopySpec: \<open>zz_generated.deepcopy.go\<close> on an explicit memory;
  a copy equals its original and shares nothing with it. Kube: the calls to the API server, a
  parameter, and a client that logs writes.

  \<^descr> Registry. NetAddr, Registry: \<open>operator/pkg/registry/registry.go\<close>. RegistrySpec: the invariant,
  the refinement of one migration session per pod, where an endpoint comes from.

  \<^descr> History. History: \<open>operator/pkg/history/history.go\<close>. HistorySpec: order and records agree,
  and which records make room for others. HistoryMetrics: times, isolation of migrations, the summary.

  \<^descr> Reconcilers. Workload, MigrationController, WorkloadController:
  \<open>operator/internal/controller\<close>. MigrationSpec: what a pass does to registry and history.
  MigrationWrites, MigrationSafety, MigrationFlow: the writes of one pass, on a logging client.
  MigrationVersions: many passes against a server with optimistic concurrency.

  \<^descr> Coordinator. RestApi: \<open>operator/pkg/restapi\<close>, from the decoded request to status and body.
  Coordinator: seeding at startup and all interleavings of requests, passes, restarts and changes of
  the cluster. OperatorMain: \<open>operator/main.go\<close> with its flags and exit codes, and the life of the
  server. ArmingSpec: who starts and ends a migration in the registry. RestSpec: what agents can rely
  on. Minikube: a concrete API server, on which whole migrations run.

  \<^descr> HTTP. Json: structs as JSON values, with the rules of \<open>encoding/json\<close>. HttpApi: the tags of the
  operator's structs, routing, and the server from request to answer. HttpSpec: what a request
  can change, by method, path and status. RegistryTypes: numbers and strings of the registry keep
  their types. AgentWire: the agent's structs
  (\<open>go-agent/main.go\<close>, \<open>utils/system.go\<close>), whose calls over HTTP are the direct calls of the
  handlers that the other theories of the agent make.

  \<^descr> Transfer. Frames, FrameTransfer: headers, frames and acknowledgements of
  \<open>go-agent/utils/transfer.go\<close> on byte streams. Paths: \<open>safeJoin\<close> and \<open>path/filepath\<close>. Archive,
  ArchiveSpec: \<open>tarDir\<close>, \<open>ExtractTarGz\<close> and the senders.

  \<^descr> The agent's machine. FileTree, FileTreeSpec: a Unix file system with symbolic links and the
  calls of package \<open>os\<close>. AgentState: clock, environment, registry behind HTTP, and the log of
  everything that leaves the agent. AgentEnv: \<open>go-agent/utils/system.go\<close>.

  \<^descr> The agent. Overlay: \<open>go-agent/overlay/volume.go\<close>, \<open>layers.go\<close>. Dmtcp:
  \<open>go-agent/dmtcp/handler.go\<close>. EndContainer: \<open>go-agent/endcontainer.go\<close>. AgentMain:
  \<open>go-agent/main.go\<close>. AgentTrace, EndContainerSpec: what the preStop hook lets out, in which order.
  DmtcpSpec: the life cycle of a handler, and that waiting ends. OverlaySteps: the mounts of each
  method on success and failure. OverlaySpec, OverlayLevels: which layers are found, sent and
  discovered again. TargetSpec, AgentMainSpec: the migration target.

  \<^descr> Both ends. VolumeTravel: the frames of a source's preStop hook restore the volume on a target.
  HookReport: the hook's report is what the reconciler waits for.

  \<^descr> Examples, AgentExamples, WireExamples: instances of the properties on concrete inputs.

  State and effects. The registry and the history are finite maps, with one operation per method; a
  mutex is the atomicity of an operation, and what other requests do between two lock acquisitions of
  a handler is an argument. A pass of a reconciler is a function on the cluster (of any type), the
  registry and the history, atomic but for what the agents do to the registry after the pass has
  deleted the source pod, which is an argument (\<open>ck_agents\<close>). An agent is a record
  with its file system, log and current level and state; every call of the agent takes the next outcome of a script, which says how long it takes,
  what others change meanwhile, and whether it fails. So a theorem about all states is one about all
  interleavings and failures; those that need an undisturbed machine say that the script is empty.

  Bounds. No fuel is used: the loops of the source end by structure or by a measure (the deadline in
  \<open>WaitForCheckpointFile\<close>, the length of the order in \<open>evictLocked\<close>, the links left in the resolution
  of a path, of which Linux allows 40). \<open>ReceiveAll\<close> runs over the connections that arrive before the
  deadline, an arbitrary list. Widths: \<open>int\<close> is 64 bits where it can matter (\<open>Atoi\<close>, durations),
  \<open>int32\<close> ports and replicas wrap, ordinals on the wire are 32-bit words. Unbounded where the code has
  64 bits: the sums of milliseconds of a summary and of a downtime, which would take millions of years
  to overflow, and the level of the overlay, which grows by one per mount. A mirrored registration
  time is exact in the status that the reconciler sends and in whole seconds once it is stored, as a
  \<open>metav1.Time\<close> is in JSON (\<open>stored_workload\<close>). Of a file only a regular one has a modification time, and
  \<open>filepath.Glob\<close> is for directories without pattern characters.

  Arguments of the model. The API server and its client; what \<open>compress/gzip\<close> and \<open>archive/tar\<close> make of
  the bytes of a frame (\<open>unpack\<close>, \<open>pack\<close>); the connections that arrive (\<open>network\<close>); the division of floats and
  the texts of floats and instants; the flags that other packages register and what the manager answers
  at startup; \<open>metav1\<close> structs and their copies. mount, umount and the DMTCP programs are
  external: the model has that they are run, with which arguments, and whether they succeed.

  Not modelled. Logging, \<open>SetupWithManager\<close>; the bytes of JSON (a body is the value that the text
  stands for, or that it has none); sockets and the time-outs of HTTP; the embedded dashboard; scheme registration
  (\<open>groupversion_info.go\<close>); \<open>overlay/lib\<close>, which the build excludes; the manual program \<open>tests/testSockets.go\<close>; owners of files; the bytes of a frame
  that is cut off in the middle on the sender's side, of which the log has only that it was not sent.
\<close>

end
